(* ===== verification/Prelude.thy ===== *)
theory Prelude
  imports Main "HOL-Library.Sublist"
begin

section \<open>Prelude: shared automation and generic lemmas\<close>

text \<open>
  The collections of rules the component theories fill and use, and generic facts on
  lists and options that no library theory states in the form needed here.

  \<^item> \<open>keeps_intro\<close>: introduction rules that push a step contract through the
    program combinators of the theory \<open>Effects\<close>;
  \<^item> \<open>run_simps\<close>: equations that run a program of \<open>Effects\<close> on a state;
  \<^item> \<open>pod_simps\<close>: definitions of the pod predicates, unfolded together.
\<close>

named_theorems keeps_intro "rules that propagate a step contract through a program"
named_theorems run_simps "equations that run a program on a state"
named_theorems pod_simps "definitions of the predicates on pods"

subsection \<open>Lists\<close>

lemma find_append: "find P (xs @ ys) = (case find P xs of None \<Rightarrow> find P ys | Some x \<Rightarrow> Some x)"
  by (induction xs) auto

lemma find_Some_split:
  "find P xs = Some w \<longleftrightarrow> (\<exists>ys zs. xs = ys @ w # zs \<and> P w \<and> (\<forall>y\<in>set ys. \<not> P y))"
  (is "?l \<longleftrightarrow> ?r")
proof
  show "?l \<Longrightarrow> ?r"
  proof (induction xs)
    case Nil
    then show ?case by simp
  next
    case (Cons x xs)
    show ?case
    proof (cases "P x")
      case True
      with Cons.prems show ?thesis by (intro exI [of _ "[]"] exI [of _ xs]) simp
    next
      case False
      with Cons obtain ys zs where "xs = ys @ w # zs" "P w" "\<forall>y\<in>set ys. \<not> P y" by auto
      with False show ?thesis by (intro exI [of _ "x # ys"] exI [of _ zs]) simp
    qed
  qed
next
  assume ?r
  then obtain ys zs where xs: "xs = ys @ w # zs" and w: "P w" and ys: "\<forall>y\<in>set ys. \<not> P y" by blast
  from ys have "find P ys = None" by (simp add: find_None_iff)
  with w show ?l by (simp add: xs find_append)
qed

lemma find_strengthen:
  "find P xs = Some w \<Longrightarrow> (\<And>x. Q x \<Longrightarrow> P x) \<Longrightarrow> Q w \<Longrightarrow> find Q xs = Some w"
  by (induction xs) (auto split: if_splits)

lemma find_None_iff_filter: "find P xs = None \<longleftrightarrow> filter P xs = []"
  by (induction xs) auto

lemma find_Some_filter: "find P xs = Some x \<Longrightarrow> \<exists>ys. filter P xs = x # ys"
  by (induction xs) (auto split: if_splits)

lemma find_SomeD: "find P xs = Some x \<Longrightarrow> x \<in> set xs \<and> P x"
  by (induction xs) (auto split: if_splits)

lemma dropWhile_idle: "(\<forall>x\<in>set xs. \<not> P x) \<Longrightarrow> dropWhile P xs = xs"
  by (cases xs) auto

lemma dropWhile_hd: "xs = [] \<or> \<not> P (hd xs) \<Longrightarrow> dropWhile P xs = xs"
  by (cases xs) auto

lemma takeWhile_append_stop:
  "(\<forall>x\<in>set xs. P x) \<Longrightarrow> \<not> P y \<Longrightarrow> takeWhile P (xs @ y # ys) = xs"
  by (induction xs) auto

lemma dropWhile_append_stop:
  "(\<forall>x\<in>set xs. P x) \<Longrightarrow> \<not> P y \<Longrightarrow> dropWhile P (xs @ y # ys) = y # ys"
  by (induction xs) auto

lemma sorted_key_filter: "sorted (map f xs) \<Longrightarrow> sorted (map f (filter P xs))"
  by (induction xs) auto

end
