(* ===== verification/GoLib.thy ===== *)
theory GoLib
  imports Prelude
begin

section \<open>What the source uses of Go and of its standard library\<close>

text \<open>
  Go strings are byte strings, modelled as \<open>string\<close> (a list of \<open>char\<close>). This theory
  holds the functions of \<^verbatim>\<open>strings\<close>, \<^verbatim>\<open>strconv\<close>, \<^verbatim>\<open>net\<close> and \<^verbatim>\<open>maps\<close> that the operator calls,
  and Go's maps and slices with their nil values, which \<^verbatim>\<open>reflect.DeepEqual\<close> and the
  nil checks of the source tell apart from the empty ones.
  \<open>TrimSpace\<close> is modelled on ASCII white space, which is all the replies of the data
  store and the host names hold.
\<close>

subsection \<open>Maps and slices\<close>

datatype 'v gomap = Nil_map | Go_map "string \<Rightarrow> 'v option"

text \<open>Reading: a nil map reads as an empty one.\<close>

fun go_lookup :: "'v gomap \<Rightarrow> string \<Rightarrow> 'v option" where
  "go_lookup Nil_map k = None"
| "go_lookup (Go_map m) k = m k"

text \<open>The one-result form \<open>m[k]\<close> of a string map: the zero value for a missing key.\<close>

definition go_index :: "string gomap \<Rightarrow> string \<Rightarrow> string" where
  "go_index m k = (case go_lookup m k of None \<Rightarrow> '''' | Some v \<Rightarrow> v)"

text \<open>Writing to a nil map panics, so the result is an option: \<open>None\<close> is the panic.\<close>

fun go_store :: "'v gomap \<Rightarrow> string \<Rightarrow> 'v \<Rightarrow> 'v gomap option" where
  "go_store Nil_map k v = None"
| "go_store (Go_map m) k v = Some (Go_map (m(k \<mapsto> v)))"

text \<open>\<open>delete(m, k)\<close>, a no-op on a nil map.\<close>

fun go_delete :: "'v gomap \<Rightarrow> string \<Rightarrow> 'v gomap" where
  "go_delete Nil_map k = Nil_map"
| "go_delete (Go_map m) k = Go_map (m(k := None))"

text \<open>\<open>if m == nil { m = make(map[string]V) }\<close>.\<close>

fun go_make_if_nil :: "'v gomap \<Rightarrow> 'v gomap" where
  "go_make_if_nil Nil_map = Go_map Map.empty"
| "go_make_if_nil (Go_map m) = Go_map m"

text \<open>\<open>maps.Copy(dst, src)\<close> for a destination that the callers have just made.\<close>

fun maps_copy :: "(string \<Rightarrow> 'v option) \<Rightarrow> 'v gomap \<Rightarrow> (string \<Rightarrow> 'v option)" where
  "maps_copy d Nil_map = d"
| "maps_copy d (Go_map m) = d ++ m"

lemma go_lookup_store: "go_store m k v = Some m' \<Longrightarrow> go_lookup m' j = (if j = k then Some v else go_lookup m j)"
  by (cases m) auto

lemma go_lookup_delete [simp]: "go_lookup (go_delete m k) j = (if j = k then None else go_lookup m j)"
  by (cases m) auto

lemma go_lookup_make [simp]: "go_lookup (go_make_if_nil m) j = go_lookup m j"
  by (cases m) auto

lemma go_store_make: "go_store (go_make_if_nil m) k v \<noteq> None"
  by (cases m) auto

lemma go_store_total: "go_lookup m j = Some w \<Longrightarrow> \<exists>m'. go_store m k v = Some m'"
  by (cases m) auto

lemma maps_copy_lookup: "maps_copy d m k = (case go_lookup m k of None \<Rightarrow> d k | Some v \<Rightarrow> Some v)"
  by (cases m) (auto simp: map_add_def)

datatype 'a slice = Nil_slice | Slice "'a list"

fun elems :: "'a slice \<Rightarrow> 'a list" where
  "elems Nil_slice = []"
| "elems (Slice xs) = xs"

text \<open>\<open>append(s, xs...)\<close>: appending nothing to a nil slice gives nil again.\<close>

fun go_append :: "'a slice \<Rightarrow> 'a list \<Rightarrow> 'a slice" where
  "go_append Nil_slice xs = (if xs = [] then Nil_slice else Slice xs)"
| "go_append (Slice ys) xs = Slice (ys @ xs)"

lemma elems_append [simp]: "elems (go_append s xs) = elems s @ xs"
  by (cases s) auto

subsection \<open>Package strings\<close>

abbreviation newline :: char where "newline \<equiv> CHR 0x0A"
abbreviation cr :: char where "cr \<equiv> CHR 0x0D"

text \<open>\<open>strings.Split(s, c)\<close> for a separator of one byte.\<close>

fun split_on :: "char \<Rightarrow> string \<Rightarrow> string list" where
  "split_on c [] = [[]]"
| "split_on c (x # xs) =
     (if x = c then [] # split_on c xs
      else case split_on c xs of [] \<Rightarrow> [[x]] | y # ys \<Rightarrow> (x # y) # ys)"

text \<open>\<open>strings.SplitN(s, c, 2)\<close>: at most two parts, split at the first separator.\<close>

definition split_n2 :: "char \<Rightarrow> string \<Rightarrow> string list" where
  "split_n2 c s =
     (case dropWhile (\<lambda>x. x \<noteq> c) s of
        [] \<Rightarrow> [s]
      | _ # rest \<Rightarrow> [takeWhile (\<lambda>x. x \<noteq> c) s, rest])"

definition has_prefix :: "string \<Rightarrow> string \<Rightarrow> bool" where
  "has_prefix s p = (take (length p) s = p)"

definition trim_prefix :: "string \<Rightarrow> string \<Rightarrow> string" where
  "trim_prefix s p = (if has_prefix s p then drop (length p) s else s)"

definition trim_suffix :: "string \<Rightarrow> string \<Rightarrow> string" where
  "trim_suffix s p =
     (if has_prefix (rev s) (rev p) then take (length s - length p) s else s)"

fun contains_str :: "string \<Rightarrow> string \<Rightarrow> bool" where
  "contains_str [] p = (p = [])"
| "contains_str (x # xs) p = (has_prefix (x # xs) p \<or> contains_str xs p)"

text \<open>\<open>strings.Trim(s, cutset)\<close> and \<open>strings.TrimSpace(s)\<close>.\<close>

definition trim_by :: "(char \<Rightarrow> bool) \<Rightarrow> string \<Rightarrow> string" where
  "trim_by P s = rev (dropWhile P (rev (dropWhile P s)))"

definition trim_chars :: "string \<Rightarrow> string \<Rightarrow> string" where
  "trim_chars s cutset = trim_by (\<lambda>c. c \<in> set cutset) s"

definition is_space :: "char \<Rightarrow> bool" where
  "is_space c = (c \<in> {CHR 0x09, CHR 0x0A, CHR 0x0B, CHR 0x0C, CHR 0x0D, CHR '' ''})"

definition trim_space :: "string \<Rightarrow> string" where
  "trim_space s = trim_by is_space s"

lemma split_on_nonempty [simp]: "split_on c s \<noteq> []"
  by (cases s) (auto split: list.splits)

lemma split_on_no_sep: "c \<notin> set s \<Longrightarrow> split_on c s = [s]"
  by (induction s) auto

lemma split_on_append_sep: "c \<notin> set xs \<Longrightarrow> split_on c (xs @ c # ys) = xs # split_on c ys"
  by (induction xs) auto

lemma split_on_parts_free: "p \<in> set (split_on c s) \<Longrightarrow> c \<notin> set p"
  by (induction s arbitrary: p) (auto split: list.splits if_splits)

lemma last_split_on_append:
  "c \<notin> set ys \<Longrightarrow> last (split_on c (xs @ c # ys)) = ys \<and> 2 \<le> length (split_on c (xs @ c # ys))"
proof (induction xs)
  case Nil
  then show ?case by (simp add: split_on_no_sep)
next
  case (Cons x xs)
  then show ?case
    by (cases "split_on c (xs @ c # ys)") (auto split: list.splits)
qed

lemma has_prefix_iff: "has_prefix s p \<longleftrightarrow> (\<exists>t. s = p @ t)"
  unfolding has_prefix_def by (metis append_eq_conv_conj append_take_drop_id)

lemma contains_str_iff: "contains_str s p \<longleftrightarrow> sublist p s"
proof (induction s)
  case Nil
  then show ?case by simp
next
  case (Cons x xs)
  then show ?case
    by (simp add: has_prefix_iff prefix_def sublist_Cons_right)
qed

lemma trim_by_idle: "s = [] \<or> (\<not> P (hd s) \<and> \<not> P (last s)) \<Longrightarrow> trim_by P s = s"
  by (auto simp: trim_by_def dropWhile_hd hd_rev)

lemma trim_by_free: "\<forall>c\<in>set s. \<not> P c \<Longrightarrow> trim_by P s = s"
  by (rule trim_by_idle) (cases s rule: rev_cases; auto simp: hd_append split: list.splits)

subsection \<open>Package strconv\<close>

definition digit_of :: "char \<Rightarrow> nat option" where
  "digit_of c =
     (if 48 \<le> (of_char c :: nat) \<and> (of_char c :: nat) \<le> 57 then Some (of_char c - 48) else None)"

text \<open>The digits of a decimal number, most significant first, and back.\<close>

fun digits_value :: "int \<Rightarrow> string \<Rightarrow> int option" where
  "digits_value acc [] = Some acc"
| "digits_value acc (c # cs) =
     (case digit_of c of None \<Rightarrow> None | Some d \<Rightarrow> digits_value (acc * 10 + int d) cs)"

text \<open>
  \<open>strconv.ParseInt(s, 10, 64)\<close>, and \<open>strconv.Atoi\<close> on a 64-bit platform: an optional sign,
  at least one digit, and the value in the range of a signed 64-bit integer. \<open>None\<close> is an
  error return.
\<close>

definition parse_int64 :: "string \<Rightarrow> int option" where
  "parse_int64 s =
     (let neg = (s \<noteq> [] \<and> hd s = CHR ''-'');
          body = (if s \<noteq> [] \<and> (hd s = CHR ''-'' \<or> hd s = CHR ''+'') then tl s else s)
      in if body = [] then None
         else case digits_value 0 body of
                None \<Rightarrow> None
              | Some n \<Rightarrow>
                  let v = (if neg then - n else n)
                  in if - (2 ^ 63) \<le> v \<and> v < 2 ^ 63 then Some v else None)"

text \<open>\<open>strconv.Itoa\<close> and \<open>%d\<close> of \<open>fmt\<close>.\<close>

fun nat_digits :: "nat \<Rightarrow> string" where
  "nat_digits n =
     (if n < 10 then [char_of (48 + n)] else nat_digits (n div 10) @ [char_of (48 + n mod 10)])"

declare nat_digits.simps [simp del]

definition itoa :: "int \<Rightarrow> string" where
  "itoa n = (if n < 0 then CHR ''-'' # nat_digits (nat (- n)) else nat_digits (nat n))"

lemma digit_of_char_of [simp]: "d < 10 \<Longrightarrow> digit_of (char_of (48 + d)) = Some d"
  by (simp add: digit_of_def of_char_of)

lemma digits_value_append:
  "digits_value acc (xs @ [c]) =
     (case digits_value acc xs of
        None \<Rightarrow> None
      | Some v \<Rightarrow> (case digit_of c of None \<Rightarrow> None | Some d \<Rightarrow> Some (v * 10 + int d)))"
  by (induction xs arbitrary: acc) (auto split: option.splits)

lemma digits_value_nat_digits: "digits_value 0 (nat_digits n) = Some (int n)"
proof (induction n rule: nat_digits.induct)
  case (1 n)
  show ?case
  proof (cases "n < 10")
    case True
    then show ?thesis by (simp add: nat_digits.simps [of n])
  next
    case False
    have "int (n div 10) * 10 + int (n mod 10) = int n" by presburger
    with False "1.IH" show ?thesis
      by (simp add: nat_digits.simps [of n] digits_value_append)
  qed
qed

lemma nat_digits_nonempty: "nat_digits n \<noteq> []"
  by (subst nat_digits.simps) simp

lemma nat_digits_decimal: "c \<in> set (nat_digits n) \<Longrightarrow> digit_of c \<noteq> None"
proof (induction n rule: nat_digits.induct)
  case (1 n)
  then show ?case
    by (cases "n < 10") (auto simp: nat_digits.simps [of n])
qed

lemma not_digit_signs [simp]:
  "digit_of CHR ''-'' = None" "digit_of CHR ''+'' = None" "digit_of CHR ''.'' = None"
  "digit_of CHR '':'' = None" "digit_of CHR '','' = None"
  by (simp_all add: digit_of_def)

lemma nat_digits_no_sign:
  "CHR ''-'' \<notin> set (nat_digits n)" "CHR ''+'' \<notin> set (nat_digits n)"
  using nat_digits_decimal by fastforce+

lemma parse_int64_itoa:
  assumes "- (2 ^ 63) \<le> n" and "n < 2 ^ 63"
  shows "parse_int64 (itoa n) = Some n"
proof (cases "n < 0")
  case True
  with assms show ?thesis
    by (simp add: parse_int64_def itoa_def nat_digits_nonempty digits_value_nat_digits)
next
  case False
  have "hd (nat_digits (nat n)) \<noteq> CHR ''-''" "hd (nat_digits (nat n)) \<noteq> CHR ''+''"
    using nat_digits_no_sign nat_digits_nonempty hd_in_set by metis+
  with False assms show ?thesis
    by (simp add: parse_int64_def itoa_def nat_digits_nonempty digits_value_nat_digits)
qed

lemma parse_int64_range: "parse_int64 s = Some v \<Longrightarrow> - (2 ^ 63) \<le> v \<and> v < 2 ^ 63"
  by (auto simp: parse_int64_def Let_def split: option.splits if_splits)

subsection \<open>net.JoinHostPort\<close>

definition join_host_port :: "string \<Rightarrow> string \<Rightarrow> string" where
  "join_host_port host port =
     (if CHR '':'' \<in> set host then ''['' @ host @ '']:'' @ port else host @ '':'' @ port)"

end
