(* ===== verification/Net_IP.thy ===== *)
theory Net_IP
  imports GoLib
begin

section \<open>net.ParseIP\<close>

text \<open>
  \<^verbatim>\<open>net.ParseIP\<close> decides, when a pod becomes a replica, whether the address of the master
  also goes into the \<^verbatim>\<open>master-ip\<close> label: only the addresses with a 4-byte form do. The
  parser of the Go standard library is modelled byte for byte: dotted decimal, the
  hexadecimal groups of IPv6 with one ellipsis and a trailing dotted decimal, and the
  rejection of zones. An address is its 16 bytes, an IPv4 address in its mapped form.
\<close>

subsection \<open>Dotted decimal\<close>

text \<open>
  The loop over the characters: the previous character, the value and the number of digits
  of the current field, and the fields read so far.
\<close>

fun v4_fields :: "char option \<Rightarrow> string \<Rightarrow> nat \<Rightarrow> nat \<Rightarrow> nat list \<Rightarrow> nat list option" where
  "v4_fields prev [] val len fs = (if length fs < 3 then None else Some (fs @ [val]))"
| "v4_fields prev (c # cs) val len fs =
     (case digit_of c of
        Some d \<Rightarrow>
          if len = 1 \<and> val = 0 then None
          else if val * 10 + d > 255 then None
          else v4_fields (Some c) cs (val * 10 + d) (len + 1) fs
      | None \<Rightarrow>
          if c = CHR ''.'' then
            if prev = None \<or> cs = [] \<or> prev = Some CHR ''.'' then None
            else if length fs = 3 then None
            else v4_fields (Some c) cs 0 0 (fs @ [val])
          else None)"

definition parse_v4 :: "string \<Rightarrow> nat list option" where
  "parse_v4 s = v4_fields None s 0 0 []"

subsection \<open>IPv6\<close>

definition hex_of :: "char \<Rightarrow> nat option" where
  "hex_of c =
     (let n = (of_char c :: nat) in
      if 48 \<le> n \<and> n \<le> 57 then Some (n - 48)
      else if 97 \<le> n \<and> n \<le> 102 then Some (n - 87)
      else if 65 \<le> n \<and> n \<le> 70 then Some (n - 55)
      else None)"

text \<open>A run of hexadecimal digits: its length, its value and the rest of the string.\<close>

fun hex_run :: "string \<Rightarrow> nat \<Rightarrow> nat \<Rightarrow> (nat \<times> nat \<times> string) option" where
  "hex_run [] off acc = Some (off, acc, [])"
| "hex_run (c # cs) off acc =
     (case hex_of c of
        None \<Rightarrow> Some (off, acc, c # cs)
      | Some d \<Rightarrow>
          if off > 3 then None
          else if acc * 16 + d > 65535 then None
          else hex_run cs (off + 1) (acc * 16 + d))"

text \<open>
  The loop \<open>for i < 16\<close> adds two bytes in each round, so the number of groups left bounds
  it. The result: the bytes, the position of the ellipsis and what is left of the string.
\<close>

fun v6_groups :: "nat \<Rightarrow> nat list \<Rightarrow> nat option \<Rightarrow> string \<Rightarrow> (nat list \<times> nat option \<times> string) option" where
  "v6_groups 0 ip el s = Some (ip, el, s)"
| "v6_groups (Suc k) ip el s =
     (case hex_run s 0 0 of
        None \<Rightarrow> None
      | Some (off, acc, rest) \<Rightarrow>
          if off = 0 then None
          else if rest \<noteq> [] \<and> hd rest = CHR ''.'' then
            if el = None \<and> length ip \<noteq> 12 then None
            else if length ip + 4 > 16 then None
            else (case parse_v4 s of None \<Rightarrow> None | Some fs \<Rightarrow> Some (ip @ fs, el, []))
          else
            (let ip' = ip @ [acc div 256, acc mod 256] in
             case rest of
               [] \<Rightarrow> Some (ip', el, [])
             | c # t \<Rightarrow>
                 if c \<noteq> CHR '':'' then None
                 else if t = [] then None
                 else if hd t = CHR '':'' then
                   if el \<noteq> None then None
                   else if tl t = [] then Some (ip', Some (length ip'), [])
                   else v6_groups k ip' (Some (length ip')) (tl t)
                 else v6_groups k ip' el t))"

definition parse_v6 :: "string \<Rightarrow> nat list option" where
  "parse_v6 s =
     (if CHR ''%'' \<in> set s then None
      else
        let lead = has_prefix s ''::'';
            s' = (if lead then drop 2 s else s)
        in if lead \<and> s' = [] then Some (replicate 16 0)
           else case v6_groups 8 [] (if lead then Some 0 else None) s' of
                  None \<Rightarrow> None
                | Some (ip, el, rest) \<Rightarrow>
                    if rest \<noteq> [] then None
                    else if length ip < 16 then
                      (case el of
                         None \<Rightarrow> None
                       | Some e \<Rightarrow> Some (take e ip @ replicate (16 - length ip) 0 @ drop e ip))
                    else if el \<noteq> None then None
                    else Some ip)"

subsection \<open>ParseIP and To4\<close>

definition parse_ip :: "string \<Rightarrow> nat list option" where
  "parse_ip s =
     (case dropWhile (\<lambda>c. c \<notin> {CHR ''.'', CHR '':'', CHR ''%''}) s of
        [] \<Rightarrow> None
      | c # _ \<Rightarrow>
          if c = CHR ''.'' then
            (case parse_v4 s of
               None \<Rightarrow> None
             | Some fs \<Rightarrow> Some (replicate 10 0 @ [255, 255] @ fs))
          else if c = CHR '':'' then parse_v6 s
          else None)"

definition to4 :: "nat list \<Rightarrow> nat list option" where
  "to4 ip =
     (if length ip = 4 then Some ip
      else if length ip = 16 \<and> take 10 ip = replicate 10 0 \<and> take 2 (drop 10 ip) = [255, 255]
      then Some (drop 12 ip)
      else None)"

text \<open>The condition \<open>ip := net.ParseIP(s); ip != nil && ip.To4() != nil\<close>.\<close>

definition has_v4_form :: "string \<Rightarrow> bool" where
  "has_v4_form s = (case parse_ip s of None \<Rightarrow> False | Some ip \<Rightarrow> to4 ip \<noteq> None)"

subsection \<open>Dotted decimal addresses are accepted\<close>

lemma digit_not_dot: "d < 10 \<Longrightarrow> char_of (48 + d) \<noteq> CHR ''.''" for d :: nat
  by (metis digit_of_char_of not_digit_signs(3) option.distinct(1))

lemma v4_fields_digits:
  assumes "n \<le> 255"
  shows "v4_fields prev (nat_digits n @ rest) 0 0 fs =
    v4_fields (Some (char_of (48 + n mod 10))) rest n (length (nat_digits n)) fs"
proof -
  consider "n < 10" | "10 \<le> n" "n < 100" | "100 \<le> n" by linarith
  then show ?thesis
  proof cases
    case 1
    then show ?thesis by (simp add: nat_digits.simps [of n])
  next
    case 2
    then have "n div 10 < 10" "n div 10 \<noteq> 0" by auto
    with 2 show ?thesis
      by (simp add: nat_digits.simps [of n] nat_digits.simps [of "n div 10"] assms)
  next
    case 3
    with assms have h: "n div 10 div 10 < 10" "n div 10 div 10 \<noteq> 0" "\<not> n div 10 < 10" "n div 10 \<le> 255"
      by auto
    have v: "n div 10 div 10 * 10 + n div 10 mod 10 = n div 10" "n div 10 * 10 + n mod 10 = n"
      by presburger+
    from h 3 assms show ?thesis
      by (simp add: nat_digits.simps [of n] nat_digits.simps [of "n div 10"]
          nat_digits.simps [of "n div 10 div 10"] v)
  qed
qed

definition dotted :: "nat \<Rightarrow> nat \<Rightarrow> nat \<Rightarrow> nat \<Rightarrow> string" where
  "dotted a b c d =
     nat_digits a @ ''.'' @ nat_digits b @ ''.'' @ nat_digits c @ ''.'' @ nat_digits d"

lemma parse_v4_dotted:
  assumes "a \<le> 255" "b \<le> 255" "c \<le> 255" "d \<le> 255"
  shows "parse_v4 (dotted a b c d) = Some [a, b, c, d]"
  using assms v4_fields_digits [of d _ "[]"]
  by (simp add: parse_v4_def dotted_def v4_fields_digits digit_not_dot nat_digits_nonempty)

lemma nat_digits_no_marks:
  "c \<in> {CHR ''.'', CHR '':'', CHR ''%''} \<Longrightarrow> c \<notin> set (nat_digits n)"
  using nat_digits_decimal [of c n] by (auto simp: digit_of_def)

lemma has_v4_form_dotted:
  assumes "a \<le> 255" "b \<le> 255" "c \<le> 255" "d \<le> 255"
  shows "has_v4_form (dotted a b c d)"
proof -
  let ?P = "\<lambda>c. c \<notin> {CHR ''.'', CHR '':'', CHR ''%''}"
  have "\<forall>x\<in>set (nat_digits a). ?P x"
    using nat_digits_no_marks by blast
  then obtain r where "dropWhile ?P (dotted a b c d) = CHR ''.'' # r"
    using dropWhile_append_stop [of "nat_digits a" ?P "CHR ''.''"] by (simp add: dotted_def)
  with parse_v4_dotted [OF assms] show ?thesis
    by (simp add: has_v4_form_def parse_ip_def to4_def)
qed

end
