(* ===== verification/Const.thy ===== *)
theory Const
  imports GoLib
begin

section \<open>The constants of the operator\<close>

text \<open>
  \<^verbatim>\<open>internal/resources/const.go\<close> and \<^verbatim>\<open>version.go\<close>, the phases of
  \<^verbatim>\<open>internal/controller/util.go\<close>, the timeouts of
  \<^verbatim>\<open>internal/controller/dragonfly_instance.go\<close> and the names of the Kubernetes API that
  the source refers to. They are abbreviations, so that a label key or an argument is the
  literal it stands for in every proof.
\<close>

subsection \<open>Ports, names, labels, volumes and arguments\<close>

abbreviation DragonflyPortName :: string where "DragonflyPortName \<equiv> ''redis''"
abbreviation DragonflyPort :: int where "DragonflyPort \<equiv> 6379"
abbreviation DragonflyAdminPortName :: string where "DragonflyAdminPortName \<equiv> ''admin''"
abbreviation DragonflyAdminPort :: int where "DragonflyAdminPort \<equiv> 9999"
abbreviation MemcachedPortName :: string where "MemcachedPortName \<equiv> ''memcached''"
abbreviation MemcachedPortArg :: string where "MemcachedPortArg \<equiv> ''--memcached_port''"
abbreviation DragonflyContainerName :: string where "DragonflyContainerName \<equiv> ''dragonfly''"
abbreviation AclVolumeName :: string where "AclVolumeName \<equiv> ''dragonfly-acl''"
abbreviation AclDir :: string where "AclDir \<equiv> ''/var/lib/dragonfly''"
abbreviation AclFileName :: string where "AclFileName \<equiv> ''dragonfly.acl''"
abbreviation AclFileArg :: string where "AclFileArg \<equiv> ''--aclfile''"
abbreviation SnapshotsVolumeName :: string where "SnapshotsVolumeName \<equiv> ''df''"
abbreviation SnapshotsDir :: string where "SnapshotsDir \<equiv> ''/dragonfly/snapshots''"
abbreviation SnapshotsDirArg :: string where "SnapshotsDirArg \<equiv> ''--dir''"
abbreviation SnapshotsCronArg :: string where "SnapshotsCronArg \<equiv> ''--snapshot_cron''"
abbreviation TLSVolumeName :: string where "TLSVolumeName \<equiv> ''dragonfly-tls''"
abbreviation TLSDir :: string where "TLSDir \<equiv> ''/etc/dragonfly-tls''"
abbreviation TLSCACertPathArg :: string where "TLSCACertPathArg \<equiv> ''--tls_ca_cert_file''"
abbreviation TLSCACertDir :: string where "TLSCACertDir \<equiv> ''/etc/dragonfly/tls''"
abbreviation TLSCACertFileName :: string where "TLSCACertFileName \<equiv> ''ca.crt''"
abbreviation TLSCACertVolumeName :: string where "TLSCACertVolumeName \<equiv> ''client-ca-cert''"
abbreviation TLSCertPathArg :: string where "TLSCertPathArg \<equiv> ''--tls_cert_file''"
abbreviation TLSCertFileName :: string where "TLSCertFileName \<equiv> ''tls.crt''"
abbreviation TLSKeyPathArg :: string where "TLSKeyPathArg \<equiv> ''--tls_key_file''"
abbreviation TLSKeyFileName :: string where "TLSKeyFileName \<equiv> ''tls.key''"
abbreviation TLSArg :: string where "TLSArg \<equiv> ''--tls''"
abbreviation NoTLSOnAdminPortArg :: string where "NoTLSOnAdminPortArg \<equiv> ''--no_tls_on_admin_port''"
abbreviation DragonflyOperatorName :: string where "DragonflyOperatorName \<equiv> ''dragonfly-operator''"
abbreviation DragonflyImage :: string where "DragonflyImage \<equiv> ''docker.dragonflydb.io/dragonflydb/dragonfly''"
abbreviation KubernetesAppNameLabelKey :: string where "KubernetesAppNameLabelKey \<equiv> ''app.kubernetes.io/name''"
abbreviation KubernetesAppName :: string where "KubernetesAppName \<equiv> ''dragonfly''"
abbreviation KubernetesAppVersionLabelKey :: string where "KubernetesAppVersionLabelKey \<equiv> ''app.kubernetes.io/version''"
abbreviation KubernetesAppComponentLabelKey :: string where "KubernetesAppComponentLabelKey \<equiv> ''app.kubernetes.io/component''"
abbreviation KubernetesAppComponent :: string where "KubernetesAppComponent \<equiv> ''dragonfly''"
abbreviation KubernetesAppInstanceLabelKey :: string where "KubernetesAppInstanceLabelKey \<equiv> ''app.kubernetes.io/instance''"
abbreviation KubernetesManagedByLabelKey :: string where "KubernetesManagedByLabelKey \<equiv> ''app.kubernetes.io/managed-by''"
abbreviation KubernetesPartOfLabelKey :: string where "KubernetesPartOfLabelKey \<equiv> ''app.kubernetes.io/part-of''"
abbreviation KubernetesPartOf :: string where "KubernetesPartOf \<equiv> ''dragonfly''"
abbreviation MasterIpLabelKey :: string where "MasterIpLabelKey \<equiv> ''master-ip''"
abbreviation DragonflyNameLabelKey :: string where "DragonflyNameLabelKey \<equiv> ''app''"
abbreviation MasterIpAnnotationKey :: string where "MasterIpAnnotationKey \<equiv> ''operator.dragonflydb.io/masterIP''"
abbreviation RoleLabelKey :: string where "RoleLabelKey \<equiv> ''role''"
abbreviation Master :: string where "Master \<equiv> ''master''"
abbreviation Replica :: string where "Replica \<equiv> ''replica''"
abbreviation ReplicationReadyConditionType :: string where "ReplicationReadyConditionType \<equiv> ''dragonflydb.io/replication-ready''"
abbreviation LivenessProbeConfigMapSuffix :: string where "LivenessProbeConfigMapSuffix \<equiv> ''liveness-probe''"
abbreviation ReadinessProbeConfigMapSuffix :: string where "ReadinessProbeConfigMapSuffix \<equiv> ''readiness-probe''"
abbreviation StartupProbeConfigMapSuffix :: string where "StartupProbeConfigMapSuffix \<equiv> ''startup-probe''"
abbreviation LivenessScriptKey :: string where "LivenessScriptKey \<equiv> ''liveness-check.sh''"
abbreviation ReadinessScriptKey :: string where "ReadinessScriptKey \<equiv> ''readiness-check.sh''"
abbreviation StartupScriptKey :: string where "StartupScriptKey \<equiv> ''startup-check.sh''"
abbreviation ProbeMountPath :: string where "ProbeMountPath \<equiv> ''/etc/dragonfly/probes''"
abbreviation LivenessProbeVolumeName :: string where "LivenessProbeVolumeName \<equiv> ''liveness-probe''"
abbreviation ReadinessProbeVolumeName :: string where "ReadinessProbeVolumeName \<equiv> ''readiness-probe''"
abbreviation StartupProbeVolumeName :: string where "StartupProbeVolumeName \<equiv> ''startup-probe''"

definition DefaultDragonflyArgs :: "string list" where
  "DefaultDragonflyArgs =
     [''--alsologtostderr'',
      ''--break_replication_on_master_restart=true'',
      ''--primary_port_http_enabled=false'',
      ''--admin_port='' @ itoa DragonflyAdminPort,
      ''--admin_nopass'']"

abbreviation Version :: string where "Version \<equiv> ''v2.0.2''"

subsection \<open>Phases\<close>

abbreviation PhaseResourcesCreated :: string where "PhaseResourcesCreated \<equiv> ''ResourcesCreated''"
abbreviation PhaseReady :: string where "PhaseReady \<equiv> ''Ready''"
abbreviation PhaseRollingUpdate :: string where "PhaseRollingUpdate \<equiv> ''RollingUpdate''"
abbreviation PhaseConfiguring :: string where "PhaseConfiguring \<equiv> ''Configuring''"
abbreviation PhaseNotReady :: string where "PhaseNotReady \<equiv> ''NotReady''"
abbreviation PhaseReadyOld :: string where "PhaseReadyOld \<equiv> ''ready''"

subsection \<open>Durations, in nanoseconds\<close>

abbreviation second :: int where "second \<equiv> 1000000000"

definition dragonflyReadTimeout :: int where "dragonflyReadTimeout = 10 * second"
definition replTakeoverTimeout :: int where "replTakeoverTimeout = 5 * second"

subsection \<open>Names of the Kubernetes API\<close>

abbreviation StatefulSetRevisionLabel :: string where
  "StatefulSetRevisionLabel \<equiv> ''controller-revision-hash''"
abbreviation PodRunning :: string where "PodRunning \<equiv> ''Running''"
abbreviation ContainersReady :: string where "ContainersReady \<equiv> ''ContainersReady''"
abbreviation DisruptionTarget :: string where "DisruptionTarget \<equiv> ''DisruptionTarget''"
abbreviation ConditionTrue :: string where "ConditionTrue \<equiv> ''True''"
abbreviation ConditionFalse :: string where "ConditionFalse \<equiv> ''False''"
abbreviation OrderedReadyPodManagement :: string where "OrderedReadyPodManagement \<equiv> ''OrderedReady''"
abbreviation OnDeleteStatefulSetStrategyType :: string where
  "OnDeleteStatefulSetStrategyType \<equiv> ''OnDelete''"
abbreviation ServiceTypeNodePort :: string where "ServiceTypeNodePort \<equiv> ''NodePort''"
abbreviation ServiceTypeLoadBalancer :: string where "ServiceTypeLoadBalancer \<equiv> ''LoadBalancer''"
abbreviation ServiceExternalTrafficPolicyLocal :: string where
  "ServiceExternalTrafficPolicyLocal \<equiv> ''Local''"
abbreviation PersistentVolumeFilesystem :: string where "PersistentVolumeFilesystem \<equiv> ''Filesystem''"
abbreviation EventTypeNormal :: string where "EventTypeNormal \<equiv> ''Normal''"
abbreviation EventTypeWarning :: string where "EventTypeWarning \<equiv> ''Warning''"

subsection \<open>The admin port, printed\<close>

lemma itoa_admin_port [simp]: "itoa DragonflyAdminPort = ''9999''"
  by (simp add: itoa_def nat_digits.simps char_of_def bit_iff_odd)

end
