(* ===== verification/Api_Types.thy ===== *)
theory Api_Types
  imports Const
begin

section \<open>The data of the operator\<close>

text \<open>
  The custom resource of \<^verbatim>\<open>api/v1alpha1/dragonfly_types.go\<close> field by field, and the fields
  of the Kubernetes objects (\<^verbatim>\<open>corev1\<close>, \<^verbatim>\<open>appsv1\<close>, \<^verbatim>\<open>policyv1\<close>) that the source reads or
  writes. A part of an object that the operator only copies is an \<open>opaque\<close> payload: two
  payloads are equal when their contents are. Machine integers of the source (replica
  counts, ports, probe periods) are only compared, copied and printed, never computed
  with beyond \<open>n - 1\<close> in 64 bits, so they are \<open>int\<close>.
\<close>

datatype opaque = Opaque string

abbreviation no_payload :: opaque where "no_payload \<equiv> Opaque ''''"

text \<open>A time is a count from Go's zero time, so \<open>0\<close> is the value \<open>IsZero\<close> recognises.\<close>

type_synonym time = int

fun is_zero_time :: "time option \<Rightarrow> bool" where
  "is_zero_time None = True"
| "is_zero_time (Some t) = (t = 0)"

subsection \<open>Pods\<close>

record pod_condition =
  pcType :: string
  pcStatus :: string
  pcLastTransitionTime :: time

record container_status =
  csName :: string
  csReady :: bool

record pod =
  podName :: string
  podNamespace :: string
  podLabels :: "string gomap"
  podAnnotations :: "string gomap"
  podDeletionTimestamp :: "time option"
  podPhase :: string
  podIP :: string
  podConditions :: "pod_condition list"
  podContainerStatuses :: "container_status list"

subsection \<open>Containers, volumes and pod templates\<close>

record secret_reference =
  srName :: string
  srNamespace :: string

record secret_key_selector =
  sksName :: string
  sksKey :: string

datatype env_var_source = Secret_key_ref secret_key_selector | Other_env_source opaque

record env_var =
  evName :: string
  evValue :: string
  evValueFrom :: "env_var_source option"

record container_port =
  cpName :: string
  cpContainerPort :: int

datatype probe_handler = Exec_action "string list" | Other_handler opaque

record probe =
  prHandler :: probe_handler
  prFailureThreshold :: int
  prInitialDelaySeconds :: int
  prPeriodSeconds :: int
  prSuccessThreshold :: int
  prTimeoutSeconds :: int

record volume_mount =
  vmName :: string
  vmMountPath :: string
  vmSubPath :: string
  vmReadOnly :: bool
  vmOther :: opaque

record container =
  cnName :: string
  cnImage :: string
  cnPorts :: "container_port slice"
  cnArgs :: "string slice"
  cnEnv :: "env_var slice"
  cnReadinessProbe :: "probe option"
  cnLivenessProbe :: "probe option"
  cnStartupProbe :: "probe option"
  cnImagePullPolicy :: string
  cnSecurityContext :: "opaque option"
  cnResources :: opaque
  cnVolumeMounts :: "volume_mount slice"
  cnOther :: opaque

datatype volume_source =
  Config_map_source string
| Secret_source string "(string \<times> string) list"
| Pvc_source string
| Other_volume_source opaque

record volume =
  volName :: string
  volSource :: volume_source

record pod_security_context =
  pscFSGroup :: "int option"
  pscOther :: opaque

record pod_spec =
  psImagePullSecrets :: "string slice"
  psEnableServiceLinks :: "bool option"
  psContainers :: "container slice"
  psInitContainers :: "container slice"
  psReadinessGates :: "string slice"
  psSecurityContext :: "pod_security_context option"
  psVolumes :: "volume slice"
  psAffinity :: "opaque option"
  psNodeSelector :: "string gomap"
  psTolerations :: "opaque slice"
  psTopologySpreadConstraints :: "opaque slice"
  psServiceAccountName :: string
  psPriorityClassName :: string
  psOther :: opaque

record pod_template =
  ptLabels :: "string gomap"
  ptAnnotations :: "string gomap"
  ptSpec :: pod_spec

subsection \<open>Owned objects\<close>

record owner_reference =
  orAPIVersion :: string
  orKind :: string
  orName :: string
  orUID :: string
  orController :: "bool option"

record object_meta =
  omName :: string
  omNamespace :: string
  omLabels :: "string gomap"
  omAnnotations :: "string gomap"
  omOwnerReferences :: "owner_reference list"

record pvc_spec =
  pvcVolumeMode :: "string option"
  pvcSpecOther :: opaque

record pvc =
  pvcName :: string
  pvcLabels :: "string gomap"
  pvcAnnotations :: "string gomap"
  pvcSpec :: pvc_spec
  pvcOther :: opaque

record statefulset_spec =
  ssReplicas :: "int option"
  ssServiceName :: string
  ssSelector :: "string gomap option"
  ssUpdateStrategy :: string
  ssPodManagementPolicy :: string
  ssVolumeClaimTemplates :: "pvc slice"
  ssTemplate :: pod_template
  ssPvcRetentionPolicy :: "opaque option"
  ssOther :: opaque

record statefulset =
  stsMeta :: object_meta
  stsSpec :: statefulset_spec
  stsUpdateRevision :: string
  stsUpdatedReplicas :: int
  stsStatusReplicas :: int

record service_port =
  svpName :: string
  svpPort :: int
  svpNodePort :: int
  svpOther :: opaque

record k8s_service_spec =
  svSelector :: "string gomap"
  svPorts :: "service_port slice"
  svType :: string
  svClusterIP :: string
  svIPFamilies :: "string slice"
  svIPFamilyPolicy :: "string option"
  svExternalTrafficPolicy :: string
  svHealthCheckNodePort :: int
  svLoadBalancerClass :: "string option"
  svOther :: opaque

record service =
  svcMeta :: object_meta
  svcSpec :: k8s_service_spec

record config_map =
  cmMeta :: object_meta
  cmData :: "string gomap"
  cmBinaryData :: "string gomap"

datatype int_or_string = Int_val int | Str_val string

record k8s_pdb_spec =
  pdSelector :: "string gomap option"
  pdMaxUnavailable :: "int_or_string option"
  pdMinAvailable :: "int_or_string option"
  pdOther :: opaque

record pdb =
  pdbMeta :: object_meta
  pdbSpec :: k8s_pdb_spec

text \<open>The kinds of object the operator owns (\<^verbatim>\<open>client.Object\<close>).\<close>

datatype k8s_object =
  O_StatefulSet statefulset
| O_Service service
| O_ConfigMap config_map
| O_PDB pdb

subsection \<open>The Dragonfly custom resource\<close>

record metadata_spec =
  mdAnnotations :: "string gomap"
  mdLabels :: "string gomap"

record service_spec =
  sspType :: string
  sspName :: string
  sspNodePort :: int
  sspAnnotations :: "string gomap"
  sspLabels :: "string gomap"

record tiering =
  tierPvcSpec :: "pvc_spec option"

record snapshot =
  snapDir :: string
  snapCron :: string
  snapEnableOnMasterOnly :: bool
  snapPvcSpec :: "pvc_spec option"
  snapExistingPvcName :: string

record authentication =
  authPasswordFromSecret :: "secret_key_selector option"
  authClientCaCertSecret :: "secret_key_selector option"

record pdb_spec =
  pdbMinAvailable :: "int_or_string option"
  pdbMaxUnavailable :: "int_or_string option"

record dragonfly_spec =
  specReplicas :: int
  specPodManagementPolicy :: string
  specImage :: string
  specImagePullPolicy :: string
  specImagePullSecrets :: "string slice"
  specArgs :: "string slice"
  specAclFromSecret :: "secret_key_selector option"
  specAnnotations :: "string gomap"
  specLabels :: "string gomap"
  specPodMetadata :: "metadata_spec option"
  specEnv :: "env_var slice"
  specAdditionalContainers :: "container slice"
  specAdditionalVolumes :: "volume slice"
  specAdditionalVolumeMounts :: "volume_mount slice"
  specPvcRetentionPolicy :: "opaque option"
  specResources :: "opaque option"
  specAffinity :: "opaque option"
  specNodeSelector :: "string gomap"
  specMemcachedPort :: int
  specTolerations :: "opaque slice"
  specTopologySpreadConstraints :: "opaque slice"
  specAuthentication :: "authentication option"
  specContainerSecurityContext :: "opaque option"
  specPodSecurityContext :: "pod_security_context option"
  specServiceAccountName :: string
  specPriorityClassName :: string
  specTLSSecretRef :: "secret_reference option"
  specTiering :: "tiering option"
  specSnapshot :: "snapshot option"
  specSkipFSGroup :: bool
  specServiceSpec :: "service_spec option"
  specInitContainers :: "container slice"
  specOwnedObjectsMetadata :: "metadata_spec option"
  specEnableReplicationReadinessGate :: bool
  specPdb :: "pdb_spec option"
  specCustomLivenessProbeConfigMap :: "string option"
  specCustomReadinessProbeConfigMap :: "string option"
  specCustomStartupProbeConfigMap :: "string option"

record dragonfly_status =
  statusPhase :: string
  statusIsRollingUpdate :: bool

record dragonfly =
  dfAPIVersion :: string
  dfKind :: string
  dfName :: string
  dfNamespace :: string
  dfUID :: string
  dfDeletionTimestamp :: "time option"
  dfSpec :: dragonfly_spec
  dfStatus :: dragonfly_status

end
