(* ===== verification/Effects.thy ===== *)
theory Effects
  imports Api_Types
begin

section \<open>Effects: errors, calls, the environment and programs\<close>

text \<open>
  The operator talks to the Kubernetes API server and to the Dragonfly pods (over the
  Redis protocol). Neither is code of the repository, so both are a parameter: an \<open>env\<close>
  answers every call, as a function of the calls made so far. A theorem that quantifies
  over the environment therefore covers every server, every cache and every other actor
  of the cluster, failures included.

  A method of the source is a \<open>'a prog\<close>: it takes the state of the operator to an outcome
  and the next state. The state holds the record of the calls made so far with their
  answers (\<open>history\<close>), the in-memory custom resource (the field \<open>df\<close> of
  \<open>DragonflyInstance\<close>) and the cache of Redis clients (its field \<open>redisClients\<close>).
  An outcome is a value, an error return or a panic.
\<close>

subsection \<open>Errors\<close>

text \<open>
  The sentinel errors of \<^verbatim>\<open>util.go\<close>, the errors of the API server (with the one reason
  the source asks about) and of the Redis client, \<^verbatim>\<open>fmt.Errorf\<close> without and with \<^verbatim>\<open>%w\<close>.
\<close>

datatype gerror =
  ErrNoMaster
| ErrNoHealthyMaster
| ErrIncorrectMasters
| Api_error bool string
| Redis_error string
| Error_string string
| Wrapped string gerror

fun error_text :: "gerror \<Rightarrow> string" where
  "error_text ErrNoMaster = ''no master found''"
| "error_text ErrNoHealthyMaster = ''no healthy master found''"
| "error_text ErrIncorrectMasters = ''incorrect number of masters''"
| "error_text (Api_error not_found msg) = msg"
| "error_text (Redis_error msg) = msg"
| "error_text (Error_string msg) = msg"
| "error_text (Wrapped msg e) = msg @ '': '' @ error_text e"

text \<open>\<^verbatim>\<open>errors.Is\<close> on the sentinels and \<^verbatim>\<open>apierrors.IsNotFound\<close>: both look through \<^verbatim>\<open>%w\<close>.\<close>

fun errors_is :: "gerror \<Rightarrow> gerror \<Rightarrow> bool" where
  "errors_is (Wrapped msg e) t = errors_is e t"
| "errors_is e t = (e = t)"

fun is_not_found :: "gerror \<Rightarrow> bool" where
  "is_not_found (Api_error not_found msg) = not_found"
| "is_not_found (Wrapped msg e) = is_not_found e"
| "is_not_found e = False"

subsection \<open>Calls\<close>

datatype redis_cmd =
  Info string
| Ping
| Config_set string string
| Slave_of string string
| Client_list
| Client_kill string

text \<open>The untyped reply of \<^verbatim>\<open>redisClient.Do\<close>.\<close>

datatype reply = Str_reply string | Other_reply string

type_synonym selector = "(string \<times> string) list"

datatype call =
  Redis_call string redis_cmd "gerror + string"
| Redis_do string "string list" "gerror + reply"
| Get_pod string string "gerror + pod"
| List_pods string selector "gerror + pod list"
| Patch_pod pod pod "gerror + pod"
| Patch_pod_status pod pod "gerror + pod"
| Delete_pod pod "gerror + unit"
| Get_dragonfly string string "gerror + dragonfly"
| Patch_dragonfly_status dragonfly dragonfly "gerror + dragonfly"
| Get_statefulset string string "gerror + statefulset"
| Get_object k8s_object "gerror + k8s_object"
| Create_object k8s_object "gerror + k8s_object"
| Patch_object k8s_object k8s_object "gerror + k8s_object"
| Delete_pdb string string "gerror + unit"
| Record_event string string string
| Read_clock time

record env =
  envRedis :: "call list \<Rightarrow> string \<Rightarrow> redis_cmd \<Rightarrow> gerror + string"
  envRedisDo :: "call list \<Rightarrow> string \<Rightarrow> string list \<Rightarrow> gerror + reply"
  envGetPod :: "call list \<Rightarrow> string \<Rightarrow> string \<Rightarrow> gerror + pod"
  envListPods :: "call list \<Rightarrow> string \<Rightarrow> selector \<Rightarrow> gerror + pod list"
  envPatchPod :: "call list \<Rightarrow> pod \<Rightarrow> pod \<Rightarrow> gerror + pod"
  envPatchPodStatus :: "call list \<Rightarrow> pod \<Rightarrow> pod \<Rightarrow> gerror + pod"
  envDeletePod :: "call list \<Rightarrow> pod \<Rightarrow> gerror + unit"
  envGetDragonfly :: "call list \<Rightarrow> string \<Rightarrow> string \<Rightarrow> gerror + dragonfly"
  envPatchDragonflyStatus :: "call list \<Rightarrow> dragonfly \<Rightarrow> dragonfly \<Rightarrow> gerror + dragonfly"
  envGetStatefulset :: "call list \<Rightarrow> string \<Rightarrow> string \<Rightarrow> gerror + statefulset"
  envGetObject :: "call list \<Rightarrow> k8s_object \<Rightarrow> gerror + k8s_object"
  envCreateObject :: "call list \<Rightarrow> k8s_object \<Rightarrow> gerror + k8s_object"
  envPatchObject :: "call list \<Rightarrow> k8s_object \<Rightarrow> k8s_object \<Rightarrow> gerror + k8s_object"
  envDeletePdb :: "call list \<Rightarrow> string \<Rightarrow> string \<Rightarrow> gerror + unit"
  envSetControllerReference :: "dragonfly \<Rightarrow> k8s_object \<Rightarrow> gerror + k8s_object"
  envNow :: "call list \<Rightarrow> time"

subsection \<open>State, outcomes and programs\<close>

record redis_client =
  rcClientName :: string
  rcAddr :: string
  rcDialTimeout :: int
  rcReadTimeout :: int
  rcWriteTimeout :: int
  rcMaxRetries :: int
  rcDialerRetries :: int
  rcMaintNotificationsDisabled :: bool

record op_state =
  history :: "call list"
  df :: dragonfly
  redisClients :: "redis_client gomap"

datatype 'a result = Ok 'a | Fail gerror | Panic

type_synonym 'a prog = "op_state \<Rightarrow> 'a result \<times> op_state"

definition ret :: "'a \<Rightarrow> 'a prog" where
  "ret x = (\<lambda>s. (Ok x, s))"

definition fail :: "gerror \<Rightarrow> 'a prog" where
  "fail e = (\<lambda>s. (Fail e, s))"

definition panic :: "'a prog" where
  "panic = (\<lambda>s. (Panic, s))"

text \<open>Sequencing: an error return and a panic leave the method at once.\<close>

definition bnd :: "'a prog \<Rightarrow> ('a \<Rightarrow> 'b prog) \<Rightarrow> 'b prog" where
  "bnd m k = (\<lambda>s. case m s of
     (Ok x, t) \<Rightarrow> k x t
   | (Fail e, t) \<Rightarrow> (Fail e, t)
   | (Panic, t) \<Rightarrow> (Panic, t))"

text \<open>\<open>x, err := m\<close> where the caller looks at \<open>err\<close> itself: a panic still leaves.\<close>

definition attempt :: "'a prog \<Rightarrow> (gerror + 'a) prog" where
  "attempt m = (\<lambda>s. case m s of
     (Ok x, t) \<Rightarrow> (Ok (Inr x), t)
   | (Fail e, t) \<Rightarrow> (Ok (Inl e), t)
   | (Panic, t) \<Rightarrow> (Panic, t))"

text \<open>\<open>if err != nil { return fmt.Errorf("msg: %w", err) }\<close>.\<close>

definition map_error :: "(gerror \<Rightarrow> gerror) \<Rightarrow> 'a prog \<Rightarrow> 'a prog" where
  "map_error f m = (\<lambda>s. case m s of
     (Ok x, t) \<Rightarrow> (Ok x, t)
   | (Fail e, t) \<Rightarrow> (Fail (f e), t)
   | (Panic, t) \<Rightarrow> (Panic, t))"

abbreviation wrap :: "string \<Rightarrow> 'a prog \<Rightarrow> 'a prog" where
  "wrap msg \<equiv> map_error (Wrapped msg)"

definition only_if :: "bool \<Rightarrow> unit prog \<Rightarrow> unit prog" where
  "only_if b m = (if b then m else ret ())"

text \<open>Loops over a list: to the end, or until the body returns a value (\<open>Some\<close>).\<close>

fun for_each :: "('a \<Rightarrow> unit prog) \<Rightarrow> 'a list \<Rightarrow> unit prog" where
  "for_each f [] = ret ()"
| "for_each f (x # xs) = bnd (f x) (\<lambda>_. for_each f xs)"

fun for_until :: "('a \<Rightarrow> 'b option prog) \<Rightarrow> 'a list \<Rightarrow> 'b option prog" where
  "for_until f [] = ret None"
| "for_until f (x # xs) =
     bnd (f x) (\<lambda>r. case r of Some y \<Rightarrow> ret (Some y) | None \<Rightarrow> for_until f xs)"

text \<open>Reading the state.\<close>

definition get_df :: "dragonfly prog" where
  "get_df = (\<lambda>s. (Ok (df s), s))"

definition set_df :: "dragonfly \<Rightarrow> unit prog" where
  "set_df d = (\<lambda>s. (Ok (), s\<lparr>df := d\<rparr>))"

fun of_sum :: "gerror + 'a \<Rightarrow> 'a result" where
  "of_sum (Inl e) = Fail e"
| "of_sum (Inr x) = Ok x"

definition perform :: "(call list \<Rightarrow> gerror + 'a) \<Rightarrow> (gerror + 'a \<Rightarrow> call) \<Rightarrow> 'a prog" where
  "perform ask call_of =
     (\<lambda>s. (of_sum (ask (history s)), s\<lparr>history := history s @ [call_of (ask (history s))]\<rparr>))"

subsection \<open>The calls the source makes\<close>

definition redis :: "env \<Rightarrow> redis_client \<Rightarrow> redis_cmd \<Rightarrow> string prog" where
  "redis E c cmd = perform (\<lambda>h. envRedis E h (rcAddr c) cmd) (Redis_call (rcAddr c) cmd)"

definition redis_do :: "env \<Rightarrow> redis_client \<Rightarrow> string list \<Rightarrow> reply prog" where
  "redis_do E c args = perform (\<lambda>h. envRedisDo E h (rcAddr c) args) (Redis_do (rcAddr c) args)"

definition get_pod :: "env \<Rightarrow> string \<Rightarrow> string \<Rightarrow> pod prog" where
  "get_pod E ns n = perform (\<lambda>h. envGetPod E h ns n) (Get_pod ns n)"

definition list_pods :: "env \<Rightarrow> string \<Rightarrow> selector \<Rightarrow> pod list prog" where
  "list_pods E ns sel = perform (\<lambda>h. envListPods E h ns sel) (List_pods ns sel)"

definition patch_pod :: "env \<Rightarrow> pod \<Rightarrow> pod \<Rightarrow> pod prog" where
  "patch_pod E old new = perform (\<lambda>h. envPatchPod E h old new) (Patch_pod old new)"

definition patch_pod_status :: "env \<Rightarrow> pod \<Rightarrow> pod \<Rightarrow> pod prog" where
  "patch_pod_status E old new = perform (\<lambda>h. envPatchPodStatus E h old new) (Patch_pod_status old new)"

definition delete_pod :: "env \<Rightarrow> pod \<Rightarrow> unit prog" where
  "delete_pod E p = perform (\<lambda>h. envDeletePod E h p) (Delete_pod p)"

definition get_dragonfly :: "env \<Rightarrow> string \<Rightarrow> string \<Rightarrow> dragonfly prog" where
  "get_dragonfly E ns n = perform (\<lambda>h. envGetDragonfly E h ns n) (Get_dragonfly ns n)"

definition patch_dragonfly_status :: "env \<Rightarrow> dragonfly \<Rightarrow> dragonfly \<Rightarrow> dragonfly prog" where
  "patch_dragonfly_status E old new =
     perform (\<lambda>h. envPatchDragonflyStatus E h old new) (Patch_dragonfly_status old new)"

definition get_statefulset :: "env \<Rightarrow> string \<Rightarrow> string \<Rightarrow> statefulset prog" where
  "get_statefulset E ns n = perform (\<lambda>h. envGetStatefulset E h ns n) (Get_statefulset ns n)"

definition get_object :: "env \<Rightarrow> k8s_object \<Rightarrow> k8s_object prog" where
  "get_object E x = perform (\<lambda>h. envGetObject E h x) (Get_object x)"

definition create_object :: "env \<Rightarrow> k8s_object \<Rightarrow> k8s_object prog" where
  "create_object E x = perform (\<lambda>h. envCreateObject E h x) (Create_object x)"

definition patch_object :: "env \<Rightarrow> k8s_object \<Rightarrow> k8s_object \<Rightarrow> k8s_object prog" where
  "patch_object E old new = perform (\<lambda>h. envPatchObject E h old new) (Patch_object old new)"

definition delete_pdb :: "env \<Rightarrow> string \<Rightarrow> string \<Rightarrow> unit prog" where
  "delete_pdb E ns n = perform (\<lambda>h. envDeletePdb E h ns n) (Delete_pdb ns n)"

definition record_event :: "string \<Rightarrow> string \<Rightarrow> string \<Rightarrow> unit prog" where
  "record_event ty reason msg =
     (\<lambda>s. (Ok (), s\<lparr>history := history s @ [Record_event ty reason msg]\<rparr>))"

definition read_clock :: "env \<Rightarrow> time prog" where
  "read_clock E =
     (\<lambda>s. (Ok (envNow E (history s)), s\<lparr>history := history s @ [Read_clock (envNow E (history s))]\<rparr>))"

lemmas call_defs =
  redis_def redis_do_def get_pod_def list_pods_def patch_pod_def patch_pod_status_def
  delete_pod_def get_dragonfly_def patch_dragonfly_status_def get_statefulset_def
  get_object_def create_object_def patch_object_def delete_pdb_def

subsection \<open>Running programs\<close>

lemma run_ret [run_simps]: "ret x s = (Ok x, s)"
  by (simp add: ret_def)

lemma run_fail [run_simps]: "fail e s = (Fail e, s)"
  by (simp add: fail_def)

lemma run_panic [run_simps]: "panic s = (Panic, s)"
  by (simp add: panic_def)

lemma run_get_df [run_simps]: "get_df s = (Ok (df s), s)"
  by (simp add: get_df_def)

lemma run_set_df [run_simps]: "set_df d s = (Ok (), s\<lparr>df := d\<rparr>)"
  by (simp add: set_df_def)

lemma run_only_if [run_simps]: "only_if b m s = (if b then m s else (Ok (), s))"
  by (simp add: only_if_def ret_def)

lemma run_bnd [run_simps]:
  "bnd m k s = (case m s of (Ok x, t) \<Rightarrow> k x t | (Fail e, t) \<Rightarrow> (Fail e, t) | (Panic, t) \<Rightarrow> (Panic, t))"
  by (simp add: bnd_def)

lemma run_attempt [run_simps]:
  "attempt m s = (case m s of (Ok x, t) \<Rightarrow> (Ok (Inr x), t) | (Fail e, t) \<Rightarrow> (Ok (Inl e), t) | (Panic, t) \<Rightarrow> (Panic, t))"
  by (simp add: attempt_def)

lemma run_map_error [run_simps]:
  "map_error f m s = (case m s of (Ok x, t) \<Rightarrow> (Ok x, t) | (Fail e, t) \<Rightarrow> (Fail (f e), t) | (Panic, t) \<Rightarrow> (Panic, t))"
  by (simp add: map_error_def)

lemma bnd_assoc: "bnd (bnd m f) g = bnd m (\<lambda>x. bnd (f x) g)"
  by (rule ext) (auto simp: bnd_def split: prod.splits result.splits)

lemma bnd_ret [simp]: "bnd (ret x) k = k x"
  by (rule ext) (simp add: bnd_def ret_def)

lemma bnd_ret_right [simp]: "bnd m ret = m"
  by (rule ext) (auto simp: bnd_def ret_def split: prod.splits result.splits)

lemma for_each_append: "for_each f (xs @ ys) = bnd (for_each f xs) (\<lambda>_. for_each f ys)"
  by (induction xs) (simp_all add: bnd_assoc)

text \<open>The two ways a run of \<open>bnd\<close> returns a value or an error.\<close>

lemma bnd_OkE:
  assumes "bnd m k s = (Ok y, u)"
  obtains x t where "m s = (Ok x, t)" and "k x t = (Ok y, u)"
  using assms by (auto simp: bnd_def split: prod.splits result.splits)

lemma map_error_OkD: "map_error f m s = (Ok x, t) \<Longrightarrow> m s = (Ok x, t)"
  by (auto simp: map_error_def split: prod.splits result.splits)

end
