(* ===== verification/Pod_Util.thy ===== *)
theory Pod_Util
  imports Effects
begin

section \<open>Predicates on pods and errors\<close>

text \<open>
  The helpers of \<^verbatim>\<open>internal/controller/util.go\<close>: what a pod's labels and status say about
  its role, revision and health, and which errors the reconcilers treat specially.
\<close>

subsection \<open>Revision, role, health\<close>

definition isPodOnLatestVersion :: "pod \<Rightarrow> string \<Rightarrow> bool" where [pod_simps]:
  "isPodOnLatestVersion p updateRevision =
     (case go_lookup (podLabels p) StatefulSetRevisionLabel of
        Some podRevision \<Rightarrow> podRevision = updateRevision
      | None \<Rightarrow> False)"

definition getUpdatedReplica :: "pod list \<Rightarrow> string \<Rightarrow> pod prog" where
  "getUpdatedReplica replicas updateRevision =
     (case find (\<lambda>r. isPodOnLatestVersion r updateRevision) replicas of
        Some r \<Rightarrow> ret r
      | None \<Rightarrow> fail (Error_string ''no replica pod found on latest version''))"

definition roleExists :: "pod \<Rightarrow> bool" where [pod_simps]:
  "roleExists p = (go_lookup (podLabels p) RoleLabelKey \<noteq> None)"

definition isDragonflyContainerReady :: "container_status list \<Rightarrow> bool" where
  "isDragonflyContainerReady statuses =
     (case find (\<lambda>cs. csName cs = DragonflyContainerName) statuses of
        Some cs \<Rightarrow> csReady cs
      | None \<Rightarrow> False)"

definition isReady :: "pod \<Rightarrow> bool" where
  "isReady p =
     (case find (\<lambda>c. pcType c = ContainersReady \<and> pcStatus c = ConditionTrue \<and> podIP p \<noteq> '''')
             (podConditions p) of
        Some _ \<Rightarrow> isDragonflyContainerReady (podContainerStatuses p)
      | None \<Rightarrow> False)"

definition isRunningAndReady :: "pod \<Rightarrow> bool" where
  "isRunningAndReady p = (podPhase p = PodRunning \<and> isReady p)"

definition isTerminating :: "pod \<Rightarrow> bool" where
  "isTerminating p =
     (if \<not> is_zero_time (podDeletionTimestamp p) then True
      else find (\<lambda>c. pcType c = DisruptionTarget \<and> pcStatus c = ConditionTrue)
             (podConditions p) \<noteq> None)"

definition isHealthy :: "pod \<Rightarrow> bool" where
  "isHealthy p = (isRunningAndReady p \<and> \<not> isTerminating p)"

definition isMaster :: "pod \<Rightarrow> bool" where [pod_simps]:
  "isMaster p =
     (case go_lookup (podLabels p) RoleLabelKey of Some role \<Rightarrow> role = Master | None \<Rightarrow> False)"

definition isReplica :: "pod \<Rightarrow> bool" where [pod_simps]:
  "isReplica p =
     (case go_lookup (podLabels p) RoleLabelKey of Some role \<Rightarrow> role = Replica | None \<Rightarrow> False)"

definition getDragonflyName :: "pod \<Rightarrow> string prog" where
  "getDragonflyName p =
     (case go_lookup (podLabels p) DragonflyNameLabelKey of
        Some name \<Rightarrow> ret name
      | None \<Rightarrow>
          fail (Error_string (''can'' @ [CHR 0x27] @ ''t find the `'' @ DragonflyNameLabelKey @ ''` label'')))"

definition needRollingUpdate :: "pod list \<Rightarrow> statefulset \<Rightarrow> bool" where
  "needRollingUpdate pods sts =
     (if stsUpdatedReplicas sts \<noteq> stsStatusReplicas sts
      then find (\<lambda>p. \<not> isPodOnLatestVersion p (stsUpdateRevision sts)) pods \<noteq> None
      else False)"

subsection \<open>Errors and addresses\<close>

definition isMasterError :: "gerror \<Rightarrow> bool" where
  "isMasterError e =
     (errors_is e ErrNoMaster \<or> errors_is e ErrNoHealthyMaster \<or> errors_is e ErrIncorrectMasters)"

definition isReplicationCancelledError :: "gerror \<Rightarrow> bool" where
  "isReplicationCancelledError e = contains_str (error_text e) ''replication cancelled''"

definition sanitizeIp :: "string \<Rightarrow> string" where
  "sanitizeIp masterIp = trim_chars masterIp ''[]''"

definition podManagementPolicyOrDefault :: "string \<Rightarrow> string" where
  "podManagementPolicyOrDefault policy = (if policy = '''' then OrderedReadyPodManagement else policy)"

subsection \<open>Facts\<close>

lemma isReplica_roleExists: "isReplica p \<Longrightarrow> roleExists p"
  by (auto simp: pod_simps split: option.splits)

lemma isMaster_roleExists: "isMaster p \<Longrightarrow> roleExists p"
  by (auto simp: pod_simps split: option.splits)

lemma isMaster_not_isReplica: "isMaster p \<Longrightarrow> \<not> isReplica p"
  by (auto simp: pod_simps split: option.splits)

lemma isReady_podIP: "isReady p \<Longrightarrow> podIP p \<noteq> ''''"
  by (auto simp: isReady_def dest: find_SomeD split: option.splits)

lemma isRunningAndReady_podIP: "isRunningAndReady p \<Longrightarrow> podIP p \<noteq> ''''"
  by (simp add: isRunningAndReady_def isReady_podIP)

lemma getUpdatedReplica_ok:
  "getUpdatedReplica replicas urev s = (Ok r, t) \<Longrightarrow>
   t = s \<and> r \<in> set replicas \<and> isPodOnLatestVersion r urev"
  by (auto simp: getUpdatedReplica_def run_simps dest: find_SomeD split: option.splits)

lemma needRollingUpdate_iff:
  "needRollingUpdate pods sts \<longleftrightarrow>
     stsUpdatedReplicas sts \<noteq> stsStatusReplicas sts \<and>
     (\<exists>p\<in>set pods. \<not> isPodOnLatestVersion p (stsUpdateRevision sts))"
  by (auto simp: needRollingUpdate_def find_None_iff)

text \<open>Wrapping with \<^verbatim>\<open>%w\<close> changes neither classification.\<close>

lemma isMasterError_wrapped [simp]: "isMasterError (Wrapped msg e) = isMasterError e"
  by (simp add: isMasterError_def)

lemma isReplicationCancelledError_wrapped:
  "isReplicationCancelledError e \<Longrightarrow> isReplicationCancelledError (Wrapped msg e)"
  unfolding isReplicationCancelledError_def contains_str_iff sublist_def error_text.simps
  by (metis append.assoc)

end
