(* ===== verification/Sample_Cluster.thy ===== *)
theory Sample_Cluster
  imports Effects
begin

section \<open>A sample cluster\<close>

text \<open>
  One concrete instance with two pods, and an environment that answers for it, whatever
  the calls before. The theorems of the other theories are applied to it, to show that
  their hypotheses can hold on a cluster like those the operator runs in.
\<close>

definition sample_labels :: "string \<Rightarrow> string \<Rightarrow> string gomap" where
  "sample_labels role urev = Go_map
     [DragonflyNameLabelKey \<mapsto> ''df'', KubernetesPartOfLabelKey \<mapsto> KubernetesPartOf,
      KubernetesAppNameLabelKey \<mapsto> KubernetesAppName, RoleLabelKey \<mapsto> role,
      StatefulSetRevisionLabel \<mapsto> urev]"

definition sample_pod :: "string \<Rightarrow> string \<Rightarrow> string \<Rightarrow> string \<Rightarrow> pod" where
  "sample_pod name ip role urev =
     \<lparr>podName = name, podNamespace = ''ns'', podLabels = sample_labels role urev,
      podAnnotations = Nil_map, podDeletionTimestamp = None, podPhase = PodRunning, podIP = ip,
      podConditions =
        [\<lparr>pcType = ContainersReady, pcStatus = ConditionTrue, pcLastTransitionTime = 1\<rparr>],
      podContainerStatuses = [\<lparr>csName = DragonflyContainerName, csReady = True\<rparr>]\<rparr>"

definition sample_master :: pod where
  "sample_master = sample_pod ''df-0'' ''10.0.0.1'' Master ''r1''"

definition sample_replica :: pod where
  "sample_replica = sample_pod ''df-1'' ''10.0.0.2'' Replica ''r2''"

definition sample_spec :: dragonfly_spec where
  "sample_spec =
     \<lparr>specReplicas = 2, specPodManagementPolicy = '''', specImage = '''', specImagePullPolicy = '''',
      specImagePullSecrets = Nil_slice, specArgs = Slice [''--maxmemory=1gb''],
      specAclFromSecret = None, specAnnotations = Nil_map, specLabels = Nil_map,
      specPodMetadata = None, specEnv = Nil_slice, specAdditionalContainers = Nil_slice,
      specAdditionalVolumes = Nil_slice, specAdditionalVolumeMounts = Nil_slice,
      specPvcRetentionPolicy = None, specResources = None, specAffinity = None,
      specNodeSelector = Nil_map, specMemcachedPort = 0, specTolerations = Nil_slice,
      specTopologySpreadConstraints = Nil_slice, specAuthentication = None,
      specContainerSecurityContext = None, specPodSecurityContext = None,
      specServiceAccountName = '''', specPriorityClassName = '''',
      specTLSSecretRef = Some \<lparr>srName = ''df-tls'', srNamespace = ''''\<rparr>, specTiering = None,
      specSnapshot = Some \<lparr>snapDir = '''', snapCron = ''*/5 * * * *'', snapEnableOnMasterOnly = True,
        snapPvcSpec = None, snapExistingPvcName = ''backups''\<rparr>,
      specSkipFSGroup = False, specServiceSpec = None, specInitContainers = Nil_slice,
      specOwnedObjectsMetadata = None, specEnableReplicationReadinessGate = False, specPdb = None,
      specCustomLivenessProbeConfigMap = None, specCustomReadinessProbeConfigMap = Some ''my-probe'',
      specCustomStartupProbeConfigMap = None\<rparr>"

definition sample_df :: "string \<Rightarrow> dragonfly" where
  "sample_df phase =
     \<lparr>dfAPIVersion = ''dragonflydb.io/v1alpha1'', dfKind = ''Dragonfly'', dfName = ''df'',
      dfNamespace = ''ns'', dfUID = ''u1'', dfDeletionTimestamp = None, dfSpec = sample_spec,
      dfStatus = \<lparr>statusPhase = phase, statusIsRollingUpdate = False\<rparr>\<rparr>"

definition sample_statefulset :: statefulset where
  "sample_statefulset =
     \<lparr>stsMeta = \<lparr>omName = ''df'', omNamespace = ''ns'', omLabels = Nil_map, omAnnotations = Nil_map,
        omOwnerReferences = []\<rparr>,
      stsSpec =
        \<lparr>ssReplicas = Some 2, ssServiceName = ''df'', ssSelector = None, ssUpdateStrategy = '''',
         ssPodManagementPolicy = '''', ssVolumeClaimTemplates = Nil_slice,
         ssTemplate = \<lparr>ptLabels = Nil_map, ptAnnotations = Nil_map,
           ptSpec =
             \<lparr>psImagePullSecrets = Nil_slice, psEnableServiceLinks = None, psContainers = Nil_slice,
              psInitContainers = Nil_slice, psReadinessGates = Nil_slice, psSecurityContext = None,
              psVolumes = Nil_slice, psAffinity = None, psNodeSelector = Nil_map,
              psTolerations = Nil_slice, psTopologySpreadConstraints = Nil_slice,
              psServiceAccountName = '''', psPriorityClassName = '''', psOther = no_payload\<rparr>\<rparr>,
         ssPvcRetentionPolicy = None, ssOther = no_payload\<rparr>,
      stsUpdateRevision = ''r2'', stsUpdatedReplicas = 1, stsStatusReplicas = 2\<rparr>"

text \<open>Every command is accepted; the pods answer with a loaded dataset and their own role.\<close>

definition sample_info :: "string \<Rightarrow> string \<Rightarrow> string" where
  "sample_info addr topic =
     (if topic = ''persistence'' then ''loading:0'' @ [newline] @ ''load_state:done''
      else if addr = ''10.0.0.1:9999'' then ''role:master''
      else ''role:replica'' @ [newline] @ ''master_host:10.0.0.1'' @ [newline] @ ''slave_repl_offset:7'')"

definition sample_listed :: "pod list \<Rightarrow> selector \<Rightarrow> pod list" where
  "sample_listed ps sel =
     filter (\<lambda>p. list_all (\<lambda>(k, v). go_lookup (podLabels p) k = Some v) sel) ps"

definition sample_env :: "pod list \<Rightarrow> env" where
  "sample_env ps =
     \<lparr>envRedis = (\<lambda>h addr cmd. Inr (case cmd of Info topic \<Rightarrow> sample_info addr topic | _ \<Rightarrow> ''OK'')),
      envRedisDo = (\<lambda>h addr args. Inr (Str_reply ''OK'')),
      envGetPod = (\<lambda>h ns n. case find (\<lambda>p. podName p = n) ps of
        None \<Rightarrow> Inl (Api_error True ''not found'') | Some p \<Rightarrow> Inr p),
      envListPods = (\<lambda>h ns sel. Inr (sample_listed ps sel)),
      envPatchPod = (\<lambda>h old new. Inr new),
      envPatchPodStatus = (\<lambda>h old new. Inr new),
      envDeletePod = (\<lambda>h p. Inr ()),
      envGetDragonfly = (\<lambda>h ns n. Inr (sample_df PhaseReady)),
      envPatchDragonflyStatus = (\<lambda>h old new. Inr new),
      envGetStatefulset = (\<lambda>h ns n. Inr sample_statefulset),
      envGetObject = (\<lambda>h x. Inl (Api_error True ''not found'')),
      envCreateObject = (\<lambda>h x. Inr x),
      envPatchObject = (\<lambda>h x y. Inr y),
      envDeletePdb = (\<lambda>h ns n. Inr ()),
      envSetControllerReference = (\<lambda>d x. Inr x),
      envNow = (\<lambda>h. 5)\<rparr>"

definition sample_state :: "string \<Rightarrow> op_state" where
  "sample_state phase = \<lparr>history = [], df = sample_df phase, redisClients = Nil_map\<rparr>"

text \<open>A pod of the old revision that does not get to run.\<close>

definition sample_stuck :: pod where
  "sample_stuck = (sample_pod ''df-1'' ''10.0.0.2'' Replica ''r1'')\<lparr>podPhase := ''Pending''\<rparr>"

lemmas sample_pods =
  sample_labels_def sample_pod_def sample_master_def sample_replica_def sample_stuck_def

lemmas sample_defs =
  sample_pods sample_spec_def sample_df_def sample_statefulset_def sample_info_def
  sample_listed_def sample_env_def sample_state_def

lemma sample_answers [simp]:
  "envRedis (sample_env ps) h addr cmd = Inr (case cmd of Info topic \<Rightarrow> sample_info addr topic | _ \<Rightarrow> ''OK'')"
  "envRedisDo (sample_env ps) h addr args = Inr (Str_reply ''OK'')"
  "envListPods (sample_env ps) h ns sel = Inr (sample_listed ps sel)"
  "envPatchPod (sample_env ps) h p q = Inr q"
  "envPatchPodStatus (sample_env ps) h p q = Inr q"
  "envDeletePod (sample_env ps) h p = Inr ()"
  "envPatchDragonflyStatus (sample_env ps) h d d' = Inr d'"
  "envGetStatefulset (sample_env ps) h ns n = Inr sample_statefulset"
  "envGetObject (sample_env ps) h x = Inl (Api_error True ''not found'')"
  "envCreateObject (sample_env ps) h x = Inr x"
  "envPatchObject (sample_env ps) h x y = Inr y"
  "envSetControllerReference (sample_env ps) d x = Inr x"
  by (simp_all add: sample_env_def)

end
