(* ===== verification/Election.thy ===== *)
theory Election
  imports Pod_Util Sample_Cluster
begin

section \<open>Master election\<close>

text \<open>
  \<^verbatim>\<open>selectMasterCandidate\<close>, \<^verbatim>\<open>isBetterCandidate\<close> and \<^verbatim>\<open>getOrdinal\<close> of
  \<^verbatim>\<open>internal/controller/util.go\<close>. The two callbacks of the election query pods over the
  network, so the election is a program. The order of the candidates is specified
  abstractly by \<open>rank\<close>, a linearly ordered type: the election returns a ready pod of the
  least rank.
\<close>

subsection \<open>Ordinals and candidates\<close>

abbreviation MaxInt :: int where "MaxInt \<equiv> 9223372036854775807"

definition getOrdinal :: "string \<Rightarrow> int" where
  "getOrdinal name =
     (let parts = split_on CHR ''-'' name
      in if length parts < 2 then MaxInt
         else case parse_int64 (last parts) of
                None \<Rightarrow> MaxInt
              | Some ordinal \<Rightarrow> ordinal)"

record master_candidate =
  mcPod :: pod
  mcIsReplica :: bool
  mcOffset :: int

definition isBetterCandidate :: "master_candidate \<Rightarrow> master_candidate \<Rightarrow> bool" where
  "isBetterCandidate a b =
     (if mcIsReplica a \<noteq> mcIsReplica b then mcIsReplica a
      else if mcOffset a \<noteq> mcOffset b then mcOffset a > mcOffset b
      else getOrdinal (podName (mcPod a)) < getOrdinal (podName (mcPod b)))"

text \<open>The loop over the pods with the best candidate so far.\<close>

fun select_loop ::
  "(pod \<Rightarrow> bool prog) \<Rightarrow> (pod \<Rightarrow> master_candidate prog) \<Rightarrow> master_candidate option \<Rightarrow> pod list \<Rightarrow>
   master_candidate option prog" where
  "select_loop rdy cand best [] = ret best"
| "select_loop rdy cand best (p # ps) =
     bnd (rdy p) (\<lambda>ready.
     if \<not> ready then select_loop rdy cand best ps
     else bnd (cand p) (\<lambda>c.
       select_loop rdy cand
         (case best of
            None \<Rightarrow> Some c
          | Some b \<Rightarrow> if isBetterCandidate c b then Some c else Some b) ps))"

definition selectMasterCandidate ::
  "pod list \<Rightarrow> (pod \<Rightarrow> bool prog) \<Rightarrow> (pod \<Rightarrow> master_candidate prog) \<Rightarrow> pod option prog" where
  "selectMasterCandidate pods rdy cand =
     bnd (select_loop rdy cand None pods) (\<lambda>best. ret (map_option mcPod best))"

subsection \<open>Choosing by a strict weak order\<close>

text \<open>One round of such a loop, for any comparison; the candidates are taken in order.\<close>

fun best_of :: "('c \<Rightarrow> 'c \<Rightarrow> bool) \<Rightarrow> 'c option \<Rightarrow> 'c list \<Rightarrow> 'c option" where
  "best_of better best [] = best"
| "best_of better best (c # cs) =
     best_of better
       (case best of None \<Rightarrow> Some c | Some b \<Rightarrow> if better c b then Some c else Some b) cs"

locale preference =
  fixes better :: "'c \<Rightarrow> 'c \<Rightarrow> bool"
  assumes irrefl: "\<not> better a a"
    and negative_trans: "\<not> better a b \<Longrightarrow> \<not> better b c \<Longrightarrow> \<not> better a c"
    and asym: "better a b \<Longrightarrow> \<not> better b a"
begin

lemma best_of_cases:
  "best_of better best cs = Some w \<Longrightarrow>
   (w \<in> set cs \<or> best = Some w) \<and>
   (\<forall>c\<in>set cs. \<not> better c w) \<and> (\<forall>b. best = Some b \<longrightarrow> \<not> better b w)"
proof (induction cs arbitrary: best)
  case Nil
  then show ?case by (simp add: irrefl)
next
  case (Cons c cs)
  show ?case
  proof (cases best)
    case None
    with Cons.prems have "best_of better (Some c) cs = Some w" by simp
    from Cons.IH [OF this] None show ?thesis by auto
  next
    case (Some b)
    show ?thesis
    proof (cases "better c b")
      case True
      with Cons.prems Some have "best_of better (Some c) cs = Some w" by simp
      from Cons.IH [OF this] Some True asym [OF True] negative_trans show ?thesis by auto
    next
      case False
      with Cons.prems Some have "best_of better (Some b) cs = Some w" by simp
      from Cons.IH [OF this] Some False negative_trans show ?thesis by auto
    qed
  qed
qed

lemma best_of_optimal:
  "best_of better None cs = Some w \<Longrightarrow> w \<in> set cs \<and> (\<forall>c\<in>set cs. \<not> better c w)"
  using best_of_cases [of None cs w] by auto

lemma best_of_Some: "\<exists>w. best_of better (Some b) cs = Some w"
  by (induction cs arbitrary: b) auto

lemma best_of_None_iff: "best_of better None cs = None \<longleftrightarrow> cs = []"
  using best_of_Some by (cases cs) auto

lemma best_of_snoc:
  "best_of better best (cs @ [c]) =
     (case best_of better best cs of
        None \<Rightarrow> Some c
      | Some b \<Rightarrow> if better c b then Some c else Some b)"
  by (induction cs arbitrary: best) auto

text \<open>The loop finds the first candidate that no candidate beats.\<close>

lemma best_of_find:
  "best_of better None cs = find (\<lambda>w. \<forall>c\<in>set cs. \<not> better c w) cs"
proof (induction cs rule: rev_induct)
  case Nil
  then show ?case by simp
next
  case (snoc c cs)
  let ?opt = "\<lambda>cs w. \<forall>d\<in>set cs. \<not> better d w"
  show ?case
  proof (cases "best_of better None cs")
    case None
    then have "cs = []" by (simp add: best_of_None_iff)
    then show ?thesis by (simp add: irrefl)
  next
    case (Some b)
    with snoc have fb: "find (?opt cs) cs = Some b" by simp
    then have b: "b \<in> set cs" "?opt cs b" by (auto dest: find_SomeD)
    show ?thesis
    proof (cases "better c b")
      case True
      have "\<not> ?opt (cs @ [c]) d" if "d \<in> set cs" for d
        using that b True negative_trans by auto
      then have "find (?opt (cs @ [c])) cs = None"
        by (simp add: find_None_iff)
      moreover have "?opt (cs @ [c]) c"
        using b(2) asym [OF True] negative_trans irrefl by auto
      ultimately show ?thesis
        using True by (simp add: best_of_snoc Some find_append)
    next
      case False
      from fb have "find (?opt (cs @ [c])) cs = Some b"
        by (rule find_strengthen) (use b False in auto)
      with False show ?thesis
        by (simp add: best_of_snoc Some find_append)
    qed
  qed
qed

end

subsection \<open>The order of the candidates\<close>

text \<open>
  A candidate's rank: a replica before any other pod, then the larger replication offset,
  then the smaller ordinal. Smaller is better.
\<close>

datatype rank = Rank (rank_replica: bool) (rank_offset: int) (rank_ordinal: int)

instantiation rank :: linorder
begin

fun less_rank :: "rank \<Rightarrow> rank \<Rightarrow> bool" where
  "less_rank (Rank r o1 n) (Rank r' o' n') =
     (r \<and> \<not> r' \<or> r = r' \<and> (o1 > o' \<or> o1 = o' \<and> n < n'))"

definition less_eq_rank :: "rank \<Rightarrow> rank \<Rightarrow> bool" where
  "less_eq_rank a b = (a < b \<or> a = b)"

instance
proof
  show "(x < y) = (x \<le> y \<and> \<not> y \<le> x)" for x y :: rank
    by (cases x; cases y) (auto simp: less_eq_rank_def)
  show "x \<le> x" for x :: rank
    by (simp add: less_eq_rank_def)
  show "x \<le> y \<Longrightarrow> y \<le> z \<Longrightarrow> x \<le> z" for x y z :: rank
    by (cases x; cases y; cases z) (auto simp: less_eq_rank_def)
  show "x \<le> y \<Longrightarrow> y \<le> x \<Longrightarrow> x = y" for x y :: rank
    by (cases x; cases y) (auto simp: less_eq_rank_def)
  show "x \<le> y \<or> y \<le> x" for x y :: rank
    by (cases x; cases y) (auto simp: less_eq_rank_def)
qed

end

definition rank_of :: "master_candidate \<Rightarrow> rank" where
  "rank_of c = Rank (mcIsReplica c) (mcOffset c) (getOrdinal (podName (mcPod c)))"

lemma isBetterCandidate_rank: "isBetterCandidate a b \<longleftrightarrow> rank_of a < rank_of b"
  by (auto simp: isBetterCandidate_def rank_of_def)

interpretation cands: preference isBetterCandidate
  by unfold_locales (auto simp: isBetterCandidate_rank)

subsection \<open>Election over pods that answer\<close>

text \<open>The reference: ask every ready pod, in the order of the list, and collect the answers.\<close>

fun collect_candidates ::
  "(pod \<Rightarrow> bool prog) \<Rightarrow> (pod \<Rightarrow> master_candidate prog) \<Rightarrow> pod list \<Rightarrow> master_candidate list prog" where
  "collect_candidates rdy cand [] = ret []"
| "collect_candidates rdy cand (p # ps) =
     bnd (rdy p) (\<lambda>ready.
     if \<not> ready then collect_candidates rdy cand ps
     else bnd (cand p) (\<lambda>c. bnd (collect_candidates rdy cand ps) (\<lambda>cs. ret (c # cs))))"

definition elect :: "master_candidate list \<Rightarrow> master_candidate option" where
  "elect cs = find (\<lambda>w. \<forall>c\<in>set cs. rank_of w \<le> rank_of c) cs"

lemma bnd_if: "bnd (if b then m else n) k = (if b then bnd m k else bnd n k)"
  by simp

lemma select_loop_collect:
  "select_loop rdy cand best ps =
     bnd (collect_candidates rdy cand ps) (\<lambda>cs. ret (best_of isBetterCandidate best cs))"
proof (induction ps arbitrary: best)
  case Nil
  then show ?case by simp
next
  case (Cons p ps)
  show ?case
    unfolding select_loop.simps collect_candidates.simps Cons.IH bnd_assoc bnd_if bnd_ret
      best_of.simps ..
qed

lemma best_of_elect: "best_of isBetterCandidate None cs = elect cs"
  by (simp add: cands.best_of_find elect_def isBetterCandidate_rank not_less)

text \<open>The elected candidate is the first one of the least rank.\<close>

lemma elect_Some_iff:
  "elect cs = Some w \<longleftrightarrow>
     (\<exists>xs ys. cs = xs @ w # ys \<and> (\<forall>c\<in>set xs. rank_of w < rank_of c) \<and>
        (\<forall>c\<in>set ys. rank_of w \<le> rank_of c))"
  (is "?l \<longleftrightarrow> ?r")
proof
  assume ?l
  then obtain xs ys where cs: "cs = xs @ w # ys" and w: "\<forall>c\<in>set cs. rank_of w \<le> rank_of c"
    and xs: "\<forall>x\<in>set xs. \<not> (\<forall>c\<in>set cs. rank_of x \<le> rank_of c)"
    unfolding elect_def find_Some_split by blast
  have "rank_of w < rank_of x" if "x \<in> set xs" for x
  proof (rule ccontr)
    assume "\<not> rank_of w < rank_of x"
    with w have "\<forall>c\<in>set cs. rank_of x \<le> rank_of c" by (meson not_less order_trans)
    with xs that show False by blast
  qed
  with cs w show ?r by auto
next
  assume ?r
  then obtain xs ys where cs: "cs = xs @ w # ys" and xs: "\<forall>c\<in>set xs. rank_of w < rank_of c"
    and ys: "\<forall>c\<in>set ys. rank_of w \<le> rank_of c" by blast
  have "\<forall>x\<in>set xs. \<not> (\<forall>c\<in>set cs. rank_of x \<le> rank_of c)"
    using cs xs by (meson in_set_conv_decomp not_less)
  moreover have "\<forall>c\<in>set cs. rank_of w \<le> rank_of c"
    using cs xs ys by auto
  ultimately show ?l
    unfolding elect_def find_Some_split using cs by blast
qed

lemma elect_None_iff: "elect cs = None \<longleftrightarrow> cs = []"
  by (metis best_of_elect cands.best_of_None_iff)

lemma elect_in: "elect cs = Some w \<Longrightarrow> w \<in> set cs \<and> (\<forall>c\<in>set cs. rank_of w \<le> rank_of c)"
  by (auto simp: elect_def dest: find_SomeD)

lemma elect_unique:
  assumes "set cs = set cs'" and "inj_on rank_of (set cs)"
  shows "elect cs = elect cs'"
proof (cases "elect cs")
  case None
  with assms(1) show ?thesis by (auto simp: elect_None_iff)
next
  case (Some w)
  then have "cs \<noteq> []" by (auto simp: elect_def)
  with assms(1) obtain w' where w': "elect cs' = Some w'"
    by (metis elect_None_iff option.exhaust set_empty)
  have "rank_of w = rank_of w'"
    using elect_in [OF Some] elect_in [OF w'] assms(1) by (intro antisym) auto
  with assms elect_in [OF Some] elect_in [OF w'] have "w = w'" by (auto dest: inj_onD)
  with Some w' show ?thesis by simp
qed

text \<open>Callbacks that only compute: the election of the unit tests.\<close>

lemma collect_pure:
  "collect_candidates (\<lambda>p. ret (rdy p)) (\<lambda>p. ret (cand p)) ps = ret (map cand (filter rdy ps))"
  by (induction ps) (simp_all)

lemma selectMasterCandidate_collect:
  "selectMasterCandidate pods rdy cand =
     bnd (collect_candidates rdy cand pods) (\<lambda>cs. ret (map_option mcPod (elect cs)))"
  by (simp add: selectMasterCandidate_def select_loop_collect bnd_assoc best_of_elect)

lemma selectMasterCandidate_pure:
  "selectMasterCandidate pods (\<lambda>p. ret (rdy p)) (\<lambda>p. ret (cand p)) =
     ret (map_option mcPod (elect (map cand (filter rdy pods))))"
  by (simp add: selectMasterCandidate_collect collect_pure)

lemma getOrdinal_statefulset_pod:
  assumes "n < 2 ^ 63"
  shows "getOrdinal (name @ ''-'' @ nat_digits n) = int n"
proof -
  have "parse_int64 (nat_digits n) = Some (int n)"
    using parse_int64_itoa [of "int n"] assms by (simp add: itoa_def)
  with last_split_on_append [OF nat_digits_no_sign(1)] show ?thesis
    by (simp add: getOrdinal_def Let_def not_less [symmetric])
qed

subsection \<open>Properties\<close>

text \<open>C7: The election returns the pod of the first candidate of the least rank among the ready
  pods (a replica before any other pod, then the larger replication offset, then the smaller
  ordinal), the same as collecting every candidate first and choosing afterwards, and no pod
  exactly when no pod is ready.\<close>

theorem election_picks_first_best:
  "selectMasterCandidate pods rdy cand =
     bnd (collect_candidates rdy cand pods) (\<lambda>cs. ret (map_option mcPod (elect cs))) \<and>
   (elect cs = Some w \<longleftrightarrow>
     (\<exists>xs ys. cs = xs @ w # ys \<and> list_all (\<lambda>c. rank_of w < rank_of c) xs \<and>
        list_all (\<lambda>c. rank_of w \<le> rank_of c) ys)) \<and>
   (elect cs = None \<longleftrightarrow> cs = [])"
  by (simp add: selectMasterCandidate_collect elect_Some_iff elect_None_iff list_all_iff)

text \<open>C23: When no two ready candidates share a rank, the elected pod does not depend on the order in
  which the API server lists the pods, so concurrent reconciliations agree on it.\<close>

theorem election_order_independent:
  assumes "set pods = set pods'" and "inj_on (\<lambda>p. rank_of (cand p)) (set (filter rdy pods))"
  shows "selectMasterCandidate pods (\<lambda>p. ret (rdy p)) (\<lambda>p. ret (cand p)) =
    selectMasterCandidate pods' (\<lambda>p. ret (rdy p)) (\<lambda>p. ret (cand p))"
proof -
  have "inj_on rank_of (set (map cand (filter rdy pods)))"
    using assms(2) by (auto simp: inj_on_def)
  moreover have "set (map cand (filter rdy pods)) = set (map cand (filter rdy pods'))"
    using assms(1) by auto
  ultimately have "elect (map cand (filter rdy pods)) = elect (map cand (filter rdy pods'))"
    by (intro elect_unique)
  then show ?thesis
    by (simp add: selectMasterCandidate_pure)
qed

definition sample_candidate :: "pod \<Rightarrow> master_candidate" where
  "sample_candidate p = \<lparr>mcPod = p, mcIsReplica = isReplica p, mcOffset = 0\<rparr>"

lemma sample_roles [simp]:
  "isReplica sample_replica" "\<not> isReplica sample_master" "isMaster sample_master"
  "\<not> isMaster sample_replica" "roleExists sample_master" "roleExists sample_replica"
  by (simp_all add: sample_pods pod_simps)

lemma election_order_independent_witness:
  "selectMasterCandidate [sample_master, sample_replica] (\<lambda>p. ret True) (\<lambda>p. ret (sample_candidate p)) =
     selectMasterCandidate [sample_replica, sample_master] (\<lambda>p. ret True) (\<lambda>p. ret (sample_candidate p)) \<and>
   selectMasterCandidate [sample_master, sample_replica] (\<lambda>p. ret True) (\<lambda>p. ret (sample_candidate p)) =
     ret (Some sample_replica)"
proof
  have "rank_of (sample_candidate sample_replica) \<noteq> rank_of (sample_candidate sample_master)"
    by (simp add: rank_of_def sample_candidate_def)
  then show "selectMasterCandidate [sample_master, sample_replica] (\<lambda>p. ret True) (\<lambda>p. ret (sample_candidate p)) =
     selectMasterCandidate [sample_replica, sample_master] (\<lambda>p. ret True) (\<lambda>p. ret (sample_candidate p))"
    by (intro election_order_independent [where rdy = "\<lambda>p. True"]) (auto simp: inj_on_def)
  show "selectMasterCandidate [sample_master, sample_replica] (\<lambda>p. ret True) (\<lambda>p. ret (sample_candidate p)) =
     ret (Some sample_replica)"
    by (simp add: selectMasterCandidate_def isBetterCandidate_def sample_candidate_def)
qed

text \<open>C35: The ordinal of a pod of a StatefulSet is read back from its name, whatever dashes the
  name of the StatefulSet holds.\<close>

theorem ordinal_of_statefulset_pod:
  assumes "n < 2 ^ 63"
  shows "getOrdinal (name @ ''-'' @ itoa (int n)) = int n"
  using getOrdinal_statefulset_pod [OF assms, of name] by (simp add: itoa_def)

lemma ordinal_of_statefulset_pod_witness:
  "(17::nat) < 2 ^ 63 \<and> getOrdinal (''my-df'' @ ''-'' @ itoa (int 17)) = 17"
  using ordinal_of_statefulset_pod [of 17 "''my-df''"] by simp

end
