(* ===== verification/Redis_Info.thy ===== *)
theory Redis_Info
  imports Const
begin

section \<open>Replies of the INFO command\<close>

text \<open>
  The parsers that \<^verbatim>\<open>internal/controller/dragonfly_instance.go\<close> applies to the text of
  \<^verbatim>\<open>INFO replication\<close> and \<^verbatim>\<open>INFO persistence\<close>: \<^verbatim>\<open>parseInfoToMap\<close>, and the two scans of
  \<^verbatim>\<open>checkReplicaRole\<close> and \<^verbatim>\<open>getRedisRole\<close>, which split lines at every colon.
\<close>

subsection \<open>parseInfoToMap\<close>

definition parse_info_line :: "string \<Rightarrow> (string \<times> string) option" where
  "parse_info_line raw =
     (let line = trim_space raw
      in if line = '''' \<or> has_prefix line ''#'' then None
         else case split_n2 CHR '':'' line of
                [k, v] \<Rightarrow> Some (trim_space k, trim_space (trim_suffix v [cr]))
              | _ \<Rightarrow> None)"

fun parse_info_lines :: "(string \<Rightarrow> string option) \<Rightarrow> string list \<Rightarrow> (string \<Rightarrow> string option)" where
  "parse_info_lines data [] = data"
| "parse_info_lines data (line # lines) =
     parse_info_lines
       (case parse_info_line line of None \<Rightarrow> data | Some (k, v) \<Rightarrow> data(k \<mapsto> v)) lines"

definition parseInfoToMap :: "string \<Rightarrow> (string \<Rightarrow> string option)" where
  "parseInfoToMap info = parse_info_lines Map.empty (split_on newline info)"

subsection \<open>Scans for one field\<close>

text \<open>\<open>strings.Trim(strings.Split(line, ":")[1], "\r")\<close>: \<open>None\<close> is the index panic.\<close>

definition line_field :: "string \<Rightarrow> string option" where
  "line_field line =
     (case split_on CHR '':'' line of
        _ # v # _ \<Rightarrow> Some (trim_chars v [cr])
      | _ \<Rightarrow> None)"

text \<open>The loop of \<^verbatim>\<open>checkReplicaRole\<close>: the field of the last line that mentions the key.\<close>

fun scan_lines :: "string \<Rightarrow> string \<Rightarrow> string list \<Rightarrow> string option" where
  "scan_lines key acc [] = Some acc"
| "scan_lines key acc (line # lines) =
     (if contains_str line key then
        (case line_field line of None \<Rightarrow> None | Some v \<Rightarrow> scan_lines key v lines)
      else scan_lines key acc lines)"

subsection \<open>The text of a reply and its meaning\<close>

text \<open>
  A reply is a header line and \<open>key:value\<close> lines, each ended by \<^verbatim>\<open>\r\n\<close>. A field is
  printable when its key and its value hold no line break and are trimmed, and the key
  holds no colon and does not look like a header.
\<close>

fun render_info :: "(string \<times> string) list \<Rightarrow> string" where
  "render_info [] = []"
| "render_info ((k, v) # kvs) = k @ CHR '':'' # v @ cr # newline # render_info kvs"

definition trimmed :: "string \<Rightarrow> bool" where
  "trimmed s = (s = '''' \<or> (\<not> is_space (hd s) \<and> \<not> is_space (last s)))"

definition printable_field :: "string \<times> string \<Rightarrow> bool" where
  "printable_field kv =
     (case kv of (k, v) \<Rightarrow>
        k \<noteq> '''' \<and> trimmed k \<and> trimmed v \<and> newline \<notin> set k \<and> newline \<notin> set v \<and>
        CHR '':'' \<notin> set k \<and> hd k \<noteq> CHR ''#'')"

lemma trim_space_trimmed: "trimmed s \<Longrightarrow> trim_space s = s"
  by (auto simp: trimmed_def trim_space_def intro: trim_by_idle)

lemma trim_space_cr: "trimmed s \<Longrightarrow> trim_space (s @ [cr]) = s"
proof (cases "s = ''''")
  case True
  then show ?thesis by (simp add: trim_space_def trim_by_def is_space_def)
next
  case False
  assume "trimmed s"
  with False have "\<not> is_space (hd s)" "\<not> is_space (last s)" by (auto simp: trimmed_def)
  with False show ?thesis
    by (simp add: trim_space_def trim_by_def dropWhile_hd is_space_def hd_rev)
qed

lemma not_space_marks [simp]: "\<not> is_space CHR '':''" "\<not> is_space CHR ''#''"
  by (simp_all add: is_space_def)

lemma trimmed_no_cr_suffix: "trimmed v \<Longrightarrow> trim_suffix v [cr] = v"
  by (cases v rule: rev_cases)
     (auto simp: trim_suffix_def has_prefix_def trimmed_def is_space_def)

lemma dropWhile_snoc_stop: "\<not> P c \<Longrightarrow> dropWhile P (ys @ [c]) = dropWhile P ys @ [c]"
  by (induction ys) auto

lemma trim_space_keeps_first: "\<not> is_space c \<Longrightarrow> \<exists>r. trim_space (c # xs) = c # r"
  by (simp add: trim_space_def trim_by_def dropWhile_snoc_stop)

lemma parse_info_line_header: "parse_info_line (CHR ''#'' # xs) = None"
  using trim_space_keeps_first [of "CHR ''#''" xs] by (auto simp: parse_info_line_def has_prefix_def)

lemma parse_info_line_field:
  assumes "printable_field (k, v)"
  shows "parse_info_line (k @ CHR '':'' # v @ [cr]) = Some (k, v)"
proof -
  have tk: "trimmed k" "k \<noteq> ''''" "CHR '':'' \<notin> set k" "hd k \<noteq> CHR ''#''" and tv: "trimmed v"
    using assms by (auto simp: printable_field_def)
  have "trimmed (k @ CHR '':'' # v)"
    using tk tv by (auto simp: trimmed_def)
  then have line: "trim_space (k @ CHR '':'' # v @ [cr]) = k @ CHR '':'' # v"
    using trim_space_cr [of "k @ CHR '':'' # v"] by simp
  have free: "\<forall>x\<in>set k. x \<noteq> CHR '':''" using tk(3) by auto
  have "split_n2 CHR '':'' (k @ CHR '':'' # v) = [k, v]"
    using takeWhile_append_stop [OF free, of "CHR '':''" v] dropWhile_append_stop [OF free, of "CHR '':''" v]
    by (simp add: split_n2_def)
  moreover have "\<not> has_prefix (k @ CHR '':'' # v) ''#''"
    using tk by (cases k) (auto simp: has_prefix_def)
  ultimately show ?thesis
    using tk tv by (simp add: parse_info_line_def line trim_space_trimmed trimmed_no_cr_suffix)
qed

lemma parse_info_lines_render:
  assumes "\<forall>kv\<in>set kvs. printable_field kv"
  shows "parse_info_lines data (split_on newline (render_info kvs)) = data ++ map_of (rev kvs)"
  using assms
proof (induction kvs arbitrary: data rule: render_info.induct)
  case 1
  then show ?case by (simp add: parse_info_line_def trim_space_def trim_by_def)
next
  case (2 k v kvs)
  then have kv: "printable_field (k, v)" by simp
  then have "newline \<notin> set (k @ CHR '':'' # v @ [cr])" by (auto simp: printable_field_def)
  from split_on_append_sep [OF this, of "render_info kvs"]
  have "split_on newline (render_info ((k, v) # kvs)) =
    (k @ CHR '':'' # v @ [cr]) # split_on newline (render_info kvs)" by simp
  then have "parse_info_lines data (split_on newline (render_info ((k, v) # kvs))) =
    parse_info_lines (data(k \<mapsto> v)) (split_on newline (render_info kvs))"
    by (simp only: parse_info_lines.simps parse_info_line_field [OF kv] option.case prod.case)
  also have "\<dots> = data ++ map_of (rev ((k, v) # kvs))"
    using 2 by (auto simp: map_add_def fun_eq_iff split: option.splits)
  finally show ?case .
qed

text \<open>The parser reads back what the data store prints; the last line of a key counts.\<close>

lemma parseInfoToMap_render_fields:
  assumes "newline \<notin> set header" and "\<forall>kv\<in>set kvs. printable_field kv"
  shows "parseInfoToMap (''# '' @ header @ cr # newline # render_info kvs) = map_of (rev kvs)"
proof -
  have "newline \<notin> set (''# '' @ header @ [cr])" using assms(1) by simp
  from split_on_append_sep [OF this, of "render_info kvs"]
  have "split_on newline (''# '' @ header @ cr # newline # render_info kvs) =
    (''# '' @ header @ [cr]) # split_on newline (render_info kvs)" by simp
  then show ?thesis
    using parse_info_lines_render [OF assms(2), of Map.empty]
    by (simp add: parseInfoToMap_def parse_info_line_header)
qed

subsection \<open>The two readings of the role line\<close>

lemma line_field_None_iff: "line_field line = None \<longleftrightarrow> CHR '':'' \<notin> set line"
proof -
  have "length (split_on c s) = 1 \<longleftrightarrow> c \<notin> set s" for c and s :: string
    by (induction s) (auto split: list.splits)
  from this [of "CHR '':''" line] show ?thesis
    by (cases "split_on CHR '':'' line") (auto simp: line_field_def split: list.splits)
qed

text \<open>The scan panics exactly when a line that mentions the key holds no colon.\<close>

lemma scan_lines_None_iff:
  "scan_lines key acc lines = None \<longleftrightarrow>
     (\<exists>line\<in>set lines. contains_str line key \<and> CHR '':'' \<notin> set line)"
  by (induction lines arbitrary: acc) (auto simp: line_field_None_iff [symmetric] split: option.splits)

text \<open>What the scan finds in a printed reply that mentions the key nowhere else: the value of the
  last line of that key, up to its first colon.\<close>

definition reply_line :: "string \<times> string \<Rightarrow> string" where
  "reply_line kv = fst kv @ CHR '':'' # snd kv @ [cr]"

lemma split_render_info:
  "list_all printable_field kvs \<Longrightarrow> split_on newline (render_info kvs) = map reply_line kvs @ ['''']"
proof (induction kvs rule: render_info.induct)
  case (2 k v kvs)
  then have "newline \<notin> set (reply_line (k, v))" by (auto simp: reply_line_def printable_field_def)
  from split_on_append_sep [OF this, of "render_info kvs"] 2 show ?case by (simp add: reply_line_def)
qed simp

lemma split_on_first: "\<exists>rest. split_on c s = takeWhile (\<lambda>x. x \<noteq> c) s # rest"
  by (induction s) (auto split: list.split)

lemma line_field_reply:
  assumes "CHR '':'' \<notin> set k" and "cr \<notin> set v"
  shows "line_field (reply_line (k, v)) = Some (takeWhile (\<lambda>c. c \<noteq> CHR '':'') v)"
proof -
  have idle: "trim_chars w [cr] = w" if "cr \<notin> set w" for w
    unfolding trim_chars_def by (rule trim_by_idle) (use that in \<open>auto dest: hd_in_set last_in_set\<close>)
  have "trim_chars (takeWhile (\<lambda>c. c \<noteq> CHR '':'') (v @ [cr])) [cr] = takeWhile (\<lambda>c. c \<noteq> CHR '':'') v"
  proof (cases "CHR '':'' \<in> set v")
    case True
    then show ?thesis using assms(2) by (auto simp: takeWhile_append1 intro!: idle dest: set_takeWhileD)
  next
    case False
    then have "takeWhile (\<lambda>c. c \<noteq> CHR '':'') (v @ [cr]) = v @ [cr]"
      by (intro takeWhile_eq_all_conv [THEN iffD2]) auto
    moreover have "trim_chars (v @ [cr]) [cr] = v"
      using idle [OF assms(2)] assms(2) by (cases v) (auto simp: trim_chars_def trim_by_def)
    moreover have "takeWhile (\<lambda>c. c \<noteq> CHR '':'') v = v"
      using False by (intro takeWhile_eq_all_conv [THEN iffD2]) auto
    ultimately show ?thesis by (simp only:)
  qed
  moreover obtain rest where
    "split_on CHR '':'' (v @ [cr]) = takeWhile (\<lambda>c. c \<noteq> CHR '':'') (v @ [cr]) # rest"
    using split_on_first by blast
  ultimately show ?thesis
    using split_on_append_sep [OF assms(1), of "v @ [cr]"] by (simp add: line_field_def reply_line_def)
qed

definition mentions_only_as_key :: "string \<Rightarrow> string \<times> string \<Rightarrow> bool" where
  "mentions_only_as_key key kv \<longleftrightarrow> (sublist key (reply_line kv) \<longrightarrow> fst kv = key)"

lemma scan_reply_lines:
  assumes "list_all printable_field kvs" and "list_all (mentions_only_as_key key) kvs"
    and "list_all (\<lambda>kv. cr \<notin> set (snd kv)) kvs" and "key \<noteq> ''''"
  shows "scan_lines key acc (map reply_line kvs @ ['''']) =
    Some (case map_of (rev kvs) key of None \<Rightarrow> acc | Some v \<Rightarrow> takeWhile (\<lambda>c. c \<noteq> CHR '':'') v)"
  using assms
proof (induction kvs arbitrary: acc)
  case (Cons kv kvs)
  obtain k v where kv: "kv = (k, v)" by (cases kv)
  have "sublist key (reply_line (key, v))" by (simp add: reply_line_def sublist_append)
  with Cons.prems(2) have "contains_str (reply_line kv) key \<longleftrightarrow> k = key"
    by (auto simp: kv contains_str_iff mentions_only_as_key_def)
  moreover have "line_field (reply_line kv) = Some (takeWhile (\<lambda>c. c \<noteq> CHR '':'') v)"
    unfolding kv using Cons.prems by (intro line_field_reply) (simp_all add: kv printable_field_def)
  ultimately show ?case
    using Cons.IH Cons.prems by (auto simp: kv map_add_def split: option.split)
qed (simp add: contains_str_iff)

lemma scan_reply:
  assumes "newline \<notin> set header" and "\<not> sublist key (''# '' @ header @ [cr])"
    and "list_all printable_field kvs" and "list_all (mentions_only_as_key key) kvs"
    and "list_all (\<lambda>kv. cr \<notin> set (snd kv)) kvs" and "key \<noteq> ''''"
  shows "scan_lines key acc (split_on newline (''# '' @ header @ cr # newline # render_info kvs)) =
    Some (case map_of (rev kvs) key of None \<Rightarrow> acc | Some v \<Rightarrow> takeWhile (\<lambda>c. c \<noteq> CHR '':'') v)"
proof -
  have "newline \<notin> set (''# '' @ header @ [cr])" using assms(1) by simp
  from split_on_append_sep [OF this, of "render_info kvs"]
  have "split_on newline (''# '' @ header @ cr # newline # render_info kvs) =
    (''# '' @ header @ [cr]) # map reply_line kvs @ ['''']"
    using split_render_info [OF assms(3)] by simp
  with assms(2) scan_reply_lines [OF assms(3-6)] show ?thesis
    by (simp add: contains_str_iff del: contains_str.simps)
qed

subsection \<open>Properties\<close>

text \<open>C34: The parser of the INFO command reads back the fields the data store prints (a header line
  and key:value lines ended by CR LF): the value of a key is the one of its last line.\<close>

theorem info_reply_read_back:
  assumes "newline \<notin> set header" and "list_all printable_field kvs"
  shows "parseInfoToMap (''# '' @ header @ cr # newline # render_info kvs) = map_of (rev kvs)"
  using parseInfoToMap_render_fields [of header kvs] assms by (simp add: list_all_iff)

lemma info_reply_read_back_witness:
  "list_all printable_field [(''loading'', ''0''), (''load_state'', ''done'')] \<and>
   parseInfoToMap (''# '' @ ''Persistence'' @ cr # newline #
     render_info [(''loading'', ''0''), (''load_state'', ''done'')]) ''load_state'' = Some ''done''"
proof -
  have "list_all printable_field [(''loading'', ''0''), (''load_state'', ''done'')]"
    by (simp add: printable_field_def trimmed_def is_space_def)
  then show ?thesis
    using info_reply_read_back [of "''Persistence''" "[(''loading'', ''0''), (''load_state'', ''done'')]"]
    by simp
qed

end
