(* ===== verification/Contracts.thy ===== *)
theory Contracts
  imports Effects
begin

section \<open>Step contracts\<close>

text \<open>
  Most safety properties of the operator say that whatever the environment answers, the
  state after a method is related to the state before it: the history only grows, only
  by calls of a certain kind, only with certain calls ahead of certain others, or with a
  field left alone. Such a relation is reflexive and transitive, and then a program keeps
  it when its parts do. The locale \<open>step_contract\<close> proves that once, for every
  combinator; its extensions give the relation from a predicate on the calls made.
\<close>

definition keeps :: "(op_state \<Rightarrow> op_state \<Rightarrow> bool) \<Rightarrow> 'a prog \<Rightarrow> bool" where
  "keeps R m \<longleftrightarrow> (\<forall>s. R s (snd (m s)))"

lemma keepsD: "keeps R m \<Longrightarrow> m s = (r, t) \<Longrightarrow> R s t"
  unfolding keeps_def by (metis snd_conv)

lemma keepsI: "(\<And>s r t. m s = (r, t) \<Longrightarrow> R s t) \<Longrightarrow> keeps R m"
  unfolding keeps_def by (metis prod.collapse)

subsection \<open>Rules for the case distinctions of HOL\<close>

lemma keeps_if [keeps_intro]:
  "(b \<Longrightarrow> keeps R m) \<Longrightarrow> (\<not> b \<Longrightarrow> keeps R k) \<Longrightarrow> keeps R (if b then m else k)"
  by simp

lemma keeps_case_option [keeps_intro]:
  "(x = None \<Longrightarrow> keeps R m) \<Longrightarrow> (\<And>a. x = Some a \<Longrightarrow> keeps R (k a)) \<Longrightarrow>
   keeps R (case x of None \<Rightarrow> m | Some a \<Rightarrow> k a)"
  by (cases x) auto

lemma keeps_case_sum [keeps_intro]:
  "(\<And>a. x = Inl a \<Longrightarrow> keeps R (m a)) \<Longrightarrow> (\<And>b. x = Inr b \<Longrightarrow> keeps R (k b)) \<Longrightarrow>
   keeps R (case x of Inl a \<Rightarrow> m a | Inr b \<Rightarrow> k b)"
  by (cases x) auto

lemma keeps_case_list [keeps_intro]:
  "(x = [] \<Longrightarrow> keeps R m) \<Longrightarrow> (\<And>a as. x = a # as \<Longrightarrow> keeps R (k a as)) \<Longrightarrow>
   keeps R (case x of [] \<Rightarrow> m | a # as \<Rightarrow> k a as)"
  by (cases x) auto

lemma keeps_case_prod [keeps_intro]:
  "(\<And>a b. x = (a, b) \<Longrightarrow> keeps R (k a b)) \<Longrightarrow> keeps R (case x of (a, b) \<Rightarrow> k a b)"
  by (cases x) auto

lemma keeps_let [keeps_intro]: "keeps R (f x) \<Longrightarrow> keeps R (Let x f)"
  by simp

subsection \<open>The contract locale\<close>

locale step_contract =
  fixes R :: "op_state \<Rightarrow> op_state \<Rightarrow> bool"
  assumes refl: "R s s"
    and trans: "R s t \<Longrightarrow> R t u \<Longrightarrow> R s u"
begin

lemma ret_ok [keeps_intro]: "keeps R (ret x)"
  by (simp add: keeps_def ret_def refl)

lemma fail_ok [keeps_intro]: "keeps R (fail e)"
  by (simp add: keeps_def fail_def refl)

lemma panic_ok [keeps_intro]: "keeps R panic"
  by (simp add: keeps_def panic_def refl)

lemma get_df_ok [keeps_intro]: "keeps R get_df"
  by (simp add: keeps_def get_df_def refl)

lemma bnd_ok [keeps_intro]:
  assumes "keeps R m" and "\<And>x. keeps R (k x)"
  shows "keeps R (bnd m k)"
proof (rule keepsI)
  fix s r t
  assume run: "bnd m k s = (r, t)"
  obtain q u where m: "m s = (q, u)" by fastforce
  with assms(1) have "R s u" by (rule keepsD)
  moreover have "R u t"
  proof (cases q)
    case (Ok x)
    with run m have "k x u = (r, t)" by (simp add: bnd_def)
    with assms(2) [of x] show ?thesis by (rule keepsD)
  qed (use run m in \<open>auto simp: bnd_def intro: refl\<close>)
  ultimately show "R s t" by (rule trans)
qed

lemma attempt_ok [keeps_intro]: "keeps R m \<Longrightarrow> keeps R (attempt m)"
  unfolding keeps_def attempt_def by (auto split: prod.splits result.splits) (metis snd_conv)+

lemma map_error_ok [keeps_intro]: "keeps R m \<Longrightarrow> keeps R (map_error f m)"
  unfolding keeps_def map_error_def by (auto split: prod.splits result.splits) (metis snd_conv)+

lemma only_if_ok [keeps_intro]: "(b \<Longrightarrow> keeps R m) \<Longrightarrow> keeps R (only_if b m)"
  by (cases b) (auto simp: only_if_def ret_ok)

lemma for_each_ok [keeps_intro]:
  "(\<And>x. x \<in> set xs \<Longrightarrow> keeps R (f x)) \<Longrightarrow> keeps R (for_each f xs)"
  by (induction xs) (auto intro!: ret_ok bnd_ok)

lemma for_until_ok [keeps_intro]:
  "(\<And>x. x \<in> set xs \<Longrightarrow> keeps R (f x)) \<Longrightarrow> keeps R (for_until f xs)"
  by (induction xs) (auto intro!: ret_ok bnd_ok keeps_case_option)

text \<open>A loop that ends well has run its body on every element, each run between two related states.\<close>

lemma for_each_Ok:
  assumes "\<And>x. keeps R (f x)" and "for_each f xs s = (Ok (), t)" and "x \<in> set xs"
  shows "\<exists>u v. R s u \<and> f x u = (Ok (), v) \<and> R v t"
  using assms(2,3)
proof (induction xs arbitrary: s)
  case (Cons y ys)
  from Cons.prems(1) obtain u where u: "f y s = (Ok (), u)" and rest: "for_each f ys u = (Ok (), t)"
    by (auto elim: bnd_OkE)
  show ?case
  proof (cases "x = y")
    case True
    moreover have "R u t"
      by (rule keepsD [OF for_each_ok rest]) (rule assms(1))
    ultimately show ?thesis using u refl by blast
  next
    case False
    with Cons.prems(2) Cons.IH [OF rest] obtain v w where "R u v" "f x v = (Ok (), w)" "R w t" by auto
    with keepsD [OF assms(1) u] trans show ?thesis by blast
  qed
qed simp

end

subsection \<open>Contracts on the calls a program adds\<close>

definition emits :: "(call list \<Rightarrow> bool) \<Rightarrow> op_state \<Rightarrow> op_state \<Rightarrow> bool" where
  "emits P s t \<longleftrightarrow> (\<exists>cs. history t = history s @ cs \<and> P cs)"

locale trace_contract =
  fixes P :: "call list \<Rightarrow> bool"
  assumes nil: "P []"
    and append: "P xs \<Longrightarrow> P ys \<Longrightarrow> P (xs @ ys)"
begin

lemma set_df_ok [keeps_intro]: "keeps (emits P) (set_df d)"
  by (simp add: keeps_def set_df_def emits_def nil)

lemma perform_ok: "(\<And>r. P [call_of r]) \<Longrightarrow> keeps (emits P) (perform ask call_of)"
  by (simp add: keeps_def perform_def emits_def)

lemma record_event_ok: "P [Record_event ty reason msg] \<Longrightarrow> keeps (emits P) (record_event ty reason msg)"
  by (simp add: keeps_def record_event_def emits_def)

lemma read_clock_ok: "(\<And>t. P [Read_clock t]) \<Longrightarrow> keeps (emits P) (read_clock E)"
  by (simp add: keeps_def read_clock_def emits_def)

end

sublocale trace_contract \<subseteq> step_contract "emits P"
proof unfold_locales
  show "emits P s s" for s
    by (simp add: emits_def nil)
  show "emits P s u" if "emits P s t" and "emits P t u" for s t u
    using that append by (force simp: emits_def)
qed

text \<open>The calls added all satisfy a predicate.\<close>

locale call_contract =
  fixes Q :: "call \<Rightarrow> bool"

sublocale call_contract \<subseteq> trace_contract "list_all Q"
  by unfold_locales simp_all

context call_contract
begin

lemma call_ok: "(\<And>r. Q (call_of r)) \<Longrightarrow> keeps (emits (list_all Q)) (perform ask call_of)"
  by (rule perform_ok) simp

lemma no_change_weaken:
  "keeps (emits (list_all Q')) m \<Longrightarrow> (\<And>c. Q' c \<Longrightarrow> Q c) \<Longrightarrow> keeps (emits (list_all Q)) m"
  unfolding keeps_def emits_def by (metis list.pred_mono_strong)

end

end
