(* ===== verification/Instance_Query.thy ===== *)
theory Instance_Query
  imports Election Redis_Info Contracts
begin

section \<open>The instance: its Redis clients and its queries\<close>

text \<open>
  The methods of \<^verbatim>\<open>DragonflyInstance\<close> that look at the cluster without changing it
  (\<^verbatim>\<open>internal/controller/dragonfly_instance.go\<close>), the cache of Redis clients, and
  \<^verbatim>\<open>patchStatus\<close>. The receiver's fields \<^verbatim>\<open>df\<close> and \<^verbatim>\<open>redisClients\<close> are in the state, its
  \<^verbatim>\<open>client\<close> is the environment.
\<close>

subsection \<open>The cache of Redis clients\<close>

definition newRedisClient :: "string \<Rightarrow> redis_client" where
  "newRedisClient ip =
     \<lparr>rcClientName = DragonflyOperatorName,
      rcAddr = join_host_port ip (itoa DragonflyAdminPort),
      rcDialTimeout = 10 * second,
      rcReadTimeout = dragonflyReadTimeout,
      rcWriteTimeout = 10 * second,
      rcMaxRetries = -1,
      rcDialerRetries = 1,
      rcMaintNotificationsDisabled = True\<rparr>"

definition getRedisClient :: "string \<Rightarrow> redis_client prog" where
  "getRedisClient ip = (\<lambda>s.
     let clients = go_make_if_nil (redisClients s)
     in case go_lookup clients ip of
          Some c \<Rightarrow> (Ok c, s\<lparr>redisClients := clients\<rparr>)
        | None \<Rightarrow>
            (case go_store clients ip (newRedisClient ip) of
               Some clients' \<Rightarrow> (Ok (newRedisClient ip), s\<lparr>redisClients := clients'\<rparr>)
             | None \<Rightarrow> (Panic, s\<lparr>redisClients := clients\<rparr>)))"

text \<open>\<^verbatim>\<open>Close\<close>: closing a client is an I/O effect the model leaves out, dropping the cache is not.\<close>

definition Close :: "unit prog" where
  "Close = (\<lambda>s. (Ok (), s\<lparr>redisClients := Nil_map\<rparr>))"

subsection \<open>Status of the custom resource\<close>

definition getStatus :: "dragonfly_status prog" where
  "getStatus = bnd get_df (\<lambda>d. ret (dfStatus d))"

definition isInstanceTerminating :: "bool prog" where
  "isInstanceTerminating = bnd get_df (\<lambda>d. ret (dfDeletionTimestamp d \<noteq> None))"

definition patchStatus :: "env \<Rightarrow> dragonfly_status \<Rightarrow> unit prog" where
  "patchStatus E status =
     bnd get_df (\<lambda>old.
     bnd (set_df (old\<lparr>dfStatus := status\<rparr>)) (\<lambda>_.
     bnd (patch_dragonfly_status E old (old\<lparr>dfStatus := status\<rparr>)) (\<lambda>new.
     set_df new)))"

subsection \<open>Listing pods\<close>

definition instance_labels :: "dragonfly \<Rightarrow> selector" where
  "instance_labels d =
     [(DragonflyNameLabelKey, dfName d),
      (KubernetesPartOfLabelKey, KubernetesPartOf),
      (KubernetesAppNameLabelKey, KubernetesAppName)]"

definition getStatefulSet :: "env \<Rightarrow> statefulset prog" where
  "getStatefulSet E = bnd get_df (\<lambda>d. get_statefulset E (dfNamespace d) (dfName d))"

definition getPods :: "env \<Rightarrow> pod list prog" where
  "getPods E = bnd get_df (\<lambda>d. list_pods E (dfNamespace d) (instance_labels d))"

definition getReplicas :: "env \<Rightarrow> pod list prog" where
  "getReplicas E =
     bnd get_df (\<lambda>d. list_pods E (dfNamespace d) (instance_labels d @ [(RoleLabelKey, Replica)]))"

subsection \<open>Readiness of a pod\<close>

definition field_ok :: "(string \<Rightarrow> string option) \<Rightarrow> string \<Rightarrow> string \<Rightarrow> bool" where
  "field_ok data key wanted =
     (case data key of None \<Rightarrow> True | Some v \<Rightarrow> v = '''' \<or> v = wanted)"

definition isDatasetLoaded :: "env \<Rightarrow> pod \<Rightarrow> bool prog" where
  "isDatasetLoaded E p =
     (if podIP p = '''' then ret False
      else bnd (getRedisClient (podIP p)) (\<lambda>c.
        bnd (redis E c (Info ''persistence'')) (\<lambda>persistenceInfo.
          (let data = parseInfoToMap persistenceInfo in
           if \<not> field_ok data ''loading'' ''0'' then ret False
           else if \<not> field_ok data ''load_state'' ''done'' then ret False
           else ret True))))"

definition isPodReady :: "env \<Rightarrow> pod \<Rightarrow> bool prog" where
  "isPodReady E p =
     (if \<not> isRunningAndReady p \<or> isTerminating p then ret False
      else wrap ''failed to determine dataset load status'' (isDatasetLoaded E p))"

text \<open>The loop that keeps the ready pods.\<close>

fun ready_pods :: "env \<Rightarrow> string \<Rightarrow> pod list \<Rightarrow> pod list prog" where
  "ready_pods E msg [] = ret []"
| "ready_pods E msg (p # ps) =
     bnd (wrap msg (isPodReady E p)) (\<lambda>ready.
     bnd (ready_pods E msg ps) (\<lambda>rest. ret (if ready then p # rest else rest)))"

definition getHealthyPod :: "env \<Rightarrow> pod prog" where
  "getHealthyPod E =
     bnd (wrap ''failed to get dragonfly pods'' (getPods E)) (\<lambda>pods.
     bnd (for_until (\<lambda>p. bnd (wrap ''failed to verify pod readiness'' (isPodReady E p)) (\<lambda>ready.
            ret (if ready then Some p else None))) pods) (\<lambda>found.
     case found of
       Some p \<Rightarrow> ret p
     | None \<Rightarrow> fail (Error_string ''no healthy pod found'')))"

subsection \<open>The master\<close>

definition rolling :: "dragonfly_status \<Rightarrow> bool" where
  "rolling st = (statusPhase st = PhaseRollingUpdate \<or> statusIsRollingUpdate st)"

definition phase_ready :: "dragonfly_status \<Rightarrow> bool" where
  "phase_ready st = (statusPhase st = PhaseReady \<or> statusPhase st = PhaseReadyOld)"

text \<open>
  The listing part: during a rolling update the master of the new revision first, and all
  masters when there is none, or when the phase is (still) ready.
\<close>

definition list_masters :: "env \<Rightarrow> pod list prog" where
  "list_masters E =
     bnd get_df (\<lambda>d.
     let matchingLabels = instance_labels d @ [(RoleLabelKey, Master)] in
     bnd (if rolling (dfStatus d)
          then bnd (wrap ''failed to get statefulset'' (getStatefulSet E)) (\<lambda>sts.
                 wrap ''failed to list pods''
                   (list_pods E (dfNamespace d)
                      (matchingLabels @ [(StatefulSetRevisionLabel, stsUpdateRevision sts)])))
          else ret []) (\<lambda>masterPods.
     if phase_ready (dfStatus d) \<or> masterPods = []
     then wrap ''failed to list pods'' (list_pods E (dfNamespace d) matchingLabels)
     else ret masterPods))"

definition getMaster :: "env \<Rightarrow> pod prog" where
  "getMaster E =
     bnd (list_masters E) (\<lambda>masterPods.
     if masterPods = [] then fail ErrNoMaster
     else bnd (ready_pods E ''failed to verify master readiness'' masterPods) (\<lambda>healthyMasters.
       case healthyMasters of
         [] \<Rightarrow> fail ErrNoHealthyMaster
       | [m] \<Rightarrow> ret m
       | _ \<Rightarrow> fail ErrIncorrectMasters))"

subsection \<open>Roles and replication state in the data store\<close>

definition hasMasterRole :: "env \<Rightarrow> redis_client \<Rightarrow> bool prog" where
  "hasMasterRole E c =
     bnd (redis E c (Info ''replication'')) (\<lambda>replInfo. ret (contains_str replInfo ''role:master''))"

text \<open>\<open>None\<close> of the pure part is the index panic of \<^verbatim>\<open>strings.Split(line, ":")[1]\<close>.\<close>

definition replica_role_ok :: "string \<Rightarrow> pod \<Rightarrow> string \<Rightarrow> bool option" where
  "replica_role_ok resp p masterIp =
     (case scan_lines ''role'' '''' (split_on newline resp) of
        None \<Rightarrow> None
      | Some redisRole \<Rightarrow>
          if redisRole = Master then Some False
          else (case scan_lines ''master_host'' '''' (split_on newline resp) of
                  None \<Rightarrow> None
                | Some redisMasterIp \<Rightarrow>
                    if masterIp \<noteq> redisMasterIp \<and>
                       masterIp \<noteq> go_index (podLabels p) MasterIpLabelKey \<and>
                       masterIp \<noteq> go_index (podAnnotations p) MasterIpAnnotationKey
                    then Some False
                    else Some True))"

definition checkReplicaRole :: "env \<Rightarrow> pod \<Rightarrow> string \<Rightarrow> bool prog" where
  "checkReplicaRole E p masterIp =
     bnd (getRedisClient (podIP p)) (\<lambda>c.
     bnd (redis E c (Info ''replication'')) (\<lambda>resp.
     case replica_role_ok resp p masterIp of
       None \<Rightarrow> panic
     | Some ok \<Rightarrow> ret ok))"

definition isReplicaStable :: "env \<Rightarrow> pod \<Rightarrow> bool prog" where
  "isReplicaStable E p =
     bnd (getRedisClient (podIP p)) (\<lambda>c.
     bnd (redis E c Ping) (\<lambda>_.
     bnd (redis E c (Info ''replication'')) (\<lambda>info.
     if info = '''' then fail (Error_string ''empty info'')
     else
       (let replicationData = parseInfoToMap info in
        if replicationData ''master_sync_in_progress'' = Some ''1'' then ret False
        else if (case replicationData ''master_link_status'' of None \<Rightarrow> False | Some v \<Rightarrow> v \<noteq> ''up'')
        then ret False
        else if replicationData ''master_last_io_seconds_ago'' = Some ''-1'' then ret False
        else bnd (redis E c (Info ''persistence'')) (\<lambda>persistenceInfo.
          (let persistenceData = parseInfoToMap persistenceInfo in
           if \<not> field_ok persistenceData ''loading'' ''0'' then ret False
           else if \<not> field_ok persistenceData ''load_state'' ''done'' then ret False
           else ret True))))))"

definition redis_role :: "string \<Rightarrow> string option" where
  "redis_role resp =
     (case find (\<lambda>line. has_prefix line ''role:'') (split_on newline resp) of
        None \<Rightarrow> None
      | Some line \<Rightarrow> map_option trim_space (line_field line))"

definition getRedisRole :: "env \<Rightarrow> pod \<Rightarrow> string prog" where
  "getRedisRole E p =
     (if podIP p = '''' then fail (Error_string (''pod IP not available for '' @ podName p))
      else bnd (getRedisClient (podIP p)) (\<lambda>c.
        bnd (redis E c (Info ''replication'')) (\<lambda>resp.
        case redis_role resp of
          Some role \<Rightarrow> ret role
        | None \<Rightarrow> fail (Error_string (''role not found in replication info for pod '' @ podName p)))))"

definition getMasterCandidate :: "env \<Rightarrow> pod \<Rightarrow> master_candidate prog" where
  "getMasterCandidate E p =
     (let c = \<lparr>mcPod = p, mcIsReplica = isReplica p, mcOffset = 0\<rparr> in
      if podIP p = '''' then ret c
      else bnd (getRedisClient (podIP p)) (\<lambda>rc.
        bnd (attempt (redis E rc (Info ''replication''))) (\<lambda>answer.
        case answer of
          Inl err \<Rightarrow> ret c
        | Inr info \<Rightarrow>
            (case parseInfoToMap info ''slave_repl_offset'' of
               None \<Rightarrow> ret c
             | Some offsetStr \<Rightarrow>
                 (case parse_int64 offsetStr of
                    None \<Rightarrow> ret c
                  | Some offset \<Rightarrow> ret (c\<lparr>mcOffset := offset\<rparr>))))))"

end
