(* ===== verification/Replication.thy ===== *)
theory Replication
  imports Instance_Query Net_IP
begin

section \<open>Replication: roles in the data store and on the pods\<close>

text \<open>
  The methods of \<^verbatim>\<open>DragonflyInstance\<close> that change roles
  (\<^verbatim>\<open>internal/controller/dragonfly_instance.go\<close>): \<^verbatim>\<open>replicaOf\<close>, \<^verbatim>\<open>replicaOfNoOne\<close>,
  \<^verbatim>\<open>replTakeover\<close>, the readiness condition, \<^verbatim>\<open>configureReplication\<close> and
  \<^verbatim>\<open>checkAndConfigureReplicas\<close>. A method that the source gives a pod pointer returns the
  pod as the last patch left it: the client decodes the server's answer into the object.
\<close>

subsection \<open>The metadata of a role\<close>

text \<open>\<open>None\<close> is the panic of writing a label into a nil map.\<close>

definition mark_replica :: "pod \<Rightarrow> string \<Rightarrow> pod option" where
  "mark_replica p masterIp =
     (case go_store (podLabels p) RoleLabelKey Replica of
        None \<Rightarrow> None
      | Some labels \<Rightarrow>
          (case go_store (go_make_if_nil (podAnnotations p)) MasterIpAnnotationKey masterIp of
             None \<Rightarrow> None
           | Some annotations \<Rightarrow>
               (case (if has_v4_form masterIp then go_store labels MasterIpLabelKey masterIp
                      else Some labels) of
                  None \<Rightarrow> None
                | Some labels' \<Rightarrow> Some (p\<lparr>podLabels := labels', podAnnotations := annotations\<rparr>))))"

definition mark_master :: "pod \<Rightarrow> pod option" where
  "mark_master p =
     (case go_store (podLabels p) RoleLabelKey Master of
        None \<Rightarrow> None
      | Some labels \<Rightarrow>
          (case go_store (go_make_if_nil (podAnnotations p)) MasterIpAnnotationKey (podIP p) of
             None \<Rightarrow> None
           | Some annotations \<Rightarrow>
               Some (p\<lparr>podLabels := go_delete labels MasterIpLabelKey, podAnnotations := annotations\<rparr>)))"

definition patch_marked :: "env \<Rightarrow> pod \<Rightarrow> pod option \<Rightarrow> pod prog" where
  "patch_marked E old marked = (case marked of None \<Rightarrow> panic | Some new \<Rightarrow> patch_pod E old new)"

text \<open>The condition \<open>df.Spec.Snapshot != nil && df.Spec.Snapshot.EnableOnMasterOnly\<close>.\<close>

definition snapshot_on_master_only :: "dragonfly \<Rightarrow> bool" where
  "snapshot_on_master_only d =
     (case specSnapshot (dfSpec d) of None \<Rightarrow> False | Some sn \<Rightarrow> snapEnableOnMasterOnly sn)"

definition snapshot_cron :: "dragonfly \<Rightarrow> string" where
  "snapshot_cron d = (case specSnapshot (dfSpec d) of None \<Rightarrow> '''' | Some sn \<Rightarrow> snapCron sn)"

subsection \<open>Disconnecting the clients of a former master\<close>

definition exempt_client :: "string \<Rightarrow> bool" where
  "exempt_client clientInfo =
     (contains_str clientInfo ''addr=127.0.0.1'' \<or>
      contains_str clientInfo ''addr=::1'' \<or>
      contains_str clientInfo ''addr=[::1]'' \<or>
      contains_str clientInfo ''name=repl_'' \<or>
      contains_str clientInfo ''name=dragonfly-operator'')"

text \<open>The first \<open>addr=\<close> field of a line of the client list.\<close>

definition client_addr :: "string \<Rightarrow> string option" where
  "client_addr clientInfo =
     (case find (\<lambda>part. has_prefix part ''addr='') (split_on CHR '' '' clientInfo) of
        None \<Rightarrow> None
      | Some part \<Rightarrow> Some (trim_prefix part ''addr=''))"

definition disconnect_client :: "env \<Rightarrow> redis_client \<Rightarrow> string \<Rightarrow> unit prog" where
  "disconnect_client E c clientInfo =
     (if clientInfo = '''' then ret ()
      else if exempt_client clientInfo then ret ()
      else case client_addr clientInfo of
             None \<Rightarrow> ret ()
           | Some addr \<Rightarrow> bnd (attempt (redis E c (Client_kill addr))) (\<lambda>_. ret ()))"

definition disconnectClients :: "env \<Rightarrow> redis_client \<Rightarrow> unit prog" where
  "disconnectClients E c =
     bnd (attempt (redis E c Client_list)) (\<lambda>answer.
     case answer of
       Inl err \<Rightarrow> ret ()
     | Inr clientList \<Rightarrow> for_each (disconnect_client E c) (split_on newline clientList))"

subsection \<open>SLAVE OF\<close>

text \<open>\<^verbatim>\<open>replicaOf\<close> up to the patch of the metadata: the role is changed in the data store first.\<close>

definition become_replica :: "env \<Rightarrow> redis_client \<Rightarrow> pod \<Rightarrow> string \<Rightarrow> pod prog" where
  "become_replica E c p masterIp =
     bnd get_df (\<lambda>d.
     bnd (if snapshot_on_master_only d
          then wrap (''failed to clear snapshot_cron on replica '' @ podName p)
                 (redis E c (Config_set ''snapshot_cron'' ''''))
          else ret '''') (\<lambda>_.
     bnd (map_error (\<lambda>err. Error_string (''error running SLAVE OF command: '' @ error_text err))
            (redis E c (Slave_of masterIp (itoa DragonflyAdminPort)))) (\<lambda>resp.
     if resp \<noteq> ''OK''
     then fail (Error_string (''response of `SLAVE OF` on replica is not OK: '' @ resp))
     else wrap ''could not update replica metadata'' (patch_marked E p (mark_replica p masterIp)))))"

definition replicaOf :: "env \<Rightarrow> pod \<Rightarrow> string \<Rightarrow> pod prog" where
  "replicaOf E p masterIp =
     bnd (getRedisClient (podIP p)) (\<lambda>c.
     bnd (wrap ''failed to determine the current role of the instance'' (hasMasterRole E c)) (\<lambda>wasMaster.
     bnd (become_replica E c p (sanitizeIp masterIp)) (\<lambda>p'.
     bnd (only_if wasMaster (disconnectClients E c)) (\<lambda>_.
     ret p'))))"

definition configureReplica :: "env \<Rightarrow> pod \<Rightarrow> string \<Rightarrow> pod prog" where
  "configureReplica E p masterIp = replicaOf E p masterIp"

definition replicaOfNoOne :: "env \<Rightarrow> pod \<Rightarrow> pod prog" where
  "replicaOfNoOne E p =
     bnd (getRedisClient (podIP p)) (\<lambda>c.
     bnd (wrap ''error running SLAVE OF NO ONE command'' (redis E c (Slave_of ''NO'' ''ONE''))) (\<lambda>resp.
     if resp \<noteq> ''OK''
     then fail (Error_string (''response of `SLAVE OF NO ONE` on master is not OK: '' @ resp))
     else
       bnd get_df (\<lambda>d.
       bnd (if snapshot_on_master_only d
            then wrap (''failed to set snapshot_cron on master '' @ podName p)
                   (redis E c (Config_set ''snapshot_cron'' (snapshot_cron d)))
            else ret '''') (\<lambda>_.
       patch_marked E p (mark_master p)))))"

subsection \<open>REPLTAKEOVER\<close>

text \<open>\<^verbatim>\<open>int(replTakeoverTimeout.Seconds())\<close>, printed.\<close>

definition takeover_seconds :: string where
  "takeover_seconds = itoa (replTakeoverTimeout div second)"

fun reply_text :: "reply \<Rightarrow> string" where
  "reply_text (Str_reply s) = s"
| "reply_text (Other_reply s) = s"

definition replTakeover :: "env \<Rightarrow> pod \<Rightarrow> pod \<Rightarrow> pod prog" where
  "replTakeover E newMaster oldMaster =
     bnd (getRedisClient (podIP newMaster)) (\<lambda>c.
     bnd (wrap ''error running REPLTAKEOVER command''
            (redis_do E c [''repltakeover'', takeover_seconds])) (\<lambda>resp.
     if resp \<noteq> Str_reply ''OK''
     then fail (Error_string (''response of `REPLTAKEOVER` on replica is not OK: '' @ reply_text resp))
     else
       bnd get_df (\<lambda>d.
       bnd (if snapshot_on_master_only d
            then wrap (''failed to set snapshot_cron on master '' @ podName newMaster)
                   (redis E c (Config_set ''snapshot_cron'' (snapshot_cron d)))
            else ret '''') (\<lambda>_.
       bnd (wrap ''failed to update the role label on the pod''
              (patch_marked E newMaster (mark_master newMaster))) (\<lambda>newMaster'.
       bnd (wrap ''failed to delete pod'' (delete_pod E oldMaster)) (\<lambda>_.
       ret newMaster'))))))"

subsection \<open>The readiness condition\<close>

definition desired_condition :: "bool \<Rightarrow> string" where
  "desired_condition ready = (if ready then ConditionTrue else ConditionFalse)"

text \<open>The first condition of the type is updated, or a new one appended.\<close>

fun set_condition :: "string \<Rightarrow> string \<Rightarrow> time \<Rightarrow> pod_condition list \<Rightarrow> pod_condition list" where
  "set_condition ty st now [] = [\<lparr>pcType = ty, pcStatus = st, pcLastTransitionTime = now\<rparr>]"
| "set_condition ty st now (c # cs) =
     (if pcType c = ty then c\<lparr>pcStatus := st, pcLastTransitionTime := now\<rparr> # cs
      else c # set_condition ty st now cs)"

definition patchReplicationReadyCondition :: "env \<Rightarrow> pod \<Rightarrow> bool \<Rightarrow> pod prog" where
  "patchReplicationReadyCondition E p ready =
     (if find (\<lambda>c. pcType c = ReplicationReadyConditionType \<and> pcStatus c = desired_condition ready)
           (podConditions p) \<noteq> None
      then ret p
      else
        bnd (read_clock E) (\<lambda>now.
        wrap (''failed to patch replication ready condition on pod '' @ podName p)
          (patch_pod_status E p
             (p\<lparr>podConditions :=
                set_condition ReplicationReadyConditionType (desired_condition ready) now
                  (podConditions p)\<rparr>))))"

text \<open>\<^verbatim>\<open>stable, err := isReplicaStable(...); if err != nil { stable = false }\<close>.\<close>

definition stable_or_false :: "env \<Rightarrow> pod \<Rightarrow> bool prog" where
  "stable_or_false E p =
     bnd (attempt (isReplicaStable E p)) (\<lambda>answer.
     ret (case answer of Inl err \<Rightarrow> False | Inr isStable \<Rightarrow> isStable))"

definition gate_enabled :: "bool prog" where
  "gate_enabled = bnd get_df (\<lambda>d. ret (specEnableReplicationReadinessGate (dfSpec d)))"

subsection \<open>Configuring the whole instance\<close>

definition configure_other_pod :: "env \<Rightarrow> pod \<Rightarrow> pod \<Rightarrow> unit prog" where
  "configure_other_pod E master p =
     (if podName p = podName master then ret ()
      else
        bnd (isPodReady E p) (\<lambda>ready.
        only_if ready
          (bnd (configureReplica E p (podIP master)) (\<lambda>p'.
           bnd gate_enabled (\<lambda>gate.
           only_if gate
             (bnd (stable_or_false E p') (\<lambda>isStable.
              bnd (patchReplicationReadyCondition E p' isStable) (\<lambda>_. ret ()))))))))"

definition configureReplication :: "env \<Rightarrow> pod \<Rightarrow> unit prog" where
  "configureReplication E master =
     bnd (getPods E) (\<lambda>pods.
     bnd getStatus (\<lambda>dfiStatus.
     bnd (patchStatus E (dfiStatus\<lparr>statusPhase := PhaseConfiguring\<rparr>)) (\<lambda>_.
     bnd (replicaOfNoOne E master) (\<lambda>master1.
     bnd (patchStatus E (dfiStatus\<lparr>statusPhase := PhaseReady\<rparr>)) (\<lambda>_.
     bnd (record_event EventTypeNormal ''Replication'' ''Updated master instance'') (\<lambda>_.
     bnd gate_enabled (\<lambda>gate.
     bnd (if gate then patchReplicationReadyCondition E master1 True else ret master1) (\<lambda>master2.
     for_each (configure_other_pod E master2) pods))))))))"

definition check_replica :: "env \<Rightarrow> string \<Rightarrow> pod \<Rightarrow> unit prog" where
  "check_replica E masterIp p =
     bnd (if isReplica p
          then bnd (checkReplicaRole E p masterIp) (\<lambda>ok.
                 if \<not> ok then configureReplica E p masterIp else ret p)
          else ret p) (\<lambda>p'.
     only_if (\<not> roleExists p')
       (bnd (isPodReady E p') (\<lambda>ready.
        only_if ready (bnd (configureReplica E p' masterIp) (\<lambda>_. ret ())))))"

definition checkAndConfigureReplicas :: "env \<Rightarrow> string \<Rightarrow> unit prog" where
  "checkAndConfigureReplicas E masterIp =
     bnd (getPods E) (\<lambda>pods. for_each (check_replica E masterIp) pods)"

subsection \<open>Removing role labels\<close>

definition deleteRoleLabel :: "env \<Rightarrow> pod \<Rightarrow> unit prog" where
  "deleteRoleLabel E p =
     bnd (patch_pod E p (p\<lparr>podLabels := go_delete (podLabels p) RoleLabelKey\<rparr>)) (\<lambda>p'.
     bnd gate_enabled (\<lambda>gate.
     only_if gate (bnd (patchReplicationReadyCondition E p' False) (\<lambda>_. ret ()))))"

definition deleteMasterRoleLabel :: "env \<Rightarrow> unit prog" where
  "deleteMasterRoleLabel E =
     bnd (wrap ''failed to get dragonfly pods'' (getPods E)) (\<lambda>pods.
     for_each (\<lambda>p. only_if (isMaster p) (deleteRoleLabel E p)) pods)"

subsection \<open>What the marks write\<close>

lemma mark_replica_labels:
  assumes "mark_replica p ip = Some q"
  shows "go_lookup (podLabels q) RoleLabelKey = Some Replica"
    and "go_lookup (podAnnotations q) MasterIpAnnotationKey = Some ip"
    and "podIP q = podIP p" and "podName q = podName p"
    and "has_v4_form ip \<Longrightarrow> go_lookup (podLabels q) MasterIpLabelKey = Some ip"
    and "\<not> has_v4_form ip \<Longrightarrow>
      go_lookup (podLabels q) MasterIpLabelKey = go_lookup (podLabels p) MasterIpLabelKey"
  using assms
  by (auto simp: mark_replica_def go_lookup_store split: option.splits if_splits)

lemma mark_master_labels:
  assumes "mark_master p = Some q"
  shows "go_lookup (podLabels q) RoleLabelKey = Some Master"
    and "go_lookup (podLabels q) MasterIpLabelKey = None"
    and "go_lookup (podAnnotations q) MasterIpAnnotationKey = Some (podIP p)"
    and "podIP q = podIP p" and "podName q = podName p"
  using assms
  by (auto simp: mark_master_def go_lookup_store split: option.splits)

text \<open>A pod that a label selector returned has labels, so marking it does not panic.\<close>

lemma mark_total:
  assumes "go_lookup (podLabels p) k = Some v"
  shows "\<exists>q. mark_replica p ip = Some q" and "\<exists>q. mark_master p = Some q"
  using assms
  by (cases "podLabels p"; cases "podAnnotations p"; auto simp: mark_replica_def mark_master_def)+

end
