(* ===== verification/Query_Contracts.thy ===== *)
theory Query_Contracts
  imports Instance_Query
begin

section \<open>Contracts of the queries\<close>

text \<open>
  The interface between the queries and the reconcilers that use them: a relation between
  states that the elementary reads keep is kept by every query. The locale
  \<open>query_contract\<close> proves it once; a reconciler's contract is an interpretation of it.
  Every Redis client comes out of the cache of clients, so the contracts are guarded by
  the invariant of the cache: a cached client is the one its address asks for.
\<close>

subsection \<open>The client cache\<close>

definition clients_ok :: "op_state \<Rightarrow> bool" where
  "clients_ok s \<longleftrightarrow> (\<forall>ip c. go_lookup (redisClients s) ip = Some c \<longrightarrow> c = newRedisClient ip)"

lemma clients_ok_nil [simp]: "clients_ok (s\<lparr>redisClients := Nil_map\<rparr>)"
  by (simp add: clients_ok_def)

lemma clients_ok_cong: "redisClients t = redisClients s \<Longrightarrow> clients_ok t = clients_ok s"
  by (simp add: clients_ok_def)

text \<open>The client returned is the one for the address; only the cache changes.\<close>

lemma getRedisClient_ok:
  assumes "clients_ok s"
  obtains m where "getRedisClient ip s = (Ok (newRedisClient ip), s\<lparr>redisClients := m\<rparr>)"
    and "clients_ok (s\<lparr>redisClients := m\<rparr>)"
    and "go_lookup m ip = Some (newRedisClient ip)"
proof (cases "go_lookup (redisClients s) ip")
  case None
  obtain m where m: "go_store (go_make_if_nil (redisClients s)) ip (newRedisClient ip) = Some m"
    using go_store_make by fastforce
  show ?thesis
  proof (rule that)
    show "getRedisClient ip s = (Ok (newRedisClient ip), s\<lparr>redisClients := m\<rparr>)"
      using None m by (simp add: getRedisClient_def Let_def)
  qed (use assms m in \<open>auto simp: clients_ok_def go_lookup_store\<close>)
next
  case (Some c)
  with assms have c: "c = newRedisClient ip" by (simp add: clients_ok_def)
  show ?thesis
  proof (rule that)
    show "getRedisClient ip s =
        (Ok (newRedisClient ip), s\<lparr>redisClients := go_make_if_nil (redisClients s)\<rparr>)"
      using Some c by (simp add: getRedisClient_def Let_def)
    show "clients_ok (s\<lparr>redisClients := go_make_if_nil (redisClients s)\<rparr>)"
      using assms by (simp add: clients_ok_def)
    show "go_lookup (go_make_if_nil (redisClients s)) ip = Some (newRedisClient ip)"
      using Some c by simp
  qed
qed

lemma perform_clients: "perform ask call_of s = (r, t) \<Longrightarrow> redisClients t = redisClients s"
  by (auto simp: perform_def)

lemma perform_df: "perform ask call_of s = (r, t) \<Longrightarrow> df t = df s"
  by (auto simp: perform_def)

subsection \<open>Guarded relations\<close>

definition guarded :: "(op_state \<Rightarrow> op_state \<Rightarrow> bool) \<Rightarrow> op_state \<Rightarrow> op_state \<Rightarrow> bool" where
  "guarded R s t \<longleftrightarrow> (clients_ok s \<longrightarrow> clients_ok t \<and> R s t)"

lemma guardedD: "keeps (guarded R) m \<Longrightarrow> clients_ok s \<Longrightarrow> m s = (r, t) \<Longrightarrow> clients_ok t \<and> R s t"
  using keepsD [of "guarded R" m s r t] by (simp add: guarded_def)

lemma guarded_perform: "keeps R (perform ask call_of) \<Longrightarrow> keeps (guarded R) (perform ask call_of)"
  by (rule keepsI) (metis clients_ok_cong guarded_def keepsD perform_clients)

lemma guarded_set_df: "keeps R (set_df d) \<Longrightarrow> keeps (guarded R) (set_df d)"
  by (auto simp: keeps_def set_df_def guarded_def clients_ok_def)

lemma guarded_record_event: "keeps R (record_event ty reason msg) \<Longrightarrow> keeps (guarded R) (record_event ty reason msg)"
  by (auto simp: keeps_def record_event_def guarded_def clients_ok_def)

lemma guarded_read_clock: "keeps R (read_clock E) \<Longrightarrow> keeps (guarded R) (read_clock E)"
  by (auto simp: keeps_def read_clock_def guarded_def clients_ok_def)

locale cached_contract = step_contract +
  assumes cache: "R s (s\<lparr>redisClients := m\<rparr>)"

sublocale cached_contract \<subseteq> guard: step_contract "guarded R"
  by unfold_locales (auto simp: guarded_def intro: refl trans)

context cached_contract
begin

lemma with_cached_client:
  assumes "keeps (guarded R) (k (newRedisClient ip))"
  shows "keeps (guarded R) (bnd (getRedisClient ip) k)"
proof (rule keepsI)
  fix s r t
  assume run: "bnd (getRedisClient ip) k s = (r, t)"
  show "guarded R s t"
  proof (cases "clients_ok s")
    case True
    then obtain m where m: "getRedisClient ip s = (Ok (newRedisClient ip), s\<lparr>redisClients := m\<rparr>)"
      and ok: "clients_ok (s\<lparr>redisClients := m\<rparr>)" by (rule getRedisClient_ok)
    from run m have "k (newRedisClient ip) (s\<lparr>redisClients := m\<rparr>) = (r, t)"
      by (simp add: bnd_def)
    with assms ok have "clients_ok t" and "R (s\<lparr>redisClients := m\<rparr>) t"
      by (auto dest: guardedD)
    then show ?thesis using trans [OF cache] by (simp add: guarded_def)
  qed (simp add: guarded_def)
qed

end

subsection \<open>The contract of the queries\<close>

definition query_cmd :: "redis_cmd \<Rightarrow> bool" where
  "query_cmd cmd \<longleftrightarrow> (case cmd of Info _ \<Rightarrow> True | Ping \<Rightarrow> True | Client_list \<Rightarrow> True | _ \<Rightarrow> False)"

lemma query_cmd_simps [simp]:
  "query_cmd (Info x)" "query_cmd Ping" "query_cmd Client_list"
  "\<not> query_cmd (Config_set k v)" "\<not> query_cmd (Slave_of h p)" "\<not> query_cmd (Client_kill a)"
  by (simp_all add: query_cmd_def)

locale query_contract = cached_contract +
  assumes redis_query: "query_cmd cmd \<Longrightarrow> keeps (guarded R) (redis E (newRedisClient ip) cmd)"
    and list_query: "keeps (guarded R) (list_pods E ns sel)"
    and sts_query: "keeps (guarded R) (get_statefulset E ns n)"
begin

lemmas primitive_queries [keeps_intro] = list_query sts_query

lemmas client_intro = keeps_if keeps_let guard.ret_ok guard.fail_ok with_cached_client

lemma info_ok [keeps_intro]: "keeps (guarded R) (redis E (newRedisClient ip) (Info x))"
  by (simp add: redis_query)

lemma ping_ok [keeps_intro]: "keeps (guarded R) (redis E (newRedisClient ip) Ping)"
  by (simp add: redis_query)

lemma client_list_ok [keeps_intro]: "keeps (guarded R) (redis E (newRedisClient ip) Client_list)"
  by (simp add: redis_query)

lemma getStatus_ok [keeps_intro]: "keeps (guarded R) getStatus"
  unfolding getStatus_def by (intro keeps_intro)

lemma isInstanceTerminating_ok [keeps_intro]: "keeps (guarded R) isInstanceTerminating"
  unfolding isInstanceTerminating_def by (intro keeps_intro)

lemma getStatefulSet_ok [keeps_intro]: "keeps (guarded R) (getStatefulSet E)"
  unfolding getStatefulSet_def by (intro keeps_intro)

lemma getPods_ok [keeps_intro]: "keeps (guarded R) (getPods E)"
  unfolding getPods_def by (intro keeps_intro)

lemma getReplicas_ok [keeps_intro]: "keeps (guarded R) (getReplicas E)"
  unfolding getReplicas_def by (intro keeps_intro)

lemma isDatasetLoaded_ok [keeps_intro]: "keeps (guarded R) (isDatasetLoaded E p)"
  unfolding isDatasetLoaded_def by (intro client_intro; intro keeps_intro)

lemma isPodReady_ok [keeps_intro]: "keeps (guarded R) (isPodReady E p)"
  unfolding isPodReady_def by (intro keeps_intro)

lemma ready_pods_ok [keeps_intro]: "keeps (guarded R) (ready_pods E msg ps)"
  by (induction ps) (auto intro!: keeps_intro)

lemma getHealthyPod_ok [keeps_intro]: "keeps (guarded R) (getHealthyPod E)"
  unfolding getHealthyPod_def by (intro keeps_intro)

lemma list_masters_ok [keeps_intro]: "keeps (guarded R) (list_masters E)"
  unfolding list_masters_def by (intro keeps_intro)

lemma getMaster_ok [keeps_intro]: "keeps (guarded R) (getMaster E)"
  unfolding getMaster_def by (intro keeps_intro)

lemma getUpdatedReplica_keeps [keeps_intro]: "keeps (guarded R) (getUpdatedReplica ps urev)"
  unfolding getUpdatedReplica_def by (intro keeps_intro)

lemma hasMasterRole_ok [keeps_intro]: "keeps (guarded R) (hasMasterRole E (newRedisClient ip))"
  unfolding hasMasterRole_def by (intro keeps_intro)

lemma checkReplicaRole_ok [keeps_intro]: "keeps (guarded R) (checkReplicaRole E p ip)"
  unfolding checkReplicaRole_def by (intro client_intro; intro keeps_intro)

lemma isReplicaStable_ok [keeps_intro]: "keeps (guarded R) (isReplicaStable E p)"
  unfolding isReplicaStable_def by (intro client_intro; intro keeps_intro)

lemma getRedisRole_ok [keeps_intro]: "keeps (guarded R) (getRedisRole E p)"
  unfolding getRedisRole_def by (intro client_intro; intro keeps_intro)

lemma getMasterCandidate_ok [keeps_intro]: "keeps (guarded R) (getMasterCandidate E p)"
  unfolding getMasterCandidate_def by (intro client_intro; intro keeps_intro)

lemma select_loop_ok:
  "(\<And>p. keeps (guarded R) (rdy p)) \<Longrightarrow> (\<And>p. keeps (guarded R) (cand p)) \<Longrightarrow> keeps (guarded R) (select_loop rdy cand best ps)"
  by (induction ps arbitrary: best) (auto intro!: keeps_intro)

lemma selectMasterCandidate_ok [keeps_intro]:
  "(\<And>p. keeps (guarded R) (rdy p)) \<Longrightarrow> (\<And>p. keeps (guarded R) (cand p)) \<Longrightarrow> keeps (guarded R) (selectMasterCandidate ps rdy cand)"
  unfolding selectMasterCandidate_def by (intro keeps_intro select_loop_ok)

end

subsection \<open>Contracts on calls\<close>

abbreviation admin_addr :: "string \<Rightarrow> string" where
  "admin_addr ip \<equiv> rcAddr (newRedisClient ip)"

sublocale trace_contract \<subseteq> cached_contract "emits P"
  by unfold_locales (simp add: emits_def nil)

context trace_contract
begin

lemma call_kept: "(\<And>r. P [call_of r]) \<Longrightarrow> keeps (guarded (emits P)) (perform ask call_of)"
  by (rule guarded_perform) (rule perform_ok)

lemma set_df_kept: "keeps (guarded (emits P)) (set_df d)"
  by (rule guarded_set_df) (rule set_df_ok)

lemma record_event_kept:
  "P [Record_event ty reason msg] \<Longrightarrow> keeps (guarded (emits P)) (record_event ty reason msg)"
  by (rule guarded_record_event) (rule record_event_ok)

lemma read_clock_kept: "(\<And>now. P [Read_clock now]) \<Longrightarrow> keeps (guarded (emits P)) (read_clock E)"
  by (rule guarded_read_clock) (rule read_clock_ok)

end

text \<open>A contract on the calls of a program, when the reads are among the calls allowed.\<close>

locale reading_trace = trace_contract +
  assumes info_call: "query_cmd cmd \<Longrightarrow> P [Redis_call (admin_addr ip) cmd r]"
    and list_call: "P [List_pods ns sel ps]"
    and sts_call: "P [Get_statefulset ns n sts]"

sublocale reading_trace \<subseteq> query_contract "emits P"
proof unfold_locales
  show "keeps (guarded (emits P)) (redis E (newRedisClient ip) cmd)" if "query_cmd cmd" for E ip cmd
    unfolding redis_def by (rule call_kept) (rule info_call [OF that])
  show "keeps (guarded (emits P)) (list_pods E ns sel)" for E ns sel
    unfolding list_pods_def by (rule call_kept) (rule list_call)
  show "keeps (guarded (emits P)) (get_statefulset E ns n)" for E ns n
    unfolding get_statefulset_def by (rule call_kept) (rule sts_call)
qed

subsection \<open>The queries only read\<close>

text \<open>
  The calls that cannot change the cluster or a data store: a \<^verbatim>\<open>GET\<close> or \<^verbatim>\<open>LIST\<close> of the API
  server, a clock reading, and the Redis commands that report.
\<close>

definition reads :: "call \<Rightarrow> bool" where
  "reads c \<longleftrightarrow> (case c of
      Redis_call _ cmd _ \<Rightarrow> query_cmd cmd
    | Get_pod _ _ _ \<Rightarrow> True
    | List_pods _ _ _ \<Rightarrow> True
    | Get_dragonfly _ _ _ \<Rightarrow> True
    | Get_statefulset _ _ _ \<Rightarrow> True
    | Get_object _ _ \<Rightarrow> True
    | Read_clock _ \<Rightarrow> True
    | _ \<Rightarrow> False)"

interpretation read_only: call_contract reads .

interpretation read_only: reading_trace "list_all reads"
  by unfold_locales (simp_all add: reads_def)

text \<open>No query changes the custom resource in memory.\<close>

definition same_df :: "op_state \<Rightarrow> op_state \<Rightarrow> bool" where
  "same_df s t \<longleftrightarrow> df t = df s"

interpretation same_df: cached_contract same_df
  by unfold_locales (simp_all add: same_df_def)

lemma perform_same_df [keeps_intro]: "keeps same_df (perform ask call_of)"
  by (rule keepsI) (auto simp: same_df_def dest: perform_df)

interpretation same_df: query_contract same_df
  by unfold_locales
    (auto simp: call_defs intro!: guarded_perform perform_same_df)

end
