(* ===== verification/Replication_Facts.thy ===== *)
theory Replication_Facts
  imports Replication Query_Contracts Sample_Cluster
begin

section \<open>What the replication methods achieve\<close>

text \<open>
  The functional behaviour of the methods of \<^verbatim>\<open>Replication\<close> and \<^verbatim>\<open>Instance_Query\<close>: which
  clients of a former master are disconnected, what a patch of the readiness condition leaves,
  which pod \<^verbatim>\<open>getMaster\<close> returns, and when \<^verbatim>\<open>checkReplicaRole\<close> accepts a replica or panics.
\<close>

subsection \<open>Disconnecting clients\<close>

text \<open>What is promised of a line of the client list, a list of fields parted by blanks: a local
  connection, a replication link or the operator's own connection is kept, any other one is killed
  by the value of its first \<open>addr\<close> field.\<close>

definition kept_connection :: "string \<Rightarrow> bool" where
  "kept_connection line \<longleftrightarrow>
     list_ex (\<lambda>mark. sublist mark line)
       [''addr=127.0.0.1'', ''addr=::1'', ''addr=[::1]'', ''name=repl_'', ''name=dragonfly-operator'']"

definition kill_target :: "string \<Rightarrow> string option" where
  "kill_target line =
     (if kept_connection line then None
      else map_option (drop (length ''addr='')) (find (prefix ''addr='') (split_on CHR '' '' line)))"

lemma kept_connection_iff: "kept_connection line \<longleftrightarrow> exempt_client line"
  by (simp add: kept_connection_def exempt_client_def contains_str_iff)

lemma find_prefix: "find (\<lambda>part. has_prefix part w) parts = find (prefix w) parts"
  by (intro find_cong refl) (simp add: has_prefix_iff prefix_def)

lemma client_addr_alt:
  "client_addr line = map_option (drop (length ''addr='')) (find (prefix ''addr='') (split_on CHR '' '' line))"
  unfolding client_addr_def find_prefix
  by (cases "find (prefix ''addr='') (split_on CHR '' '' line)")
    (auto simp: trim_prefix_def has_prefix_iff prefix_def dest: find_SomeD)

lemma kill_target_code:
  "kill_target line = (if line = '''' \<or> exempt_client line then None else client_addr line)"
  by (simp add: kill_target_def client_addr_alt kept_connection_iff)

definition kills :: "redis_client \<Rightarrow> string list \<Rightarrow> (gerror + string) list \<Rightarrow> call list" where
  "kills c addrs rs = map2 (\<lambda>a r. Redis_call (rcAddr c) (Client_kill a) r) addrs rs"

lemma kills_Cons [simp]: "kills c (a # as) (r # rs) = Redis_call (rcAddr c) (Client_kill a) r # kills c as rs"
  by (simp add: kills_def)

lemma disconnect_client_run:
  "\<exists>rs. disconnect_client E c line s = (Ok (), s\<lparr>history := history s @ kills c (List.map_filter kill_target [line]) rs\<rparr>) \<and>
     length rs = length (List.map_filter kill_target [line])"
proof (cases "kill_target line")
  case None
  then show ?thesis
    by (auto simp: disconnect_client_def kill_target_code List.map_filter_def kills_def run_simps
        split: option.splits if_splits)
next
  case (Some a)
  then have "line \<noteq> ''''" "\<not> exempt_client line" "client_addr line = Some a"
    by (auto simp: kill_target_code split: if_splits)
  then have "disconnect_client E c line s =
      (Ok (), s\<lparr>history := history s @ [Redis_call (rcAddr c) (Client_kill a)
        (envRedis E (history s) (rcAddr c) (Client_kill a))]\<rparr>)"
    by (cases "envRedis E (history s) (rcAddr c) (Client_kill a)")
      (simp_all add: disconnect_client_def run_simps redis_def perform_def)
  with Some show ?thesis
    by (intro exI [of _ "[envRedis E (history s) (rcAddr c) (Client_kill a)]"])
      (simp add: List.map_filter_def kills_def)
qed

lemma kills_append:
  "length as = length rs \<Longrightarrow> kills c (as @ bs) (rs @ us) = kills c as rs @ kills c bs us"
  by (simp add: kills_def)

lemma disconnect_lines_run:
  "\<exists>rs. for_each (disconnect_client E c) lines s =
       (Ok (), s\<lparr>history := history s @ kills c (List.map_filter kill_target lines) rs\<rparr>) \<and>
     length rs = length (List.map_filter kill_target lines)"
proof (induction lines arbitrary: s)
  case Nil
  then show ?case by (simp add: run_simps List.map_filter_def kills_def)
next
  case (Cons line lines)
  let ?as = "List.map_filter kill_target [line]" and ?bs = "List.map_filter kill_target lines"
  obtain rs where rs: "disconnect_client E c line s = (Ok (), s\<lparr>history := history s @ kills c ?as rs\<rparr>)"
    and l1: "length rs = length ?as" using disconnect_client_run by blast
  obtain us where us: "for_each (disconnect_client E c) lines (s\<lparr>history := history s @ kills c ?as rs\<rparr>) =
      (Ok (), s\<lparr>history := (history s @ kills c ?as rs) @ kills c ?bs us\<rparr>)"
    and l2: "length us = length ?bs"
    using Cons [of "s\<lparr>history := history s @ kills c ?as rs\<rparr>"] by auto
  have "List.map_filter kill_target (line # lines) = ?as @ ?bs"
    by (simp add: List.map_filter_def)
  then show ?case
    using rs us l1 l2 by (intro exI [of _ "rs @ us"]) (simp add: run_simps kills_append)
qed

subsection \<open>The readiness condition\<close>

lemma set_condition_others:
  "filter (\<lambda>c. pcType c \<noteq> ty) (set_condition ty st now cs) = filter (\<lambda>c. pcType c \<noteq> ty) cs"
  by (induction cs) auto

lemma set_condition_found:
  "find (\<lambda>c. pcType c = ty \<and> pcStatus c = st) (set_condition ty st now cs) \<noteq> None"
  by (induction cs) auto

lemma set_condition_types:
  "map pcType (set_condition ty st now cs) =
     (if ty \<in> pcType ` set cs then map pcType cs else map pcType cs @ [ty])"
  by (induction cs) auto


subsection \<open>Which pod is the master\<close>

definition dataset_loaded :: "string \<Rightarrow> bool" where
  "dataset_loaded info \<longleftrightarrow>
     field_ok (parseInfoToMap info) ''loading'' ''0'' \<and> field_ok (parseInfoToMap info) ''load_state'' ''done''"

text \<open>A pod is ready, given what its data store reports under INFO persistence.\<close>

definition pod_ready :: "(string \<Rightarrow> string) \<Rightarrow> pod \<Rightarrow> bool" where
  "pod_ready report p \<longleftrightarrow>
     isRunningAndReady p \<and> \<not> isTerminating p \<and> podIP p \<noteq> '''' \<and> dataset_loaded (report (admin_addr (podIP p)))"

text \<open>What \<^verbatim>\<open>getMaster\<close> promises of the pods labelled master: the only ready one.\<close>

definition the_master :: "(string \<Rightarrow> string) \<Rightarrow> pod list \<Rightarrow> pod result" where
  "the_master report ps =
     (if ps = [] then Fail ErrNoMaster
      else case filter (pod_ready report) ps of
             [] \<Rightarrow> Fail ErrNoHealthyMaster
           | [m] \<Rightarrow> Ok m
           | _ \<Rightarrow> Fail ErrIncorrectMasters)"

definition reports :: "env \<Rightarrow> (string \<Rightarrow> string) \<Rightarrow> bool" where
  "reports E report \<longleftrightarrow> (\<forall>h addr. envRedis E h addr (Info ''persistence'') = Inr (report addr))"

lemma isDatasetLoaded_run:
  assumes "clients_ok s" and "reports E report" and "podIP p \<noteq> ''''"
  shows "\<exists>t. isDatasetLoaded E p s = (Ok (dataset_loaded (report (admin_addr (podIP p)))), t) \<and> clients_ok t"
proof -
  obtain m where m: "getRedisClient (podIP p) s = (Ok (newRedisClient (podIP p)), s\<lparr>redisClients := m\<rparr>)"
    and ok: "clients_ok (s\<lparr>redisClients := m\<rparr>)" using assms(1) by (rule getRedisClient_ok)
  from ok have "clients_ok (s\<lparr>redisClients := m, history := h\<rparr>)" for h
    by (simp add: clients_ok_def)
  with m assms(2,3) show ?thesis
    by (simp add: isDatasetLoaded_def run_simps redis_def perform_def reports_def dataset_loaded_def Let_def)
qed

lemma isPodReady_run:
  assumes "clients_ok s" and "reports E report"
  shows "\<exists>t. isPodReady E p s = (Ok (pod_ready report p), t) \<and> clients_ok t"
proof (cases "isRunningAndReady p \<and> \<not> isTerminating p")
  case True
  show ?thesis
  proof (cases "podIP p = ''''")
    case empty: True
    with True assms(1) show ?thesis
      by (simp add: isPodReady_def isDatasetLoaded_def run_simps pod_ready_def)
  next
    case False
    with isDatasetLoaded_run [OF assms] True show ?thesis
      by (fastforce simp: isPodReady_def run_simps pod_ready_def)
  qed
next
  case False
  with assms(1) show ?thesis by (auto simp: isPodReady_def run_simps pod_ready_def)
qed

lemma ready_pods_run:
  assumes "clients_ok s" and "reports E report"
  shows "\<exists>t. ready_pods E msg ps s = (Ok (filter (pod_ready report) ps), t) \<and> clients_ok t"
  using assms(1)
proof (induction ps arbitrary: s)
  case (Cons p ps)
  obtain t where t: "isPodReady E p s = (Ok (pod_ready report p), t)" and "clients_ok t"
    using isPodReady_run [OF Cons.prems assms(2)] by blast
  with Cons.IH [of t] show ?case by (auto simp: run_simps)
qed (simp add: run_simps)

lemma getMaster_of_listed:
  assumes "list_masters E s = (Ok ps, u)" and "clients_ok u" and "reports E report"
  shows "fst (getMaster E s) = the_master report ps"
proof -
  from ready_pods_run [OF assms(2,3)] obtain t where
    "ready_pods E ''failed to verify master readiness'' ps u = (Ok (filter (pod_ready report) ps), t)" by blast
  with assms(1) show ?thesis
    by (simp add: getMaster_def run_simps the_master_def split: list.split)
qed

lemma getMaster_run:
  assumes "clients_ok s" and "reports E report"
    and "phase_ready (dfStatus (df s))" and "\<not> rolling (dfStatus (df s))"
    and "envListPods E (history s) (dfNamespace (df s)) (instance_labels (df s) @ [(RoleLabelKey, Master)]) = Inr ps"
  shows "fst (getMaster E s) = the_master report ps"
proof -
  let ?u = "s\<lparr>history := history s @ [List_pods (dfNamespace (df s))
    (instance_labels (df s) @ [(RoleLabelKey, Master)]) (Inr ps)]\<rparr>"
  have "list_masters E s = (Ok ps, ?u)"
    using assms(3-5) by (simp add: list_masters_def run_simps Let_def list_pods_def perform_def)
  moreover have "clients_ok ?u" using assms(1) by (simp add: clients_ok_def)
  ultimately show ?thesis using assms(2) by (rule getMaster_of_listed)
qed

text \<open>
  The labelled pods it chooses from: during a rolling update those of the new revision, unless
  there is none or the phase is still ready.
\<close>

definition considered :: "dragonfly_status \<Rightarrow> pod list \<Rightarrow> pod list \<Rightarrow> pod list" where
  "considered st updated masters =
     (if rolling st \<and> \<not> phase_ready st \<and> updated \<noteq> [] then updated else masters)"

text \<open>An API server that lists these pods as masters, whatever was called before.\<close>

definition lists_masters :: "env \<Rightarrow> dragonfly \<Rightarrow> pod list \<Rightarrow> pod list \<Rightarrow> bool" where
  "lists_masters E d updated masters \<longleftrightarrow> (\<exists>sts.
     (\<forall>h. envGetStatefulset E h (dfNamespace d) (dfName d) = Inr sts) \<and>
     (\<forall>h. envListPods E h (dfNamespace d) (instance_labels d @ [(RoleLabelKey, Master)]) = Inr masters) \<and>
     (\<forall>h. envListPods E h (dfNamespace d)
        (instance_labels d @ [(RoleLabelKey, Master), (StatefulSetRevisionLabel, stsUpdateRevision sts)]) = Inr updated))"

lemma list_masters_run:
  assumes "clients_ok s" and "lists_masters E (df s) updated masters"
  shows "\<exists>u. list_masters E s = (Ok (considered (dfStatus (df s)) updated masters), u) \<and> clients_ok u"
  using assms
  by (auto simp: list_masters_def lists_masters_def considered_def run_simps Let_def list_pods_def getStatefulSet_def
      get_statefulset_def perform_def clients_ok_def split: if_splits)

definition saw_ready :: "call list \<Rightarrow> pod \<Rightarrow> bool" where
  "saw_ready cs p \<longleftrightarrow>
     isRunningAndReady p \<and> \<not> isTerminating p \<and>
     (\<exists>info. Redis_call (admin_addr (podIP p)) (Info ''persistence'') (Inr info) \<in> set cs \<and> dataset_loaded info)"

lemma saw_ready_append:
  "saw_ready cs p \<Longrightarrow> saw_ready (cs @ ds) p" "saw_ready ds p \<Longrightarrow> saw_ready (cs @ ds) p"
  by (auto simp: saw_ready_def)

lemma read_only_grows:
  "keeps (guarded (emits (list_all reads))) m \<Longrightarrow> clients_ok s \<Longrightarrow> m s = (r, t) \<Longrightarrow>
   clients_ok t \<and> (\<exists>cs. history t = history s @ cs)"
  by (auto dest!: guardedD simp: emits_def)

lemma isPodReady_saw:
  assumes "clients_ok s" and "isPodReady E p s = (Ok True, t)"
  shows "\<exists>cs. history t = history s @ cs \<and> saw_ready cs p"
proof -
  obtain m where m: "getRedisClient (podIP p) s = (Ok (newRedisClient (podIP p)), s\<lparr>redisClients := m\<rparr>)"
    using assms(1) by (rule getRedisClient_ok)
  from assms(2) have "isRunningAndReady p" and "\<not> isTerminating p"
    and loaded: "isDatasetLoaded E p s = (Ok True, t)" and "podIP p \<noteq> ''''"
    by (auto simp: isPodReady_def isDatasetLoaded_def run_simps split: if_splits prod.splits result.splits)
  moreover from loaded \<open>podIP p \<noteq> ''''\<close> m show ?thesis
    using calculation
    by (cases "envRedis E (history s) (admin_addr (podIP p)) (Info ''persistence'')")
      (auto simp: isDatasetLoaded_def run_simps redis_def perform_def saw_ready_def dataset_loaded_def
        Let_def split: if_splits)
qed

lemma ready_pods_saw:
  assumes "clients_ok s" and "ready_pods E msg ps s = (Ok qs, t)"
  shows "\<exists>cs. history t = history s @ cs \<and> set qs \<subseteq> set ps \<and> (\<forall>q\<in>set qs. saw_ready cs q)"
  using assms
proof (induction ps arbitrary: s qs)
  case (Cons p ps)
  from Cons.prems(2) obtain rdy u rest where u: "isPodReady E p s = (Ok rdy, u)"
    and rest: "ready_pods E msg ps u = (Ok rest, t)" and qs: "qs = (if rdy then p # rest else rest)"
    by (auto simp: ret_def elim!: bnd_OkE dest!: map_error_OkD)
  from read_only_grows [OF read_only.isPodReady_ok Cons.prems(1) u]
  obtain cs where ok: "clients_ok u" and cs: "history u = history s @ cs" by blast
  from Cons.IH [OF ok rest] obtain ds where ds: "history t = history u @ ds" "set rest \<subseteq> set ps"
    "\<forall>q\<in>set rest. saw_ready ds q" by blast
  have "saw_ready cs p" if rdy
    using isPodReady_saw [OF Cons.prems(1), of E p u] u that cs by auto
  with ds cs qs show ?case
    by (intro exI [of _ "cs @ ds"]) (auto intro: saw_ready_append)
qed (simp add: run_simps)

subsection \<open>The scan for the role and the master of a replica\<close>

definition malformed :: "string \<Rightarrow> string \<Rightarrow> bool" where
  "malformed key resp \<longleftrightarrow> (\<exists>line\<in>set (split_on newline resp). contains_str line key \<and> CHR '':'' \<notin> set line)"

lemma scan_malformed: "scan_lines key acc (split_on newline resp) = None \<longleftrightarrow> malformed key resp"
  by (simp add: scan_lines_None_iff malformed_def)

lemma checkReplicaRole_run:
  assumes "clients_ok s"
    and "envRedis E (history s) (admin_addr (podIP p)) (Info ''replication'') = Inr resp"
  shows "fst (checkReplicaRole E p ip s) =
    (case replica_role_ok resp p ip of None \<Rightarrow> Panic | Some ok \<Rightarrow> Ok ok)"
proof -
  obtain m where "getRedisClient (podIP p) s = (Ok (newRedisClient (podIP p)), s\<lparr>redisClients := m\<rparr>)"
    using assms(1) by (rule getRedisClient_ok)
  with assms(2) show ?thesis
    by (simp add: checkReplicaRole_def run_simps redis_def perform_def split: option.split)
qed

subsection \<open>Properties\<close>

text \<open>C27: Disconnecting the clients of a former master asks for the client list and then kills
  exactly the connections that are neither local, nor replication links, nor the operator's
  own, once each and in the order of the list; a kill that fails does not stop the others.\<close>

theorem disconnects_exactly_the_others:
  assumes "envRedis E (history s) (rcAddr c) Client_list = Inr text"
  shows "\<exists>rs. disconnectClients E c s =
      (Ok (), s\<lparr>history := history s @ Redis_call (rcAddr c) Client_list (Inr text) #
         kills c (List.map_filter kill_target (split_on newline text)) rs\<rparr>) \<and>
    length rs = length (List.map_filter kill_target (split_on newline text))"
proof -
  let ?u = "s\<lparr>history := history s @ [Redis_call (rcAddr c) Client_list (Inr text)]\<rparr>"
  have "disconnectClients E c s = for_each (disconnect_client E c) (split_on newline text) ?u"
    using assms by (simp add: disconnectClients_def run_simps redis_def perform_def)
  then show ?thesis
    using disconnect_lines_run [of E c "split_on newline text" ?u] by auto
qed

text \<open>C28: A patch of the readiness condition leaves every other condition as it was, and once the
  server stored it the same request makes no further call.\<close>

theorem condition_patch_settles:
  assumes "patchReplicationReadyCondition E p ready s = (Ok q, t)"
    and "\<And>h old new r. envPatchPodStatus E h old new = Inr r \<Longrightarrow> podConditions r = podConditions new"
  shows "patchReplicationReadyCondition E q ready t = (Ok q, t) \<and>
    filter (\<lambda>c. pcType c \<noteq> ReplicationReadyConditionType) (podConditions q) =
    filter (\<lambda>c. pcType c \<noteq> ReplicationReadyConditionType) (podConditions p)"
proof (cases "find (\<lambda>c. pcType c = ReplicationReadyConditionType \<and> pcStatus c = desired_condition ready)
    (podConditions p) = None")
  case False
  with assms(1) show ?thesis
    by (auto simp: patchReplicationReadyCondition_def run_simps)
next
  case True
  let ?h = "history s @ [Read_clock (envNow E (history s))]"
  let ?new = "p\<lparr>podConditions := set_condition ReplicationReadyConditionType (desired_condition ready)
    (envNow E (history s)) (podConditions p)\<rparr>"
  from True assms(1) have "envPatchPodStatus E ?h p ?new = Inr q"
    by (cases "envPatchPodStatus E ?h p ?new")
      (auto simp: patchReplicationReadyCondition_def run_simps read_clock_def patch_pod_status_def perform_def)
  with assms(2) have q: "podConditions q =
      set_condition ReplicationReadyConditionType (desired_condition ready)
        (envNow E (history s)) (podConditions p)"
    by fastforce
  show ?thesis
    using set_condition_found by (auto simp: patchReplicationReadyCondition_def run_simps q set_condition_others)
qed

text \<open>C9: \<^verbatim>\<open>getMaster\<close> answers, for the pods labelled master that the API server lists (during a
  rolling update those of the new revision before the others), the single one that is ready by its
  conditions and its data store; with no labelled pod, no ready one or several it answers the error
  that makes the controller elect.\<close>

theorem getMaster_refines:
  assumes "clients_ok s" and "reports E report" and "lists_masters E (df s) updated masters"
  shows "fst (getMaster E s) = the_master report (considered (dfStatus (df s)) updated masters)"
  using list_masters_run [OF assms(1,3)] getMaster_of_listed assms(2) by blast

text \<open>C26: Whatever the answers, a pod that \<^verbatim>\<open>getMaster\<close> returns was listed by the API server
  during the call, is running, ready and not terminating, and its own data store reported its
  dataset as loaded.\<close>

theorem getMaster_checked:
  assumes "clients_ok s" and "getMaster E s = (Ok m, t)"
  shows "\<exists>cs ps. history t = history s @ cs \<and> fst (list_masters E s) = Ok ps \<and>
    m \<in> set ps \<and> saw_ready cs m"
proof -
  from assms(2) obtain ps u qs where ps: "list_masters E s = (Ok ps, u)"
    and qs: "ready_pods E ''failed to verify master readiness'' ps u = (Ok qs, t)" and m: "qs = [m]"
    by (auto simp: getMaster_def ret_def fail_def elim!: bnd_OkE split: if_splits list.splits)
  from read_only_grows [OF read_only.list_masters_ok assms(1) ps]
  obtain cs where ok: "clients_ok u" and cs: "history u = history s @ cs" by blast
  from ready_pods_saw [OF ok qs] m obtain ds where
    "history t = history u @ ds" "m \<in> set ps" "saw_ready ds m" by auto
  with cs ps show ?thesis
    by (intro exI [of _ "cs @ ds"] exI [of _ ps]) (auto intro: saw_ready_append)
qed

text \<open>C36: Checking a replica panics exactly on a replication reply with a line that mentions the
  role, or, unless the reply says master, the host of the master, and holds no colon.\<close>

theorem role_check_panics_iff:
  assumes "clients_ok s"
    and "envRedis E (history s) (admin_addr (podIP p)) (Info ''replication'') = Inr resp"
  shows "fst (checkReplicaRole E p ip s) = Panic \<longleftrightarrow>
    malformed ''role'' resp \<or>
    scan_lines ''role'' '''' (split_on newline resp) \<noteq> Some Master \<and> malformed ''master_host'' resp"
  using checkReplicaRole_run [OF assms, of ip]
    scan_malformed [of "''role''" "''''" resp] scan_malformed [of "''master_host''" "''''" resp]
  by (auto simp: replica_role_ok_def split: option.splits if_splits)






subsection \<open>Witnesses\<close>

definition sample_clients :: string where
  "sample_clients = ''id=1 addr=10.0.0.9:5000 name=app'' @ [newline] @ ''id=2 addr=127.0.0.1:1 name=cli''"

definition client_list_env :: env where
  "client_list_env = (sample_env [])\<lparr>envRedis := (\<lambda>h addr cmd. Inr sample_clients)\<rparr>"

lemma sample_targets:
  "List.map_filter kill_target (split_on newline sample_clients) = [''10.0.0.9:5000'']"
  by (simp add: sample_clients_def List.map_filter_def kill_target_code exempt_client_def client_addr_def
      has_prefix_def trim_prefix_def)

theorem disconnects_exactly_the_others_witness:
  "\<exists>r. disconnectClients client_list_env (newRedisClient ''10.0.0.1'') (sample_state PhaseReady) =
     (Ok (), (sample_state PhaseReady)\<lparr>history :=
        [Redis_call (admin_addr ''10.0.0.1'') Client_list (Inr sample_clients),
         Redis_call (admin_addr ''10.0.0.1'') (Client_kill ''10.0.0.9:5000'') r]\<rparr>)"
proof -
  have "envRedis client_list_env (history (sample_state PhaseReady)) (admin_addr ''10.0.0.1'') Client_list
      = Inr sample_clients"
    by (simp add: client_list_env_def)
  from disconnects_exactly_the_others [OF this]
  show ?thesis by (auto simp: sample_targets length_Suc_conv sample_state_def kills_def)
qed

theorem condition_patch_settles_witness:
  "\<exists>q t. patchReplicationReadyCondition (sample_env []) sample_replica True (sample_state PhaseReady) = (Ok q, t) \<and>
     patchReplicationReadyCondition (sample_env []) q True t = (Ok q, t)"
proof -
  have "\<exists>q t. patchReplicationReadyCondition (sample_env []) sample_replica True (sample_state PhaseReady) = (Ok q, t)"
    by (simp add: patchReplicationReadyCondition_def run_simps read_clock_def patch_pod_status_def
        perform_def split: option.split)
  then obtain q t where
    run: "patchReplicationReadyCondition (sample_env []) sample_replica True (sample_state PhaseReady) = (Ok q, t)"
    by blast
  have "patchReplicationReadyCondition (sample_env []) q True t = (Ok q, t)"
    by (rule conjunct1 [OF condition_patch_settles [OF run]]) simp
  with run show ?thesis by blast
qed

definition sample_report :: "string \<Rightarrow> string" where
  "sample_report addr = ''loading:0'' @ [newline] @ ''load_state:done''"

lemma sample_reports: "reports (sample_env ps) sample_report"
  by (simp add: reports_def sample_info_def sample_report_def)

lemma sample_ok: "clients_ok (sample_state ph)"
  by (simp add: sample_state_def clients_ok_def)

lemma sample_master_listed:
  "sample_listed [sample_master, sample_replica] (instance_labels (sample_df ph) @ [(RoleLabelKey, Master)])
     = [sample_master]"
  by (simp add: sample_listed_def instance_labels_def sample_pods sample_df_def)

lemma sample_lists_masters: "lists_masters (sample_env [sample_master, sample_replica]) (sample_df ph) [] [sample_master]"
  using sample_master_listed
  by (simp add: lists_masters_def) (simp add: sample_listed_def sample_pods sample_statefulset_def)

lemma sample_loaded: "dataset_loaded (sample_report addr)"
  by (simp add: dataset_loaded_def sample_report_def field_ok_def parseInfoToMap_def parse_info_line_def
      Let_def trim_space_def trim_by_def is_space_def has_prefix_def trim_suffix_def split_n2_def)

lemma sample_the_master: "the_master sample_report [sample_master] = Ok sample_master"
  by (simp add: the_master_def pod_ready_def sample_loaded)
    (simp add: sample_pods pod_simps isRunningAndReady_def isReady_def isDragonflyContainerReady_def isTerminating_def)

theorem getMaster_refines_witness:
  "fst (getMaster (sample_env [sample_master, sample_replica]) (sample_state PhaseRollingUpdate)) = Ok sample_master"
  using getMaster_refines [where s = "sample_state PhaseRollingUpdate" and updated = "[]" and masters = "[sample_master]",
      OF sample_ok sample_reports]
  by (simp add: sample_state_def sample_lists_masters considered_def sample_the_master)

lemma sample_getMaster:
  "\<exists>t. getMaster (sample_env [sample_master, sample_replica]) (sample_state PhaseReady) = (Ok sample_master, t)"
proof -
  have "fst (getMaster (sample_env [sample_master, sample_replica]) (sample_state PhaseReady))
      = the_master sample_report [sample_master]"
    using sample_master_listed [of PhaseReady]
    by (intro getMaster_run [OF sample_ok sample_reports])
      (simp_all add: sample_state_def phase_ready_def rolling_def, simp_all add: sample_df_def)
  also have "\<dots> = Ok sample_master" by (rule sample_the_master)
  finally show ?thesis by (metis prod.collapse)
qed

theorem getMaster_checked_witness:
  "\<exists>t. getMaster (sample_env [sample_master, sample_replica]) (sample_state PhaseReady) = (Ok sample_master, t) \<and>
     saw_ready (history t) sample_master"
proof -
  obtain t where t: "getMaster (sample_env [sample_master, sample_replica]) (sample_state PhaseReady)
      = (Ok sample_master, t)"
    using sample_getMaster by blast
  from getMaster_checked [OF sample_ok t] t show ?thesis by (auto simp: sample_state_def)
qed

text \<open>A reply that was cut in the middle of its first line.\<close>

definition cut_env :: env where
  "cut_env = (sample_env [])\<lparr>envRedis := (\<lambda>h addr cmd. Inr ''role'')\<rparr>"

theorem role_check_panics_iff_witness:
  "fst (checkReplicaRole cut_env sample_replica ''10.0.0.1'' (sample_state PhaseReady)) = Panic"
proof -
  have "envRedis cut_env (history (sample_state PhaseReady)) (admin_addr (podIP sample_replica))
      (Info ''replication'') = Inr ''role''"
    by (simp add: cut_env_def)
  moreover have "malformed ''role'' ''role''"
    by (simp add: malformed_def has_prefix_def)
  ultimately show ?thesis
    using role_check_panics_iff [OF sample_ok] by blast
qed






end
