(* ===== verification/Rollout.thy ===== *)
theory Rollout
  imports Replication "HOL-Library.Char_ord" "HOL-Library.List_Lexorder"
begin

section \<open>Rolling updates\<close>

text \<open>
  The methods of \<^verbatim>\<open>DragonflyInstance\<close> that replace outdated pods one at a time
  (\<^verbatim>\<open>internal/controller/dragonfly_instance.go\<close>): \<^verbatim>\<open>detectRollingUpdate\<close>,
  \<^verbatim>\<open>allPodsHealthyAndHaveRole\<close>, \<^verbatim>\<open>verifyUpdatedReplicas\<close>, \<^verbatim>\<open>updateReplicas\<close>,
  \<^verbatim>\<open>updatedMaster\<close> and \<^verbatim>\<open>detectOldMasters\<close>, then the bounds on what they delete. A step
  returns the result of the reconciliation it is part of, zero to go on.
\<close>

record ctrl_result =
  resRequeueAfter :: int

abbreviation finished :: ctrl_result where
  "finished \<equiv> \<lparr>resRequeueAfter = 0\<rparr>"

abbreviation requeue :: "int \<Rightarrow> ctrl_result" where
  "requeue d \<equiv> \<lparr>resRequeueAfter = d\<rparr>"

definition is_zero_result :: "ctrl_result \<Rightarrow> bool" where
  "is_zero_result r = (resRequeueAfter r = 0)"

lemma is_zero_result_simps [simp]:
  "is_zero_result finished" "is_zero_result (requeue d) \<longleftrightarrow> d = 0"
  by (simp_all add: is_zero_result_def)

subsection \<open>Detecting a change of the pod template\<close>

definition detectRollingUpdate :: "env \<Rightarrow> dragonfly_status prog" where
  "detectRollingUpdate E =
     bnd getStatus (\<lambda>status.
     bnd (wrap ''failed to get statefulset'' (getStatefulSet E)) (\<lambda>statefulSet.
     bnd (wrap ''failed to get dragonfly pods'' (getPods E)) (\<lambda>pods.
     if needRollingUpdate pods statefulSet then
       bnd (record_event EventTypeNormal ''Rollout'' ''Starting a rollout'') (\<lambda>_.
       bnd (wrap ''failed to update the dragonfly status''
              (patchStatus E (status\<lparr>statusPhase := PhaseRollingUpdate\<rparr>))) (\<lambda>_.
       bnd (record_event EventTypeNormal ''Resources'' ''Performing a rollout'') (\<lambda>_.
       ret (status\<lparr>statusPhase := PhaseRollingUpdate\<rparr>))))
     else ret status)))"

subsection \<open>Waiting for the pods, deleting those that cannot start\<close>

text \<open>
  \<^verbatim>\<open>sort.Slice\<close> by name. It need not be stable, but the names of the pods of a namespace
  are distinct, so the sorted list is unique.
\<close>

definition sort_by_name :: "pod list \<Rightarrow> pod list" where
  "sort_by_name ps = sort_key podName ps"

definition pod_progress :: "env \<Rightarrow> string \<Rightarrow> pod \<Rightarrow> ctrl_result option prog" where
  "pod_progress E updateRevision p =
     (if isTerminating p then ret None
      else if \<not> isPodOnLatestVersion p updateRevision \<and> \<not> isRunningAndReady p then
        bnd (wrap ''failed to delete pod'' (delete_pod E p)) (\<lambda>_. ret (Some (requeue (5 * second))))
      else
        bnd (wrap ''failed to verify pod readiness'' (isPodReady E p)) (\<lambda>ready.
        if \<not> ready then ret (Some (requeue (5 * second)))
        else if \<not> roleExists p then ret (Some (requeue (5 * second)))
        else ret None))"

definition or_finished :: "ctrl_result option \<Rightarrow> ctrl_result" where
  "or_finished r = (case r of None \<Rightarrow> finished | Some res \<Rightarrow> res)"

definition allPodsHealthyAndHaveRole :: "env \<Rightarrow> string \<Rightarrow> ctrl_result prog" where
  "allPodsHealthyAndHaveRole E updateRevision =
     bnd (wrap ''failed to get dragonfly pods'' (getPods E)) (\<lambda>pods.
     bnd (for_until (pod_progress E updateRevision) (sort_by_name pods)) (\<lambda>r.
     ret (or_finished r)))"

subsection \<open>Replicas\<close>

definition verify_replica :: "env \<Rightarrow> string \<Rightarrow> pod \<Rightarrow> ctrl_result option prog" where
  "verify_replica E updateRevision p =
     (if isPodOnLatestVersion p updateRevision then
        bnd (wrap ''failed to check if replica is stable'' (isReplicaStable E p)) (\<lambda>ok.
        bnd gate_enabled (\<lambda>gate.
        bnd (only_if gate
               (bnd (wrap ''failed to patch replication ready condition''
                       (patchReplicationReadyCondition E p ok)) (\<lambda>_. ret ()))) (\<lambda>_.
        if \<not> ok then ret (Some (requeue (5 * second))) else ret None)))
      else ret None)"

definition verifyUpdatedReplicas :: "env \<Rightarrow> pod list \<Rightarrow> string \<Rightarrow> ctrl_result prog" where
  "verifyUpdatedReplicas E replicas updateRevision =
     bnd (for_until (verify_replica E updateRevision) replicas) (\<lambda>r. ret (or_finished r))"

text \<open>The sort is in place, so the caller goes on with the sorted list: it is returned too.\<close>

definition updateReplicas :: "env \<Rightarrow> pod list \<Rightarrow> string \<Rightarrow> (ctrl_result \<times> pod list) prog" where
  "updateReplicas E replicas updateRevision =
     bnd (wrap ''failed to get master before deleting replica'' (getMaster E)) (\<lambda>_.
     let sorted_replicas = sort_by_name replicas in
     if find isTerminating sorted_replicas \<noteq> None then ret (requeue (5 * second), sorted_replicas)
     else case find (\<lambda>p. \<not> isPodOnLatestVersion p updateRevision) sorted_replicas of
            None \<Rightarrow> ret (finished, sorted_replicas)
          | Some p \<Rightarrow>
              bnd (record_event EventTypeNormal ''Rollout'' ''Deleting replica'') (\<lambda>_.
              bnd (wrap ''failed to delete pod'' (delete_pod E p)) (\<lambda>_.
              ret (requeue (5 * second), sorted_replicas))))"

subsection \<open>The master\<close>

definition follow_new_master :: "env \<Rightarrow> pod \<Rightarrow> pod \<Rightarrow> unit prog" where
  "follow_new_master E newMaster p =
     (if podName p = podName newMaster then ret ()
      else
        bnd (wrap ''failed to verify replica readiness'' (isPodReady E p)) (\<lambda>ready.
        only_if ready
          (bnd (wrap ''failed to configure pod as replica'' (configureReplica E p (podIP newMaster)))
             (\<lambda>_. ret ()))))"

definition updatedMaster :: "env \<Rightarrow> pod \<Rightarrow> pod list \<Rightarrow> string \<Rightarrow> unit prog" where
  "updatedMaster E oldMaster replicas updateRevision =
     (if replicas \<noteq> [] then
        bnd (wrap ''failed to get updated replica'' (getUpdatedReplica replicas updateRevision)) (\<lambda>newMaster.
        bnd (wrap ''failed to update master'' (replTakeover E newMaster oldMaster)) (\<lambda>newMaster'.
        for_each (follow_new_master E newMaster') replicas))
      else wrap ''failed to delete pod'' (delete_pod E oldMaster))"

definition detectOldMasters :: "env \<Rightarrow> string \<Rightarrow> unit prog" where
  "detectOldMasters E updateRevision =
     bnd get_df (\<lambda>d.
     bnd (wrap ''failed to list pods''
            (list_pods E (dfNamespace d) (instance_labels d @ [(RoleLabelKey, Master)]))) (\<lambda>masterPods.
     for_each (\<lambda>p. only_if (\<not> isPodOnLatestVersion p updateRevision)
                     (wrap ''failed to delete pod'' (delete_pod E p))) masterPods))"

end
