(* ===== verification/Pod_Lifecycle.thy ===== *)
theory Pod_Lifecycle
  imports Rollout
begin

section \<open>The pod lifecycle controller\<close>

text \<open>
  \<^verbatim>\<open>internal/controller/dragonfly_pod_lifecycle_controller.go\<close>: \<^verbatim>\<open>Reconcile\<close> for one pod
  event, split at the branches of the source, and \<^verbatim>\<open>getDragonflyInstance\<close> of
  \<^verbatim>\<open>base_controller.go\<close>. A reconciliation returns when to run again, or an error.
\<close>

subsection \<open>Shared by the two controllers\<close>

text \<open>The new instance: the custom resource just read, and no Redis client yet.\<close>

definition getDragonflyInstance :: "env \<Rightarrow> string \<Rightarrow> string \<Rightarrow> unit prog" where
  "getDragonflyInstance E ns name =
     bnd (get_dragonfly E ns name) (\<lambda>d.
     bnd Close (\<lambda>_. set_df d))"

text \<open>\<^verbatim>\<open>return ctrl.Result{}, client.IgnoreNotFound(err)\<close>.\<close>

definition ignore_not_found :: "gerror \<Rightarrow> ctrl_result prog" where
  "ignore_not_found err = (if is_not_found err then ret finished else fail err)"

text \<open>\<^verbatim>\<open>defer dfi.Close()\<close>: whatever the outcome.\<close>

definition closing :: "'a prog \<Rightarrow> 'a prog" where
  "closing m = (\<lambda>s. case m s of (r, t) \<Rightarrow> (r, snd (Close t)))"

subsection \<open>No usable master: elect one\<close>

definition candidate_ready :: "env \<Rightarrow> pod \<Rightarrow> bool prog" where
  "candidate_ready E p =
     bnd (attempt (isPodReady E p)) (\<lambda>answer.
     ret (case answer of Inl err \<Rightarrow> False | Inr ready \<Rightarrow> ready))"

definition no_candidate :: "env \<Rightarrow> ctrl_result prog" where
  "no_candidate E =
     bnd getStatus (\<lambda>dfiStatus.
     bnd (only_if (phase_ready dfiStatus)
            (wrap ''failed to update the dragonfly status''
               (patchStatus E (dfiStatus\<lparr>statusPhase := PhaseNotReady\<rparr>)))) (\<lambda>_.
     ret (requeue (5 * second))))"

definition promote_candidate :: "env \<Rightarrow> bool \<Rightarrow> pod \<Rightarrow> ctrl_result prog" where
  "promote_candidate E podReady master =
     bnd (attempt (configureReplication E master)) (\<lambda>answer.
     case answer of
       Inl err \<Rightarrow>
         if isReplicationCancelledError err then ret (requeue (3 * second))
         else fail (Wrapped ''failed to configure replication'' err)
     | Inr _ \<Rightarrow>
         bnd (record_event EventTypeNormal ''Replication'' ''Initial replication configured'') (\<lambda>_.
         if \<not> podReady then ret (requeue (5 * second)) else ret finished))"

definition elect_master :: "env \<Rightarrow> bool \<Rightarrow> gerror \<Rightarrow> ctrl_result prog" where
  "elect_master E podReady err =
     bnd (only_if (errors_is err ErrIncorrectMasters \<or> errors_is err ErrNoHealthyMaster)
            (wrap ''failed to delete master role label'' (deleteMasterRoleLabel E))) (\<lambda>_.
     bnd (wrap ''failed to list dragonfly pods'' (getPods E)) (\<lambda>allPods.
     bnd (selectMasterCandidate allPods (candidate_ready E) (getMasterCandidate E)) (\<lambda>masterCandidate.
     case masterCandidate of
       None \<Rightarrow> no_candidate E
     | Some master \<Rightarrow> promote_candidate E podReady master)))"

subsection \<open>A usable master: attach the pod to it\<close>

text \<open>\<open>Inl\<close> is an early return of the reconciliation, \<open>Inr\<close> the pod to go on with.\<close>

definition transient :: "string \<Rightarrow> gerror \<Rightarrow> (ctrl_result + pod) prog" where
  "transient msg err =
     (if isReplicationCancelledError err then ret (Inl (requeue (3 * second)))
      else fail (Wrapped msg err))"

definition attach_pod :: "env \<Rightarrow> pod \<Rightarrow> pod \<Rightarrow> (ctrl_result + pod) prog" where
  "attach_pod E master p =
     (if roleExists p then
        bnd getStatus (\<lambda>st.
        if phase_ready st then
          bnd (attempt (checkAndConfigureReplicas E (podIP master))) (\<lambda>answer.
          case answer of
            Inl err \<Rightarrow> transient ''failed to check and configure replicas'' err
          | Inr _ \<Rightarrow>
              bnd (record_event EventTypeNormal ''Replication'' ''Checked and configured replication'')
                (\<lambda>_. ret (Inr p)))
        else ret (Inr p))
      else
        bnd (attempt (configureReplica E p (podIP master))) (\<lambda>answer.
        case answer of
          Inl err \<Rightarrow> transient ''failed to configure pod as replica'' err
        | Inr p' \<Rightarrow>
            bnd (record_event EventTypeNormal ''Replication'' ''Configured a new replica'')
              (\<lambda>_. ret (Inr p'))))"

definition gate_pod :: "env \<Rightarrow> pod \<Rightarrow> ctrl_result prog" where
  "gate_pod E p =
     bnd gate_enabled (\<lambda>gate.
     if \<not> gate then ret finished
     else if isMaster p then
       bnd (wrap ''failed to patch replication ready condition''
              (patchReplicationReadyCondition E p True)) (\<lambda>_. ret finished)
     else if isReplica p then
       bnd (stable_or_false E p) (\<lambda>isStable.
       bnd (wrap ''failed to patch replication ready condition''
              (patchReplicationReadyCondition E p isStable)) (\<lambda>_.
       if \<not> isStable then ret (requeue (5 * second)) else ret finished))
     else ret finished)"

definition follow_master :: "env \<Rightarrow> bool \<Rightarrow> pod \<Rightarrow> pod \<Rightarrow> ctrl_result prog" where
  "follow_master E podReady master p =
     bnd (attempt (getRedisRole E master)) (\<lambda>role.
     if (case role of Inl err \<Rightarrow> False | Inr r \<Rightarrow> r \<noteq> Master)
     then bnd (wrap ''failed to promote master'' (replicaOfNoOne E master)) (\<lambda>_.
            ret (requeue (2 * second)))
     else if \<not> podReady then ret (requeue (5 * second))
     else
       bnd (attach_pod E master p) (\<lambda>outcome.
       case outcome of
         Inl res \<Rightarrow> ret res
       | Inr p' \<Rightarrow> gate_pod E p'))"

subsection \<open>Reconcile\<close>

definition reconcile_pod :: "env \<Rightarrow> pod \<Rightarrow> ctrl_result prog" where
  "reconcile_pod E p =
     bnd (wrap ''failed to verify pod readiness'' (isPodReady E p)) (\<lambda>podReady.
     bnd (attempt (getMaster E)) (\<lambda>answer.
     case answer of
       Inl err \<Rightarrow>
         if isMasterError err then elect_master E podReady err
         else fail (Wrapped ''failed to get master pod'' err)
     | Inr master \<Rightarrow> follow_master E podReady master p))"

definition PodReconcile :: "env \<Rightarrow> string \<Rightarrow> string \<Rightarrow> ctrl_result prog" where
  "PodReconcile E ns name =
     bnd (attempt (get_pod E ns name)) (\<lambda>found.
     case found of
       Inl err \<Rightarrow> ignore_not_found (Wrapped ''failed to get pod'' err)
     | Inr p \<Rightarrow>
         bnd (attempt (getDragonflyName p)) (\<lambda>named.
         case named of
           Inl err \<Rightarrow> ret finished
         | Inr instance_name \<Rightarrow>
             bnd (attempt (getDragonflyInstance E (podNamespace p) instance_name)) (\<lambda>got.
             case got of
               Inl err \<Rightarrow> ignore_not_found (Wrapped ''failed to get dragonfly instance'' err)
             | Inr _ \<Rightarrow> closing (reconcile_pod E p))))"

text \<open>The event filter of the controller: only pods with the application name of Dragonfly.\<close>

definition pod_event_filter :: "string gomap \<Rightarrow> bool" where
  "pod_event_filter labels = (go_index labels KubernetesAppNameLabelKey = KubernetesAppName)"

end
