(* ===== verification/Cooperation.thy ===== *)
theory Cooperation
  imports Replication_Facts Pod_Lifecycle
begin

section \<open>A cluster that cooperates\<close>

text \<open>
  The safety theorems hold whatever the environment answers. For the theorems on progress the
  environment cooperates: commands are accepted, patches are stored, the data stores report.
  This theory has rules of total correctness for programs (\<open>achieves\<close>) and what the queries and
  the role changes achieve in such a cluster; the theories of an election and of a rolling update
  build on it.
\<close>

subsection \<open>Total correctness\<close>

text \<open>
  \<open>achieves d m Q\<close>: run on the custom resource \<open>d\<close>, the method returns a value, and \<open>Q\<close> holds of
  it, of the calls added and of the custom resource in memory at the end.
\<close>

definition achieves :: "dragonfly \<Rightarrow> 'a prog \<Rightarrow> ('a \<Rightarrow> call list \<Rightarrow> dragonfly \<Rightarrow> bool) \<Rightarrow> bool" where
  "achieves d m Q \<longleftrightarrow> (\<forall>s. clients_ok s \<longrightarrow> df s = d \<longrightarrow>
     (\<exists>x t cs. m s = (Ok x, t) \<and> clients_ok t \<and> history t = history s @ cs \<and> Q x cs (df t)))"

lemma achievesI:
  assumes "\<And>s. clients_ok s \<Longrightarrow> df s = d \<Longrightarrow>
    \<exists>x t cs. m s = (Ok x, t) \<and> clients_ok t \<and> history t = history s @ cs \<and> Q x cs (df t)"
  shows "achieves d m Q"
  using assms unfolding achieves_def by blast

lemma achievesD:
  assumes "achieves d m Q" and "clients_ok s" and "df s = d"
  obtains x t cs where "m s = (Ok x, t)" and "clients_ok t" and "history t = history s @ cs" and "Q x cs (df t)"
  using assms unfolding achieves_def by blast

lemma achieves_weaken: "achieves d m Q \<Longrightarrow> (\<And>x cs e. Q x cs e \<Longrightarrow> R x cs e) \<Longrightarrow> achieves d m R"
  unfolding achieves_def by blast

lemma achieves_ret: "Q x [] d \<Longrightarrow> achieves d (ret x) Q"
  unfolding achieves_def by (simp add: run_simps)

lemma achieves_bnd:
  assumes "achieves d m U" and "\<And>x cs e. U x cs e \<Longrightarrow> achieves e (k x) (\<lambda>y ds. Q y (cs @ ds))"
  shows "achieves d (bnd m k) Q"
proof (rule achievesI)
  fix s
  assume "clients_ok s" and "df s = d"
  with assms(1) obtain x t cs where m: "m s = (Ok x, t)" and t: "clients_ok t" "history t = history s @ cs"
    and "U x cs (df t)" by (rule achievesD)
  from assms(2) [OF this(4)] t(1) refl obtain y u ds where "k x t = (Ok y, u)" and "clients_ok u"
    and "history u = history t @ ds" and "Q y (cs @ ds) (df u)" by (rule achievesD)
  with m t show "\<exists>y u cs. bnd m k s = (Ok y, u) \<and> clients_ok u \<and> history u = history s @ cs \<and> Q y cs (df u)"
    by (auto simp: run_simps)
qed

lemma achieves_wrap: "achieves d m Q \<Longrightarrow> achieves d (map_error f m) Q"
  unfolding achieves_def by (fastforce simp: run_simps)

lemma achieves_attempt: "achieves d m (\<lambda>x. Q (Inr x)) \<Longrightarrow> achieves d (attempt m) Q"
  unfolding achieves_def by (fastforce simp: run_simps)

lemma achieves_get_df: "achieves d (k d) Q \<Longrightarrow> achieves d (bnd get_df k) Q"
  unfolding achieves_def by (simp add: run_simps)

lemma achieves_status: "achieves d (k (dfStatus d)) Q \<Longrightarrow> achieves d (bnd getStatus k) Q"
  unfolding achieves_def by (simp add: run_simps getStatus_def)

lemma achieves_client:
  assumes "achieves d (k (newRedisClient ip)) Q"
  shows "achieves d (bnd (getRedisClient ip) k) Q"
proof (rule achievesI)
  fix s
  assume s: "clients_ok s" "df s = d"
  obtain m where m: "getRedisClient ip s = (Ok (newRedisClient ip), s\<lparr>redisClients := m\<rparr>)"
    and ok: "clients_ok (s\<lparr>redisClients := m\<rparr>)" using s(1) by (rule getRedisClient_ok)
  from assms ok s(2) obtain x t cs where "k (newRedisClient ip) (s\<lparr>redisClients := m\<rparr>) = (Ok x, t)"
    and "clients_ok t" and "history t = history s @ cs" and "Q x cs (df t)" by (auto elim: achievesD)
  with m show "\<exists>x t cs. bnd (getRedisClient ip) k s = (Ok x, t) \<and> clients_ok t \<and>
      history t = history s @ cs \<and> Q x cs (df t)" by (simp add: run_simps)
qed

lemma achieves_perform:
  assumes "\<And>h. \<exists>x. ask h = Inr x \<and> Q x [call_of (Inr x)] d"
  shows "achieves d (perform ask call_of) Q"
proof (rule achievesI)
  fix s
  assume s: "clients_ok s" "df s = d"
  obtain x where "ask (history s) = Inr x" and "Q x [call_of (Inr x)] d" using assms by blast
  with s show "\<exists>x t cs. perform ask call_of s = (Ok x, t) \<and> clients_ok t \<and> history t = history s @ cs \<and> Q x cs (df t)"
    by (auto simp: perform_def clients_ok_def)
qed

lemma achieves_event: "Q () [Record_event ty reason msg] d \<Longrightarrow> achieves d (record_event ty reason msg) Q"
  unfolding achieves_def by (simp add: record_event_def clients_ok_def)

lemma achieves_clock: "(\<And>now. Q now [Read_clock now] d) \<Longrightarrow> achieves d (read_clock E) Q"
  unfolding achieves_def by (simp add: read_clock_def clients_ok_def)

lemma achieves_recorded: "achieves d (record_event ty reason msg) (\<lambda>x cs e. e = d)"
  by (rule achieves_event) simp

lemma achieves_now: "achieves d (read_clock E) (\<lambda>x cs e. e = d)"
  by (rule achieves_clock) simp

text \<open>A loop whose body does something for each element has done it for all of them.\<close>

lemma achieves_for_each:
  assumes "\<And>x. x \<in> set xs \<Longrightarrow> achieves d (f x) (\<lambda>_ cs e. e = d \<and> (needed x \<longrightarrow> does x cs))"
    and mono: "\<And>x as cs bs. does x cs \<Longrightarrow> does x (as @ cs @ bs)"
  shows "achieves d (for_each f xs) (\<lambda>_ cs e. e = d \<and> (\<forall>x\<in>set xs. needed x \<longrightarrow> does x cs))"
  using assms(1)
proof (induction xs)
  case Nil
  show ?case by (simp add: achieves_ret)
next
  case (Cons x xs)
  have "does y (cs @ ds)" if "does y cs" for y cs ds using mono [OF that, of "[]" ds] by simp
  moreover have "does y (cs @ ds)" if "does y ds" for y cs ds using mono [OF that, of cs "[]"] by simp
  ultimately show ?case
    unfolding for_each.simps
    by (intro achieves_bnd [OF Cons.prems], simp, elim conjE, hypsubst,
        intro achieves_weaken [OF Cons.IH] Cons.prems) auto
qed

subsection \<open>The calls that change pods\<close>

definition is_change :: "call \<Rightarrow> bool" where
  "is_change c \<longleftrightarrow> (case c of Patch_pod _ _ _ \<Rightarrow> True | Delete_pod _ _ \<Rightarrow> True | _ \<Rightarrow> False)"

definition changes :: "call list \<Rightarrow> call list" where
  "changes cs = filter is_change cs"

lemma is_change_simps [simp]:
  "is_change (Patch_pod p q r)" "is_change (Delete_pod p r')" "\<not> is_change (Redis_call a c x)"
  "\<not> is_change (Redis_do a xs y)" "\<not> is_change (List_pods ns sel ps)" "\<not> is_change (Get_statefulset ns n z)"
  "\<not> is_change (Record_event u v w)" "\<not> is_change (Read_clock now)" "\<not> is_change (Patch_pod_status p q r)"
  "\<not> is_change (Patch_dragonfly_status d d' r'')"
  by (simp_all add: is_change_def)

lemma changes_append [simp]: "changes (as @ bs) = changes as @ changes bs"
  by (simp add: changes_def)

lemma changes_Cons [simp]: "changes (c # cs) = (if is_change c then c # changes cs else changes cs)"
  by (simp add: changes_def)

lemma changes_Nil [simp]: "changes [] = []"
  by (simp add: changes_def)

text \<open>A contract on calls that only constrains the changes of pods.\<close>

locale change_trace = call_contract +
  assumes other: "\<not> is_change c \<Longrightarrow> Q c"

sublocale change_trace \<subseteq> reading_trace "list_all Q"
  by unfold_locales (simp_all add: other)

context change_trace
begin

lemma call_of_other: "(\<And>r. \<not> is_change (call_of r)) \<Longrightarrow> keeps (guarded (emits (list_all Q))) (perform ask call_of)"
  by (intro call_kept) (simp add: other)

lemma other_calls [keeps_intro]:
  "keeps (guarded (emits (list_all Q))) (redis E c cmd)"
  "keeps (guarded (emits (list_all Q))) (redis_do E c args)"
  "keeps (guarded (emits (list_all Q))) (patch_pod_status E p q)"
  "keeps (guarded (emits (list_all Q))) (record_event ty reason msg)"
  "keeps (guarded (emits (list_all Q))) (read_clock E)"
  unfolding redis_def redis_do_def patch_pod_status_def
  by (intro call_of_other record_event_kept read_clock_kept; simp add: other)+

lemma condition_kept [keeps_intro]: "keeps (guarded (emits (list_all Q))) (patchReplicationReadyCondition E p b)"
  unfolding patchReplicationReadyCondition_def by (intro keeps_intro)

lemma disconnectClients_kept [keeps_intro]: "keeps (guarded (emits (list_all Q))) (disconnectClients E c)"
  unfolding disconnectClients_def disconnect_client_def by (intro keeps_intro)

lemma patchStatus_kept [keeps_intro]: "keeps (guarded (emits (list_all Q))) (patchStatus E st)"
  unfolding patchStatus_def patch_dragonfly_status_def
  by (intro keeps_intro set_df_kept call_of_other) simp

lemma gate_kept [keeps_intro]: "keeps (guarded (emits (list_all Q))) gate_enabled"
  unfolding gate_enabled_def by (intro keeps_intro)

end

text \<open>Pods other than one leader may be marked as replicas.\<close>

locale attaching_trace = change_trace +
  fixes leader :: string
  assumes attach: "podName p \<noteq> leader \<Longrightarrow> go_lookup (podLabels new) RoleLabelKey = Some Replica \<Longrightarrow>
    Q (Patch_pod p new r)"
begin

lemma replicaOf_kept: "podName p \<noteq> leader \<Longrightarrow> keeps (guarded (emits (list_all Q))) (replicaOf E p ip)"
  unfolding replicaOf_def become_replica_def hasMasterRole_def patch_marked_def patch_pod_def
  by (intro client_intro keeps_intro call_kept) (simp add: attach mark_replica_labels)

end

interpretation quiet: change_trace "\<lambda>c. \<not> is_change c"
  by unfold_locales

lemma changes_quiet: "list_all (\<lambda>c. \<not> is_change c) cs \<Longrightarrow> changes cs = []"
  by (induction cs) auto

definition follow_call :: "string \<Rightarrow> call \<Rightarrow> bool" where
  "follow_call n c \<longleftrightarrow> (case c of
      Patch_pod old new r \<Rightarrow> podName old \<noteq> n \<and> go_lookup (podLabels new) RoleLabelKey = Some Replica
    | Delete_pod _ _ \<Rightarrow> False
    | _ \<Rightarrow> True)"

interpretation following: attaching_trace "follow_call n" n for n
  by unfold_locales (simp_all add: follow_call_def is_change_def split: call.splits)

text \<open>What a program achieves and the calls it makes, together.\<close>

lemma achieves_emits:
  assumes "achieves d m Q" and "keeps (guarded (emits P)) m"
  shows "achieves d m (\<lambda>x cs e. Q x cs e \<and> P cs)"
proof (rule achievesI)
  fix s
  assume s: "clients_ok s" "df s = d"
  with assms(1) obtain x t cs where run: "m s = (Ok x, t)" "clients_ok t" "history t = history s @ cs" "Q x cs (df t)"
    by (rule achievesD)
  with guardedD [OF assms(2) s(1) run(1)] have "P cs" by (auto simp: emits_def)
  with run show "\<exists>x t cs. m s = (Ok x, t) \<and> clients_ok t \<and> history t = history s @ cs \<and> Q x cs (df t) \<and> P cs"
    by blast
qed

lemma achieves_quiet:
  assumes "achieves d m Q" and "keeps (guarded (emits (list_all (\<lambda>c. \<not> is_change c)))) m"
  shows "achieves d m (\<lambda>x cs e. Q x cs e \<and> changes cs = [])"
  using achieves_emits [OF assms] by (rule achieves_weaken) (simp add: changes_quiet)

lemma achieves_for_until:
  assumes "\<And>x. x \<in> set xs \<Longrightarrow> achieves d (f x) (\<lambda>r cs e. (r = None \<and> e = d) \<and> changes cs = [])"
  shows "achieves d (for_until f xs) (\<lambda>r cs e. (r = None \<and> e = d) \<and> changes cs = [])"
  using assms
proof (induction xs)
  case Nil
  show ?case by (simp add: achieves_ret)
next
  case (Cons x xs)
  show ?case
    unfolding for_until.simps
    by (rule achieves_bnd, rule Cons.prems, simp)
      (use Cons in \<open>auto intro: achieves_weaken [OF Cons.IH]\<close>)
qed

text \<open>The role label of a pod after a list of calls: the last one that a stored patch set.\<close>

fun role_after :: "call list \<Rightarrow> string \<Rightarrow> string option \<Rightarrow> string option" where
  "role_after [] n role = role"
| "role_after (c # cs) n role = role_after cs n
     (case c of
        Patch_pod old new (Inr r) \<Rightarrow> if podName old = n then go_lookup (podLabels new) RoleLabelKey else role
      | _ \<Rightarrow> role)"

lemma role_after_changes: "role_after (changes cs) n role = role_after cs n role"
  by (induction cs n role rule: role_after.induct) (auto simp: is_change_def split: call.splits sum.splits)

subsection \<open>A cluster that cooperates\<close>

text \<open>The same custom resource, maybe with another status.\<close>

definition same_instance :: "dragonfly \<Rightarrow> dragonfly \<Rightarrow> bool" where
  "same_instance d e \<longleftrightarrow> dfName e = dfName d \<and> dfNamespace e = dfNamespace d \<and> dfSpec e = dfSpec d \<and>
     dfDeletionTimestamp e = dfDeletionTimestamp d"

lemma same_instance_refl [simp]: "same_instance d d"
  by (simp add: same_instance_def)

lemma same_instance_trans: "same_instance d e \<Longrightarrow> same_instance e f \<Longrightarrow> same_instance d f"
  by (simp add: same_instance_def)

lemma same_instance_status [simp]: "same_instance d (e\<lparr>dfStatus := st\<rparr>) = same_instance d e"
  "same_instance (d\<lparr>dfStatus := st\<rparr>) e = same_instance d e"
  by (simp_all add: same_instance_def)

definition cooperative :: "env \<Rightarrow> (string \<Rightarrow> string) \<Rightarrow> (string \<Rightarrow> string) \<Rightarrow> bool" where
  "cooperative E report repl \<longleftrightarrow>
     reports E report \<and>
     (\<forall>h a. envRedis E h a (Info ''replication'') = Inr (repl a)) \<and>
     (\<forall>h a x y. envRedis E h a (Slave_of x y) = Inr ''OK'') \<and>
     (\<forall>h a k v. \<exists>r. envRedis E h a (Config_set k v) = Inr r) \<and>
     (\<forall>h p q. \<exists>r. envPatchPod E h p q = Inr r \<and> podName r = podName q \<and> podIP r = podIP q) \<and>
     (\<forall>h p q. \<exists>r. envPatchPodStatus E h p q = Inr r \<and> podName r = podName q \<and> podIP r = podIP q) \<and>
     (\<forall>h d e. \<exists>r. envPatchDragonflyStatus E h d e = Inr r \<and> same_instance e r \<and> dfStatus r = dfStatus e)"

text \<open>What a candidate reports, as a value.\<close>

definition candidate_of :: "(string \<Rightarrow> string) \<Rightarrow> pod \<Rightarrow> master_candidate" where
  "candidate_of repl p =
     \<lparr>mcPod = p, mcIsReplica = isReplica p,
      mcOffset = (if podIP p = '''' then 0
        else case parseInfoToMap (repl (admin_addr (podIP p))) ''slave_repl_offset'' of
               None \<Rightarrow> 0
             | Some v \<Rightarrow> (case parse_int64 v of None \<Rightarrow> 0 | Some n \<Rightarrow> n))\<rparr>"


lemma cooperativeD:
  assumes "cooperative E report repl"
  shows "reports E report" "envRedis E h a (Info ''replication'') = Inr (repl a)"
    "envRedis E h a (Slave_of x y) = Inr ''OK''" "\<exists>r. envRedis E h a (Config_set k v) = Inr r"
    "\<exists>r. envPatchPod E h p q = Inr r \<and> podName r = podName q \<and> podIP r = podIP q"
    "\<exists>r. envPatchPodStatus E h p q = Inr r \<and> podName r = podName q \<and> podIP r = podIP q"
    "\<exists>r. envPatchDragonflyStatus E h d e = Inr r \<and> same_instance e r \<and> dfStatus r = dfStatus e"
  using assms unfolding cooperative_def by blast+

lemma achieves_isPodReady:
  assumes "cooperative E report repl"
  shows "achieves d (isPodReady E p) (\<lambda>x cs e. x = pod_ready report p \<and> e = d)"
proof -
  have ask: "achieves d (redis E (newRedisClient ip) (Info ''persistence''))
      (\<lambda>x cs e. x = report (admin_addr ip) \<and> e = d)" for ip
    using cooperativeD(1) [OF assms] unfolding redis_def reports_def by (simp add: achieves_perform)
  have "achieves d (isDatasetLoaded E p)
      (\<lambda>x cs e. x = (podIP p \<noteq> '''' \<and> dataset_loaded (report (admin_addr (podIP p)))) \<and> e = d)"
    unfolding isDatasetLoaded_def
    by (auto simp: dataset_loaded_def Let_def intro!: achieves_ret achieves_client achieves_bnd [OF ask])
  then show ?thesis
    unfolding isPodReady_def
    by (auto simp: pod_ready_def intro!: achieves_ret achieves_wrap elim: achieves_weaken)
qed

lemma achieves_candidate:
  assumes "cooperative E report repl"
  shows "achieves d (getMasterCandidate E p) (\<lambda>x cs e. x = candidate_of repl p \<and> e = d)"
proof (cases "podIP p = ''''")
  case True
  then show ?thesis by (simp add: getMasterCandidate_def candidate_of_def Let_def achieves_ret)
next
  case False
  have ask: "achieves d (attempt (redis E (newRedisClient (podIP p)) (Info ''replication'')))
      (\<lambda>x cs e. x = Inr (repl (admin_addr (podIP p))) \<and> e = d)"
    unfolding redis_def by (intro achieves_attempt achieves_perform) (simp add: cooperativeD [OF assms])
  from False show ?thesis
    unfolding getMasterCandidate_def Let_def
    by (auto simp: candidate_of_def intro!: achieves_client achieves_bnd [OF ask] achieves_ret split: option.split)
qed

subsection \<open>Attempts, whatever comes of them\<close>

lemma achieves_attempt_perform:
  assumes "\<And>h. Q (ask h) [call_of (ask h)] d"
  shows "achieves d (attempt (perform ask call_of)) Q"
proof (rule achievesI)
  fix s
  assume s: "clients_ok s" "df s = d"
  show "\<exists>x t cs. attempt (perform ask call_of) s = (Ok x, t) \<and> clients_ok t \<and>
      history t = history s @ cs \<and> Q x cs (df t)"
    using assms [of "history s"] s
    by (cases "ask (history s)") (auto simp: run_simps perform_def clients_ok_def)
qed

lemma achieves_try: "achieves d (attempt (perform ask call_of)) (\<lambda>x cs e. e = d)"
  by (rule achieves_attempt_perform) simp

lemma achieves_attempt_bnd:
  assumes "achieves d (attempt m) U" and "\<And>err cs e. U (Inl err) cs e \<Longrightarrow> Q (Inl err) cs e"
    and "\<And>x cs e. U (Inr x) cs e \<Longrightarrow> achieves e (attempt (k x)) (\<lambda>y ds. Q y (cs @ ds))"
  shows "achieves d (attempt (bnd m k)) Q"
proof -
  have "attempt (bnd m k) = bnd (attempt m) (\<lambda>r. case r of Inl err \<Rightarrow> ret (Inl err) | Inr x \<Rightarrow> attempt (k x))"
    by (rule ext) (auto simp: bnd_def attempt_def ret_def split: prod.split result.split)
  moreover have "achieves d \<dots> Q"
    by (rule achieves_bnd [OF assms(1)]) (auto intro!: achieves_ret assms(2,3) split: sum.split)
  ultimately show ?thesis by simp
qed

lemma achieves_attempt_fail: "Q (Inl err) [] d \<Longrightarrow> achieves d (attempt (fail err)) Q"
  unfolding achieves_def by (simp add: run_simps)

lemma achieves_attempt_ret: "Q (Inr x) [] d \<Longrightarrow> achieves d (attempt (ret x)) Q"
  unfolding achieves_def by (simp add: run_simps)

lemma achieves_attempt_client:
  "achieves d (attempt (k (newRedisClient ip))) Q \<Longrightarrow> achieves d (attempt (bnd (getRedisClient ip) k)) Q"
  by (rule achieves_attempt_bnd [where U = "\<lambda>r cs e. r = Inr (newRedisClient ip) \<and> cs = [] \<and> e = d"])
    (use achieves_client [of d ret ip "\<lambda>x cs e. x = newRedisClient ip \<and> cs = [] \<and> e = d"]
      in \<open>auto intro!: achieves_attempt simp: achieves_ret\<close>)

lemma achieves_stable: "achieves d (stable_or_false E p) (\<lambda>x cs e. e = d)"
proof -
  have "achieves d (attempt (isReplicaStable E p)) (\<lambda>x cs e. e = d)"
    unfolding isReplicaStable_def redis_def
    by (rule achieves_attempt_client)
      (auto simp: Let_def intro!: achieves_attempt_bnd [OF achieves_try] achieves_attempt_fail
        achieves_attempt_ret split: option.splits)
  then show ?thesis
    unfolding stable_or_false_def by (rule achieves_bnd) (simp add: achieves_ret)
qed

lemma achieves_disconnect: "achieves d (disconnectClients E c) (\<lambda>x cs e. e = d)"
proof -
  have one: "achieves d (disconnect_client E c info) (\<lambda>x cs e. e = d)" for info
    unfolding disconnect_client_def redis_def
    by (auto intro!: achieves_ret achieves_bnd [OF achieves_try]
        split: option.split)
  have all: "achieves d (for_each (disconnect_client E c) infos) (\<lambda>x cs e. e = d)" for infos
    by (rule achieves_weaken [OF achieves_for_each [where needed = "\<lambda>_. False"]])
      (auto intro: achieves_weaken [OF one])
  show ?thesis
    unfolding disconnectClients_def redis_def
    by (rule achieves_bnd [OF achieves_try])
      (auto intro!: achieves_ret all split: sum.split)
qed

lemma closing_run: "m s = (r, t) \<Longrightarrow> closing m s = (r, t\<lparr>redisClients := Nil_map\<rparr>)"
  by (simp add: closing_def Close_def)

lemma instance_read:
  assumes "\<And>h. envGetDragonfly E h ns name = Inr d"
  shows "getDragonflyInstance E ns name s =
    (Ok (), s\<lparr>history := history s @ [Get_dragonfly ns name (Inr d)], redisClients := Nil_map, df := d\<rparr>)"
  by (simp add: getDragonflyInstance_def run_simps get_dragonfly_def perform_def Close_def assms)

subsection \<open>The role changes\<close>

text \<open>The call \<open>c\<close>, and behind it a call with the property \<open>P\<close>.\<close>

fun in_order :: "call \<Rightarrow> (call \<Rightarrow> bool) \<Rightarrow> call list \<Rightarrow> bool" where
  "in_order c P [] = False"
| "in_order c P (x # xs) = (x = c \<and> list_ex P xs \<or> in_order c P xs)"

lemma in_order_append: "in_order c P cs \<Longrightarrow> in_order c P (as @ cs @ bs)"
proof -
  have "in_order c P cs \<Longrightarrow> in_order c P (cs @ bs)" by (induction cs) auto
  moreover have "in_order c P ds \<Longrightarrow> in_order c P (as @ ds)" for ds by (induction as) auto
  ultimately show "in_order c P cs \<Longrightarrow> in_order c P (as @ cs @ bs)" by blast
qed

lemma in_order_split: "list_ex P bs \<Longrightarrow> in_order c P (as @ c # bs)"
  by (induction as) auto

definition follows :: "string \<Rightarrow> pod \<Rightarrow> call list \<Rightarrow> bool" where
  "follows ip p = in_order
     (Redis_call (admin_addr (podIP p)) (Slave_of ip (itoa DragonflyAdminPort)) (Inr ''OK''))
     (\<lambda>c. case c of
        Patch_pod old new (Inr _) \<Rightarrow> old = p \<and> go_lookup (podLabels new) RoleLabelKey = Some Replica \<and>
          go_lookup (podAnnotations new) MasterIpAnnotationKey = Some ip
      | _ \<Rightarrow> False)"

definition leads :: "pod \<Rightarrow> call list \<Rightarrow> bool" where
  "leads p = in_order (Redis_call (admin_addr (podIP p)) (Slave_of ''NO'' ''ONE'') (Inr ''OK''))
     (\<lambda>c. case c of
        Patch_pod old new (Inr _) \<Rightarrow> old = p \<and> go_lookup (podLabels new) RoleLabelKey = Some Master
      | _ \<Rightarrow> False)"

lemma follows_append: "follows ip p cs \<Longrightarrow> follows ip p (as @ cs @ bs)"
  unfolding follows_def by (rule in_order_append)

lemma follows_behind: "follows ip p cs \<Longrightarrow> follows ip p (as @ cs)"
  using follows_append [of ip p cs as "[]"] by simp

lemma leads_append: "leads p cs \<Longrightarrow> leads p (as @ cs @ bs)"
  unfolding leads_def by (rule in_order_append)

lemma leads_around: "leads p cs \<Longrightarrow> leads p (as @ cs)" "leads p cs \<Longrightarrow> leads p (cs @ bs)"
  using leads_append [of p cs as "[]"] leads_append [of p cs "[]" bs] by simp_all

lemma marked:
  assumes "podLabels p \<noteq> Nil_map"
  shows "\<exists>q. mark_replica p ip = Some q" and "\<exists>q. mark_master p = Some q"
  using assms by (cases "podLabels p"; cases "podAnnotations p"; auto simp: mark_replica_def mark_master_def)+

lemma achieves_config:
  assumes "cooperative E report repl"
  shows "achieves d (if b then wrap w (redis E c (Config_set k v)) else ret x) (\<lambda>_ cs e. e = d)"
  using cooperativeD(4) [OF assms] unfolding redis_def
  by (auto intro!: achieves_wrap achieves_perform achieves_ret)

lemma achieves_patch:
  assumes "cooperative E report repl" and "\<And>r. Q [Patch_pod p q (Inr r)]"
  shows "achieves d (patch_pod E p q)
    (\<lambda>x cs e. e = d \<and> podName x = podName q \<and> podIP x = podIP q \<and> Q cs)"
  unfolding patch_pod_def by (rule achieves_perform, use cooperativeD(5) [OF assms(1)] assms(2) in blast)

lemma achieves_slave_of:
  assumes "cooperative E report repl"
  shows "achieves d (map_error w (redis E c (Slave_of a b)))
    (\<lambda>x cs e. x = ''OK'' \<and> e = d \<and> cs = [Redis_call (rcAddr c) (Slave_of a b) (Inr ''OK'')])"
  unfolding redis_def by (intro achieves_wrap achieves_perform) (simp add: cooperativeD(3) [OF assms])

lemma achieves_replicaOfNoOne:
  assumes coop: "cooperative E report repl" and "podLabels p \<noteq> Nil_map"
  shows "achieves d (replicaOfNoOne E p)
    (\<lambda>x cs e. e = d \<and> podName x = podName p \<and> podIP x = podIP p \<and> leads p cs)"
proof -
  obtain q where q: "mark_master p = Some q" using marked(2) [OF assms(2)] by blast
  let ?slave = "Redis_call (admin_addr (podIP p)) (Slave_of ''NO'' ''ONE'') (Inr ''OK'')"
  have patch: "achieves d (patch_pod E p q)
    (\<lambda>x ds e. e = d \<and> podName x = podName p \<and> podIP x = podIP p \<and> leads p ([?slave] @ cs @ ds))" for cs
    by (rule achieves_weaken [OF achieves_patch [OF coop, where Q = "\<lambda>ds. leads p ([?slave] @ cs @ ds)"]])
      (use mark_master_labels [OF q] in \<open>auto simp: leads_def\<close>)
  show ?thesis
    unfolding replicaOfNoOne_def
    by (rule achieves_client, rule achieves_bnd [OF achieves_slave_of [OF coop]], simp, rule achieves_get_df,
        rule achieves_bnd, rule achieves_config [OF coop])
      (use patch in \<open>auto simp: patch_marked_def q\<close>)
qed

lemma achieves_replicaOf:
  assumes coop: "cooperative E report repl" and "podLabels p \<noteq> Nil_map"
  shows "achieves d (replicaOf E p ip) (\<lambda>x cs e. e = d \<and> follows (sanitizeIp ip) p cs)"
proof -
  let ?m = "sanitizeIp ip"
  let ?slave = "Redis_call (admin_addr (podIP p)) (Slave_of ?m (itoa DragonflyAdminPort)) (Inr ''OK'')"
  obtain q where q: "mark_replica p ?m = Some q" using marked(1) [OF assms(2)] by blast
  have role: "achieves d (hasMasterRole E (newRedisClient a)) (\<lambda>x cs e. e = d)" for a
    unfolding hasMasterRole_def redis_def
    by (rule achieves_bnd [where U = "\<lambda>x cs e. e = d"], rule achieves_perform)
      (auto simp: cooperativeD(2) [OF coop] intro: achieves_ret)
  have patch: "achieves d (patch_pod E p q) (\<lambda>x ds e. e = d \<and> follows ?m p (cs @ [?slave] @ ds))" for cs
    by (rule achieves_weaken [OF achieves_patch [OF coop, where Q = "\<lambda>ds. follows ?m p (cs @ [?slave] @ ds)"]])
      (use mark_replica_labels [OF q] in \<open>auto simp: follows_def intro!: in_order_split\<close>)
  have become: "achieves d (become_replica E (newRedisClient (podIP p)) p ?m)
      (\<lambda>x cs e. e = d \<and> follows ?m p cs)"
    unfolding become_replica_def
    by (rule achieves_get_df, rule achieves_bnd, rule achieves_config [OF coop], simp,
        rule achieves_bnd [OF achieves_slave_of [OF coop]])
      (use patch in \<open>auto simp: patch_marked_def q intro!: achieves_wrap\<close>)
  show ?thesis
    unfolding replicaOf_def
    by (rule achieves_client, rule achieves_bnd, rule achieves_wrap, rule role, simp,
        rule achieves_bnd, rule become)
      (auto simp: only_if_def intro!: achieves_bnd [OF achieves_disconnect] achieves_ret follows_append)
qed

lemma achieves_condition:
  assumes coop: "cooperative E report repl"
  shows "achieves d (patchReplicationReadyCondition E p b)
    (\<lambda>x cs e. e = d \<and> podName x = podName p \<and> podIP x = podIP p)"
proof -
  have patch: "achieves d (patch_pod_status E p q)
      (\<lambda>x cs e. e = d \<and> podName x = podName q \<and> podIP x = podIP q)" for q
    unfolding patch_pod_status_def by (rule achieves_perform, use cooperativeD(6) [OF coop] in blast)
  show ?thesis
    unfolding patchReplicationReadyCondition_def
    by (auto intro!: achieves_ret achieves_bnd [OF achieves_now] achieves_wrap
        intro: achieves_weaken [OF patch])
qed

lemma achieves_gate: "achieves d gate_enabled (\<lambda>x cs e. e = d)"
  unfolding gate_enabled_def by (intro achieves_get_df achieves_ret) simp

lemma achieves_patchStatus:
  assumes "cooperative E report repl"
  shows "achieves d (patchStatus E st) (\<lambda>x cs e. same_instance d e \<and> dfStatus e = st)"
proof (rule achievesI)
  fix s
  assume s: "clients_ok s" "df s = d"
  obtain e where "envPatchDragonflyStatus E (history s) d (d\<lparr>dfStatus := st\<rparr>) = Inr e"
    and "same_instance d e" and "dfStatus e = st"
    using cooperativeD(7) [OF assms, of "history s" d "d\<lparr>dfStatus := st\<rparr>"] by auto
  with s show "\<exists>x t cs. patchStatus E st s = (Ok x, t) \<and> clients_ok t \<and> history t = history s @ cs \<and>
      same_instance d (df t) \<and> dfStatus (df t) = st"
    by (auto simp: patchStatus_def patch_dragonfly_status_def run_simps perform_def clients_ok_def)
qed

lemma achieves_other_pod:
  assumes coop: "cooperative E report repl" and "podLabels p \<noteq> Nil_map"
  shows "achieves d (configure_other_pod E master p) (\<lambda>x cs e. e = d \<and>
    (podName p \<noteq> podName master \<and> pod_ready report p \<longrightarrow>
     follows (sanitizeIp (podIP master)) p cs))"
  unfolding configure_other_pod_def only_if_def configureReplica_def
  by (auto intro!: achieves_ret achieves_bnd [OF achieves_isPodReady [OF coop]]
      achieves_bnd [OF achieves_replicaOf [OF coop assms(2)]] achieves_bnd [OF achieves_gate]
      achieves_bnd [OF achieves_stable] achieves_bnd [OF achieves_condition [OF coop]]
      follows_append)

lemma achieves_others:
  assumes coop: "cooperative E report repl" and "\<forall>p\<in>set ps. podLabels p \<noteq> Nil_map"
  shows "achieves d (for_each (configure_other_pod E master) ps) (\<lambda>x cs e. e = d \<and>
    (\<forall>p\<in>set ps. podName p \<noteq> podName master \<and> pod_ready report p \<longrightarrow>
       follows (sanitizeIp (podIP master)) p cs))"
  by (rule achieves_for_each) (use assms(2) in \<open>auto intro: achieves_other_pod [OF coop] follows_append\<close>)

text \<open>The sample cluster cooperates.\<close>

abbreviation sample_repl :: "string \<Rightarrow> string" where
  "sample_repl a \<equiv> sample_info a ''replication''"

lemma sample_cooperates: "cooperative (sample_env ps) sample_report sample_repl"
  unfolding cooperative_def using sample_reports by simp

end
