(* ===== verification/Resources.thy ===== *)
theory Resources
  imports Effects Sample_Cluster
begin

section \<open>Generation of the owned objects\<close>

text \<open>
  \<^verbatim>\<open>internal/resources/resources.go\<close> and the embedded scripts of \<^verbatim>\<open>scripts.go\<close>:
  \<^verbatim>\<open>GenerateDragonflyResources\<close> turns a custom resource into the objects the operator
  creates. The function of the source builds the StatefulSet and then changes it in one
  \<^verbatim>\<open>if\<close> after the other; each such \<^verbatim>\<open>if\<close> is one stage here, a function on the StatefulSet,
  and the stages are composed in the order of the source.
\<close>

subsection \<open>Labels and annotations\<close>

definition operatorManagedLabels :: "string list" where
  "operatorManagedLabels =
     [KubernetesAppComponentLabelKey, KubernetesAppInstanceLabelKey, KubernetesAppNameLabelKey,
      KubernetesAppVersionLabelKey, KubernetesPartOfLabelKey, KubernetesManagedByLabelKey,
      DragonflyNameLabelKey]"

text \<open>
  \<^verbatim>\<open>checkLabels\<close>, with \<open>None\<close> for no error. The source ranges over a map, whose order is
  not specified: when several keys collide the error names one of them, here the first
  one in the order above.
\<close>

definition checkLabels :: "string \<Rightarrow> string gomap \<Rightarrow> gerror option" where
  "checkLabels field labels =
     (case find (\<lambda>key. go_lookup labels key \<noteq> None) operatorManagedLabels of
        None \<Rightarrow> None
      | Some key \<Rightarrow>
          Some (Error_string
            (field @ '': cannot override operator-managed label '' @ [CHR 0x22] @ key @ [CHR 0x22])))"

definition generateResourceLabels :: "dragonfly \<Rightarrow> string gomap" where
  "generateResourceLabels d =
     (let labels =
        [KubernetesAppComponentLabelKey \<mapsto> KubernetesAppComponent,
         KubernetesAppInstanceLabelKey \<mapsto> dfName d,
         KubernetesAppNameLabelKey \<mapsto> KubernetesAppName,
         KubernetesAppVersionLabelKey \<mapsto> Version,
         KubernetesPartOfLabelKey \<mapsto> KubernetesPartOf,
         KubernetesManagedByLabelKey \<mapsto> DragonflyOperatorName,
         DragonflyNameLabelKey \<mapsto> dfName d]
      in case specOwnedObjectsMetadata (dfSpec d) of
           None \<Rightarrow> Go_map labels
         | Some md \<Rightarrow> Go_map (maps_copy labels (mdLabels md)))"

definition generateResourceAnnotations :: "dragonfly \<Rightarrow> string gomap" where
  "generateResourceAnnotations d =
     (case specOwnedObjectsMetadata (dfSpec d) of
        None \<Rightarrow> Go_map Map.empty
      | Some md \<Rightarrow> Go_map (maps_copy Map.empty (mdAnnotations md)))"

text \<open>The literal map of the selectors, of the template labels and of the snapshot claim.\<close>

definition selector_labels :: "dragonfly \<Rightarrow> string \<Rightarrow> string option" where
  "selector_labels d =
     [DragonflyNameLabelKey \<mapsto> dfName d,
      KubernetesPartOfLabelKey \<mapsto> KubernetesPartOf,
      KubernetesAppNameLabelKey \<mapsto> KubernetesAppName]"

definition owned_meta :: "dragonfly \<Rightarrow> string \<Rightarrow> object_meta" where
  "owned_meta d name =
     \<lparr>omName = name, omNamespace = dfNamespace d,
      omLabels = generateResourceLabels d, omAnnotations = generateResourceAnnotations d,
      omOwnerReferences =
        [\<lparr>orAPIVersion = dfAPIVersion d, orKind = dfKind d, orName = dfName d, orUID = dfUID d,
          orController = None\<rparr>]\<rparr>"

subsection \<open>Probes\<close>

text \<open>A custom probe: the reference is set and names a ConfigMap.\<close>

definition custom_probe :: "string option \<Rightarrow> bool" where
  "custom_probe c = (case c of None \<Rightarrow> False | Some name \<Rightarrow> name \<noteq> '''')"

definition hasCustomProbes :: "dragonfly \<Rightarrow> bool" where
  "hasCustomProbes d =
     (custom_probe (specCustomLivenessProbeConfigMap (dfSpec d)) \<or>
      custom_probe (specCustomReadinessProbeConfigMap (dfSpec d)) \<or>
      custom_probe (specCustomStartupProbeConfigMap (dfSpec d)))"

definition probeConfigMapName :: "string \<Rightarrow> string \<Rightarrow> string option \<Rightarrow> string" where
  "probeConfigMapName name sfx custom =
     (case custom of
        None \<Rightarrow> name @ ''-'' @ sfx
      | Some c \<Rightarrow> if c \<noteq> '''' then c else name @ ''-'' @ sfx)"

definition generateProbeConfigMap :: "dragonfly \<Rightarrow> string \<Rightarrow> string \<Rightarrow> string \<Rightarrow> config_map" where
  "generateProbeConfigMap d name key script =
     \<lparr>cmMeta = owned_meta d name, cmData = Go_map [key \<mapsto> script], cmBinaryData = Nil_map\<rparr>"

text \<open>The embedded scripts, line by line; the dash of the comment is three bytes of UTF-8.\<close>

definition unlines :: "string list \<Rightarrow> string" where
  "unlines ls = concat (map (\<lambda>l. l @ [newline]) ls)"

definition quoted :: "string \<Rightarrow> string" where
  "quoted s = [CHR 0x22] @ s @ [CHR 0x22]"

definition script_head :: "string \<Rightarrow> string \<Rightarrow> string list" where
  "script_head comment cmd =
     [''#!/bin/sh'', '''', comment, '''', ''HOST='' @ quoted ''localhost'',
      ''PORT=${HEALTHCHECK_PORT:-9999}  # injected by operator '' @
        [CHR 0xE2, CHR 0x80, CHR 0x94] @ '' admin port, no TLS, no auth'',
      '''',
      ''RESPONSE=$(redis-cli -h '' @ quoted ''$HOST'' @ '' -p '' @ quoted ''$PORT'' @ '' '' @ cmd @
        '' 2>/dev/null)'',
      '''']"

definition ping_case :: "string list" where
  "ping_case =
     [''case '' @ quoted ''$RESPONSE'' @ '' in'',
      ''  PONG|*LOADING*) exit 0 ;;'',
      ''  *)              exit 1 ;;'',
      ''esac'']"

definition defaultLivenessScript :: string where
  "defaultLivenessScript =
     unlines (script_head ''# Liveness: succeeds if Dragonfly responds (including LOADING).'' ''PING'' @
       ping_case)"

definition defaultReadinessScript :: string where
  "defaultReadinessScript =
     unlines (script_head
       ''# Readiness: succeeds only when dataset loading is complete (loading:0).''
       ''INFO persistence'' @
       [''if echo '' @ quoted ''$RESPONSE'' @ '' | grep -q '' @ quoted ''^loading:0'' @ ''; then'',
        ''  exit 0'',
        ''fi'',
        ''exit 1''])"

definition defaultStartupScript :: string where
  "defaultStartupScript =
     unlines (script_head ''# Startup: succeeds if Dragonfly responds (including LOADING).'' ''PING'' @
       ping_case)"

subsection \<open>Merging by name\<close>

definition mergeNamedSlices :: "'a slice \<Rightarrow> 'a slice \<Rightarrow> ('a \<Rightarrow> string) \<Rightarrow> 'a slice" where
  "mergeNamedSlices base override getName =
     (let existing = getName ` set (elems override)
      in Slice (elems override @ filter (\<lambda>item. getName item \<notin> existing) (elems base)))"

subsection \<open>Changing the StatefulSet\<close>

definition upd_pod_spec :: "(pod_spec \<Rightarrow> pod_spec) \<Rightarrow> statefulset \<Rightarrow> statefulset" where
  "upd_pod_spec f sts =
     sts\<lparr>stsSpec := (stsSpec sts)\<lparr>ssTemplate :=
       (ssTemplate (stsSpec sts))\<lparr>ptSpec := f (ptSpec (ssTemplate (stsSpec sts)))\<rparr>\<rparr>\<rparr>"

text \<open>\<^verbatim>\<open>Containers[0]\<close>: the literal has one container and no stage removes it.\<close>

fun upd_first :: "('a \<Rightarrow> 'a) \<Rightarrow> 'a slice \<Rightarrow> 'a slice" where
  "upd_first f (Slice (x # xs)) = Slice (f x # xs)"
| "upd_first f s = s"

definition upd_main :: "(container \<Rightarrow> container) \<Rightarrow> statefulset \<Rightarrow> statefulset" where
  "upd_main f = upd_pod_spec (\<lambda>ps. ps\<lparr>psContainers := upd_first f (psContainers ps)\<rparr>)"

definition add_args :: "string list \<Rightarrow> statefulset \<Rightarrow> statefulset" where
  "add_args args = upd_main (\<lambda>c. c\<lparr>cnArgs := go_append (cnArgs c) args\<rparr>)"

definition add_mount :: "volume_mount \<Rightarrow> statefulset \<Rightarrow> statefulset" where
  "add_mount m = upd_main (\<lambda>c. c\<lparr>cnVolumeMounts := go_append (cnVolumeMounts c) [m]\<rparr>)"

definition add_volume :: "volume \<Rightarrow> statefulset \<Rightarrow> statefulset" where
  "add_volume v = upd_pod_spec (\<lambda>ps. ps\<lparr>psVolumes := go_append (psVolumes ps) [v]\<rparr>)"

definition add_claim :: "pvc \<Rightarrow> statefulset \<Rightarrow> statefulset" where
  "add_claim c sts =
     sts\<lparr>stsSpec := (stsSpec sts)\<lparr>ssVolumeClaimTemplates :=
       go_append (ssVolumeClaimTemplates (stsSpec sts)) [c]\<rparr>\<rparr>"

definition plain_mount :: "string \<Rightarrow> string \<Rightarrow> volume_mount" where
  "plain_mount name path =
     \<lparr>vmName = name, vmMountPath = path, vmSubPath = '''', vmReadOnly = False, vmOther = no_payload\<rparr>"

subsection \<open>The literal\<close>

definition resolve_image :: "dragonfly \<Rightarrow> string \<Rightarrow> string" where
  "resolve_image d defaultDragonflyImage =
     (if specImage (dfSpec d) = '''' then
        if defaultDragonflyImage \<noteq> '''' then defaultDragonflyImage
        else DragonflyImage @ '':'' @ Version
      else specImage (dfSpec d))"

definition healthcheck_probe :: probe where
  "healthcheck_probe =
     \<lparr>prHandler = Exec_action [''/bin/sh'', ''/usr/local/bin/healthcheck.sh''],
      prFailureThreshold = 3, prInitialDelaySeconds = 10, prPeriodSeconds = 10,
      prSuccessThreshold = 1, prTimeoutSeconds = 5\<rparr>"

definition main_container :: "dragonfly \<Rightarrow> string \<Rightarrow> container" where
  "main_container d img =
     \<lparr>cnName = DragonflyContainerName, cnImage = img,
      cnPorts = Slice
        [\<lparr>cpName = DragonflyPortName, cpContainerPort = DragonflyPort\<rparr>,
         \<lparr>cpName = DragonflyAdminPortName, cpContainerPort = DragonflyAdminPort\<rparr>],
      cnArgs = Slice DefaultDragonflyArgs,
      cnEnv = go_append (specEnv (dfSpec d))
        [\<lparr>evName = ''HEALTHCHECK_PORT'', evValue = itoa DragonflyAdminPort, evValueFrom = None\<rparr>],
      cnReadinessProbe = Some healthcheck_probe,
      cnLivenessProbe = Some healthcheck_probe,
      cnStartupProbe = None,
      cnImagePullPolicy = specImagePullPolicy (dfSpec d),
      cnSecurityContext = None, cnResources = no_payload, cnVolumeMounts = Nil_slice,
      cnOther = no_payload\<rparr>"

definition base_pod_spec :: "dragonfly \<Rightarrow> string \<Rightarrow> pod_spec" where
  "base_pod_spec d img =
     \<lparr>psImagePullSecrets = specImagePullSecrets (dfSpec d),
      psEnableServiceLinks = Some False,
      psContainers = Slice [main_container d img],
      psInitContainers = Nil_slice, psReadinessGates = Nil_slice, psSecurityContext = None,
      psVolumes = Nil_slice, psAffinity = None, psNodeSelector = Nil_map,
      psTolerations = Nil_slice, psTopologySpreadConstraints = Nil_slice,
      psServiceAccountName = '''', psPriorityClassName = '''', psOther = no_payload\<rparr>"

definition base_statefulset :: "dragonfly \<Rightarrow> string \<Rightarrow> statefulset" where
  "base_statefulset d img =
     \<lparr>stsMeta = owned_meta d (dfName d),
      stsSpec =
        \<lparr>ssReplicas = Some (specReplicas (dfSpec d)),
         ssServiceName = dfName d,
         ssSelector = Some (Go_map (selector_labels d)),
         ssUpdateStrategy = OnDeleteStatefulSetStrategyType,
         ssPodManagementPolicy = '''',
         ssVolumeClaimTemplates = Nil_slice,
         ssTemplate =
           \<lparr>ptLabels = Go_map (selector_labels d), ptAnnotations = Go_map Map.empty,
            ptSpec = base_pod_spec d img\<rparr>,
         ssPvcRetentionPolicy = None, ssOther = no_payload\<rparr>,
      stsUpdateRevision = '''', stsUpdatedReplicas = 0, stsStatusReplicas = 0\<rparr>"

subsection \<open>The stages\<close>

definition set_readiness_gate :: "dragonfly \<Rightarrow> statefulset \<Rightarrow> statefulset" where
  "set_readiness_gate d sts =
     (if specEnableReplicationReadinessGate (dfSpec d)
      then upd_pod_spec (\<lambda>ps. ps\<lparr>psReadinessGates := Slice [ReplicationReadyConditionType]\<rparr>) sts
      else sts)"

definition set_policy :: "dragonfly \<Rightarrow> statefulset \<Rightarrow> statefulset" where
  "set_policy d sts =
     (if specPodManagementPolicy (dfSpec d) \<noteq> ''''
      then sts\<lparr>stsSpec := (stsSpec sts)\<lparr>ssPodManagementPolicy := specPodManagementPolicy (dfSpec d)\<rparr>\<rparr>
      else sts)"

definition set_init_containers :: "dragonfly \<Rightarrow> statefulset \<Rightarrow> statefulset" where
  "set_init_containers d sts =
     (if elems (specInitContainers (dfSpec d)) \<noteq> []
      then upd_pod_spec (\<lambda>ps. ps\<lparr>psInitContainers := specInitContainers (dfSpec d)\<rparr>) sts
      else sts)"

abbreviation dflyUserGroup :: int where "dflyUserGroup \<equiv> 999"

definition set_pod_security :: "dragonfly \<Rightarrow> statefulset \<Rightarrow> statefulset" where
  "set_pod_security d sts =
     (case specPodSecurityContext (dfSpec d) of
        None \<Rightarrow>
          if \<not> specSkipFSGroup (dfSpec d)
          then upd_pod_spec (\<lambda>ps. ps\<lparr>psSecurityContext :=
                 Some \<lparr>pscFSGroup = Some dflyUserGroup, pscOther = no_payload\<rparr>\<rparr>) sts
          else sts
      | Some sc \<Rightarrow> upd_pod_spec (\<lambda>ps. ps\<lparr>psSecurityContext := Some sc\<rparr>) sts)"

definition set_container_security :: "dragonfly \<Rightarrow> statefulset \<Rightarrow> statefulset" where
  "set_container_security d sts =
     (case specContainerSecurityContext (dfSpec d) of
        None \<Rightarrow> sts
      | Some sc \<Rightarrow> upd_main (\<lambda>c. c\<lparr>cnSecurityContext := Some sc\<rparr>) sts)"

definition set_resources :: "dragonfly \<Rightarrow> statefulset \<Rightarrow> statefulset" where
  "set_resources d sts =
     (case specResources (dfSpec d) of
        None \<Rightarrow> sts
      | Some r \<Rightarrow> upd_main (\<lambda>c. c\<lparr>cnResources := r\<rparr>) sts)"

definition set_args :: "dragonfly \<Rightarrow> statefulset \<Rightarrow> statefulset" where
  "set_args d sts =
     (case specArgs (dfSpec d) of Nil_slice \<Rightarrow> sts | Slice args \<Rightarrow> add_args args sts)"

definition set_memcached :: "dragonfly \<Rightarrow> statefulset \<Rightarrow> statefulset" where
  "set_memcached d sts =
     (if specMemcachedPort (dfSpec d) \<noteq> 0
      then upd_main (\<lambda>c. c\<lparr>cnPorts := go_append (cnPorts c)
               [\<lparr>cpName = MemcachedPortName, cpContainerPort = specMemcachedPort (dfSpec d)\<rparr>]\<rparr>)
             (add_args [MemcachedPortArg @ ''='' @ itoa (specMemcachedPort (dfSpec d))] sts)
      else sts)"

definition set_acl :: "dragonfly \<Rightarrow> statefulset \<Rightarrow> statefulset" where
  "set_acl d sts =
     (case specAclFromSecret (dfSpec d) of
        None \<Rightarrow> sts
      | Some acl \<Rightarrow>
          add_args [AclFileArg @ ''='' @ AclDir @ ''/'' @ AclFileName]
            (add_mount (plain_mount AclVolumeName AclDir)
              (add_volume \<lparr>volName = AclVolumeName,
                 volSource = Secret_source (sksName acl) [(sksKey acl, AclFileName)]\<rparr> sts)))"

definition set_tiering :: "dragonfly \<Rightarrow> statefulset \<Rightarrow> statefulset" where
  "set_tiering d sts =
     (case specTiering (dfSpec d) of
        None \<Rightarrow> sts
      | Some t \<Rightarrow>
          add_args [''--tiered_prefix='' @ ''/dragonfly/tiering'' @ ''/'' @ ''vol'']
            (case tierPvcSpec t of
               None \<Rightarrow> sts
             | Some claim \<Rightarrow>
                 add_mount (plain_mount ''tiering'' ''/dragonfly/tiering'')
                   (add_claim \<lparr>pvcName = ''tiering'', pvcLabels = generateResourceLabels d,
                      pvcAnnotations = generateResourceAnnotations d, pvcSpec = claim,
                      pvcOther = no_payload\<rparr> sts)))"

text \<open>The two checks of the snapshot fields, and the stage for fields that pass them.\<close>

definition check_snapshot :: "dragonfly \<Rightarrow> gerror option" where
  "check_snapshot d =
     (case specSnapshot (dfSpec d) of
        None \<Rightarrow> None
      | Some sn \<Rightarrow>
          if snapPvcSpec sn \<noteq> None \<and> snapExistingPvcName sn \<noteq> ''''
          then Some (Error_string
            ''persistentVolumeClaimSpec and existingPersistentVolumeClaimName are mutually exclusive'')
          else if snapCron sn \<noteq> '''' \<and> snapPvcSpec sn = None \<and>
                  snapExistingPvcName sn = '''' \<and> snapDir sn = ''''
          then Some (Error_string ''cron specified without a persistent volume claim'')
          else None)"

definition set_snapshot :: "dragonfly \<Rightarrow> statefulset \<Rightarrow> statefulset" where
  "set_snapshot d sts0 =
     (case specSnapshot (dfSpec d) of
        None \<Rightarrow> sts0
      | Some sn \<Rightarrow>
          (let snapshotDir = (if snapDir sn = '''' then SnapshotsDir else snapDir sn);
               sts1 = (case snapPvcSpec sn of
                   None \<Rightarrow> sts0
                 | Some claim \<Rightarrow>
                     add_mount (plain_mount SnapshotsVolumeName snapshotDir)
                       (add_claim \<lparr>pvcName = SnapshotsVolumeName,
                          pvcLabels = Go_map (selector_labels d), pvcAnnotations = Nil_map,
                          pvcSpec = claim, pvcOther = no_payload\<rparr> sts0));
               sts2 = (if snapExistingPvcName sn \<noteq> ''''
                 then add_mount (plain_mount SnapshotsVolumeName snapshotDir)
                        (add_volume \<lparr>volName = SnapshotsVolumeName,
                           volSource = Pvc_source (snapExistingPvcName sn)\<rparr> sts1)
                 else sts1);
               sts3 = add_args [SnapshotsDirArg @ ''='' @ snapshotDir] sts2
           in if snapCron sn \<noteq> ''''
              then add_args [SnapshotsCronArg @ ''='' @ snapCron sn] sts3
              else sts3))"

definition set_tls :: "dragonfly \<Rightarrow> statefulset \<Rightarrow> statefulset" where
  "set_tls d sts =
     (case specTLSSecretRef (dfSpec d) of
        None \<Rightarrow> sts
      | Some secret \<Rightarrow>
          add_args
            [NoTLSOnAdminPortArg, TLSArg,
             TLSCertPathArg @ ''='' @ TLSDir @ ''/'' @ TLSCertFileName,
             TLSKeyPathArg @ ''='' @ TLSDir @ ''/'' @ TLSKeyFileName]
            (add_mount ((plain_mount TLSVolumeName TLSDir)\<lparr>vmReadOnly := True\<rparr>)
              (add_volume \<lparr>volName = TLSVolumeName, volSource = Secret_source (srName secret) []\<rparr> sts)))"

text \<open>Deprecated fields first, then \<^verbatim>\<open>podMetadata\<close> wins; the template's maps are never nil.\<close>

definition copy_into :: "string gomap \<Rightarrow> string gomap \<Rightarrow> string gomap" where
  "copy_into dst src = Go_map (maps_copy (go_lookup dst) src)"

definition upd_template :: "(pod_template \<Rightarrow> pod_template) \<Rightarrow> statefulset \<Rightarrow> statefulset" where
  "upd_template f sts =
     sts\<lparr>stsSpec := (stsSpec sts)\<lparr>ssTemplate := f (ssTemplate (stsSpec sts))\<rparr>\<rparr>"

definition set_pod_metadata :: "dragonfly \<Rightarrow> statefulset \<Rightarrow> statefulset" where
  "set_pod_metadata d sts =
     upd_template (\<lambda>t.
       let annotations = copy_into (ptAnnotations t) (specAnnotations (dfSpec d));
           labels = copy_into (ptLabels t) (specLabels (dfSpec d))
       in case specPodMetadata (dfSpec d) of
            None \<Rightarrow> t\<lparr>ptLabels := labels, ptAnnotations := annotations\<rparr>
          | Some md \<Rightarrow> t\<lparr>ptLabels := copy_into labels (mdLabels md),
                          ptAnnotations := copy_into annotations (mdAnnotations md)\<rparr>) sts"

definition set_scheduling :: "dragonfly \<Rightarrow> statefulset \<Rightarrow> statefulset" where
  "set_scheduling d sts =
     (let sp = dfSpec d in
      upd_pod_spec (\<lambda>ps. ps
        \<lparr>psAffinity := (case specAffinity sp of None \<Rightarrow> psAffinity ps | Some a \<Rightarrow> Some a),
         psNodeSelector :=
           (case specNodeSelector sp of Nil_map \<Rightarrow> psNodeSelector ps | Go_map m \<Rightarrow> Go_map m),
         psTolerations :=
           (case specTolerations sp of Nil_slice \<Rightarrow> psTolerations ps | Slice ts \<Rightarrow> Slice ts),
         psTopologySpreadConstraints :=
           (case specTopologySpreadConstraints sp of
              Nil_slice \<Rightarrow> psTopologySpreadConstraints ps | Slice ts \<Rightarrow> Slice ts),
         psServiceAccountName :=
           (if specServiceAccountName sp \<noteq> '''' then specServiceAccountName sp
            else psServiceAccountName ps),
         psPriorityClassName :=
           (if specPriorityClassName sp \<noteq> '''' then specPriorityClassName sp
            else psPriorityClassName ps)\<rparr>) sts)"

definition set_password :: "authentication \<Rightarrow> statefulset \<Rightarrow> statefulset" where
  "set_password auth sts =
     (case authPasswordFromSecret auth of
        None \<Rightarrow> sts
      | Some secret \<Rightarrow>
          upd_main (\<lambda>c. c\<lparr>cnEnv := go_append (cnEnv c)
            [\<lparr>evName = ''DFLY_requirepass'', evValue = '''',
              evValueFrom = Some (Secret_key_ref secret)\<rparr>]\<rparr>) sts)"

definition set_client_ca :: "authentication \<Rightarrow> statefulset \<Rightarrow> statefulset" where
  "set_client_ca auth sts =
     (case authClientCaCertSecret auth of
        None \<Rightarrow> sts
      | Some secret \<Rightarrow>
          add_args [TLSCACertPathArg @ ''='' @ TLSCACertDir @ ''/'' @ TLSCACertFileName]
            (add_mount (plain_mount TLSCACertVolumeName TLSCACertDir)
              (add_volume \<lparr>volName = TLSCACertVolumeName,
                 volSource = Secret_source (sksName secret) [(sksKey secret, TLSCACertFileName)]\<rparr> sts)))"

definition set_authentication :: "dragonfly \<Rightarrow> statefulset \<Rightarrow> statefulset" where
  "set_authentication d sts =
     (case specAuthentication (dfSpec d) of
        None \<Rightarrow> sts
      | Some auth \<Rightarrow> set_client_ca auth (set_password auth sts))"

subsection \<open>Custom probes\<close>

definition probe_script_mount :: "string \<Rightarrow> string \<Rightarrow> volume_mount" where
  "probe_script_mount volumeName scriptKey =
     (plain_mount volumeName (ProbeMountPath @ ''/'' @ scriptKey))\<lparr>vmSubPath := scriptKey\<rparr>"

definition appendProbeVolumesAndMounts ::
  "string \<Rightarrow> string \<Rightarrow> string \<Rightarrow> statefulset \<Rightarrow> statefulset" where
  "appendProbeVolumesAndMounts livenessCM readinessCM startupCM sts =
     fold (\<lambda>(volumeName, configMapName, scriptKey) s.
         add_mount (probe_script_mount volumeName scriptKey)
           (add_volume \<lparr>volName = volumeName, volSource = Config_map_source configMapName\<rparr> s))
       [(LivenessProbeVolumeName, livenessCM, LivenessScriptKey),
        (ReadinessProbeVolumeName, readinessCM, ReadinessScriptKey),
        (StartupProbeVolumeName, startupCM, StartupScriptKey)] sts"

definition script_command :: "string \<Rightarrow> probe_handler" where
  "script_command key = Exec_action [''/bin/sh'', ProbeMountPath @ ''/'' @ key]"

definition use_probe_scripts :: "container \<Rightarrow> container" where
  "use_probe_scripts c =
     c\<lparr>cnReadinessProbe :=
         map_option (\<lambda>p. p\<lparr>prHandler := script_command ReadinessScriptKey\<rparr>) (cnReadinessProbe c),
       cnLivenessProbe :=
         map_option (\<lambda>p. p\<lparr>prHandler := script_command LivenessScriptKey\<rparr>) (cnLivenessProbe c),
       cnStartupProbe := Some
         \<lparr>prHandler = script_command StartupScriptKey, prFailureThreshold = 60,
          prInitialDelaySeconds = 0, prPeriodSeconds = 5, prSuccessThreshold = 1,
          prTimeoutSeconds = 5\<rparr>\<rparr>"

definition liveness_cm :: "dragonfly \<Rightarrow> string" where
  "liveness_cm d = probeConfigMapName (dfName d) LivenessProbeConfigMapSuffix
     (specCustomLivenessProbeConfigMap (dfSpec d))"

definition readiness_cm :: "dragonfly \<Rightarrow> string" where
  "readiness_cm d = probeConfigMapName (dfName d) ReadinessProbeConfigMapSuffix
     (specCustomReadinessProbeConfigMap (dfSpec d))"

definition startup_cm :: "dragonfly \<Rightarrow> string" where
  "startup_cm d = probeConfigMapName (dfName d) StartupProbeConfigMapSuffix
     (specCustomStartupProbeConfigMap (dfSpec d))"

definition set_probes :: "dragonfly \<Rightarrow> statefulset \<Rightarrow> statefulset" where
  "set_probes d sts =
     (if hasCustomProbes d
      then appendProbeVolumesAndMounts (liveness_cm d) (readiness_cm d) (startup_cm d)
             (upd_main use_probe_scripts sts)
      else sts)"

text \<open>The ConfigMaps of the probes the user did not replace.\<close>

definition probe_config_maps :: "dragonfly \<Rightarrow> k8s_object list" where
  "probe_config_maps d =
     (if \<not> hasCustomProbes d then []
      else
        (if custom_probe (specCustomLivenessProbeConfigMap (dfSpec d)) then []
         else [O_ConfigMap (generateProbeConfigMap d (liveness_cm d) LivenessScriptKey
                 defaultLivenessScript)]) @
        (if custom_probe (specCustomReadinessProbeConfigMap (dfSpec d)) then []
         else [O_ConfigMap (generateProbeConfigMap d (readiness_cm d) ReadinessScriptKey
                 defaultReadinessScript)]) @
        (if custom_probe (specCustomStartupProbeConfigMap (dfSpec d)) then []
         else [O_ConfigMap (generateProbeConfigMap d (startup_cm d) StartupScriptKey
                 defaultStartupScript)]))"

subsection \<open>What the user adds\<close>

definition set_additional_mounts :: "dragonfly \<Rightarrow> statefulset \<Rightarrow> statefulset" where
  "set_additional_mounts d =
     upd_main (\<lambda>c. c\<lparr>cnVolumeMounts :=
       mergeNamedSlices (cnVolumeMounts c) (specAdditionalVolumeMounts (dfSpec d)) vmName\<rparr>)"

definition set_additional_containers :: "dragonfly \<Rightarrow> statefulset \<Rightarrow> statefulset" where
  "set_additional_containers d =
     upd_pod_spec (\<lambda>ps. ps\<lparr>psContainers :=
       mergeNamedSlices (psContainers ps) (specAdditionalContainers (dfSpec d)) cnName\<rparr>)"

definition set_additional_volumes :: "dragonfly \<Rightarrow> statefulset \<Rightarrow> statefulset" where
  "set_additional_volumes d =
     upd_pod_spec (\<lambda>ps. ps\<lparr>psVolumes :=
       mergeNamedSlices (psVolumes ps) (specAdditionalVolumes (dfSpec d)) volName\<rparr>)"

definition set_pvc_retention :: "dragonfly \<Rightarrow> statefulset \<Rightarrow> statefulset" where
  "set_pvc_retention d sts =
     (case specPvcRetentionPolicy (dfSpec d) of
        None \<Rightarrow> sts
      | Some policy \<Rightarrow> sts\<lparr>stsSpec := (stsSpec sts)\<lparr>ssPvcRetentionPolicy := Some policy\<rparr>\<rparr>)"

subsection \<open>The objects\<close>

text \<open>
  The stages in the order of the source, first to last: those that finish the main
  container, and the merges with what the user adds.
\<close>

definition build_main :: "dragonfly \<Rightarrow> string \<Rightarrow> statefulset" where
  "build_main d defaultDragonflyImage =
     fold (\<lambda>stage sts. stage d sts)
       [set_readiness_gate, set_policy, set_init_containers, set_pod_security,
        set_container_security, set_resources, set_args, set_memcached, set_acl, set_tiering,
        set_snapshot, set_tls, set_pod_metadata, set_scheduling, set_authentication, set_probes]
       (base_statefulset d (resolve_image d defaultDragonflyImage))"

definition generate_statefulset :: "dragonfly \<Rightarrow> string \<Rightarrow> statefulset" where
  "generate_statefulset d defaultDragonflyImage =
     set_pvc_retention d
       (set_additional_volumes d
         (set_additional_containers d
           (set_additional_mounts d (build_main d defaultDragonflyImage))))"

definition upd_service_spec :: "(k8s_service_spec \<Rightarrow> k8s_service_spec) \<Rightarrow> service \<Rightarrow> service" where
  "upd_service_spec f svc = svc\<lparr>svcSpec := f (svcSpec svc)\<rparr>"

definition base_service :: "dragonfly \<Rightarrow> service" where
  "base_service d =
     \<lparr>svcMeta = owned_meta d
        (case specServiceSpec (dfSpec d) of
           None \<Rightarrow> dfName d
         | Some sp \<Rightarrow> if sspName sp \<noteq> '''' then sspName sp else dfName d),
      svcSpec =
        \<lparr>svSelector = Go_map
           [DragonflyNameLabelKey \<mapsto> dfName d,
            KubernetesAppNameLabelKey \<mapsto> KubernetesAppName,
            RoleLabelKey \<mapsto> Master],
         svPorts = Slice
           [\<lparr>svpName = DragonflyPortName, svpPort = DragonflyPort, svpNodePort = 0,
             svpOther = no_payload\<rparr>],
         svType = '''', svClusterIP = '''', svIPFamilies = Nil_slice, svIPFamilyPolicy = None,
         svExternalTrafficPolicy = '''', svHealthCheckNodePort = 0, svLoadBalancerClass = None,
         svOther = no_payload\<rparr>\<rparr>"

definition apply_service_spec :: "service_spec \<Rightarrow> service \<Rightarrow> service" where
  "apply_service_spec sp svc =
     svc\<lparr>svcMeta := (svcMeta svc)
           \<lparr>omAnnotations := copy_into (omAnnotations (svcMeta svc)) (sspAnnotations sp),
            omLabels := copy_into (omLabels (svcMeta svc)) (sspLabels sp)\<rparr>,
         svcSpec := (svcSpec svc)
           \<lparr>svType := sspType sp,
            svPorts := upd_first (\<lambda>p. p\<lparr>svpNodePort := sspNodePort sp\<rparr>) (svPorts (svcSpec svc))\<rparr>\<rparr>"

definition generate_service :: "dragonfly \<Rightarrow> service" where
  "generate_service d =
     (let svc = (case specServiceSpec (dfSpec d) of
            None \<Rightarrow> base_service d
          | Some sp \<Rightarrow> apply_service_spec sp (base_service d))
      in if specMemcachedPort (dfSpec d) \<noteq> 0
         then upd_service_spec (\<lambda>sp. sp\<lparr>svPorts := go_append (svPorts sp)
                [\<lparr>svpName = MemcachedPortName, svpPort = specMemcachedPort (dfSpec d),
                  svpNodePort = 0, svpOther = no_payload\<rparr>]\<rparr>) svc
         else svc)"

text \<open>The two bounds of the disruption budget, at most one of them set.\<close>

definition pdb_bounds :: "dragonfly \<Rightarrow> int_or_string option \<times> int_or_string option" where
  "pdb_bounds d =
     (case specPdb (dfSpec d) of
        None \<Rightarrow> (Some (Int_val 1), None)
      | Some p \<Rightarrow>
          if pdbMaxUnavailable p = None \<and> pdbMinAvailable p = None then (Some (Int_val 1), None)
          else if pdbMaxUnavailable p \<noteq> None then (pdbMaxUnavailable p, None)
          else (None, pdbMinAvailable p))"

definition generate_pdb :: "dragonfly \<Rightarrow> pdb" where
  "generate_pdb d =
     \<lparr>pdbMeta = owned_meta d (dfName d),
      pdbSpec =
        \<lparr>pdSelector = Some (Go_map (selector_labels d)),
         pdMaxUnavailable = fst (pdb_bounds d),
         pdMinAvailable = snd (pdb_bounds d),
         pdOther = no_payload\<rparr>\<rparr>"

text \<open>The four label checks, in the order of the source; the first error is returned.\<close>

definition check_user_labels :: "dragonfly \<Rightarrow> gerror option" where
  "check_user_labels d =
     (let sp = dfSpec d;
          checks =
            [checkLabels ''spec.labels'' (specLabels sp)] @
            (case specPodMetadata sp of None \<Rightarrow> []
               | Some md \<Rightarrow> [checkLabels ''spec.podMetadata.labels'' (mdLabels md)]) @
            (case specOwnedObjectsMetadata sp of None \<Rightarrow> []
               | Some md \<Rightarrow> [checkLabels ''spec.ownedObjectsMetadata.labels'' (mdLabels md)]) @
            (case specServiceSpec sp of None \<Rightarrow> []
               | Some ss \<Rightarrow> [checkLabels ''spec.serviceSpec.labels'' (sspLabels ss)])
      in case find (\<lambda>r. r \<noteq> None) checks of None \<Rightarrow> None | Some r \<Rightarrow> r)"

definition GenerateDragonflyResources :: "dragonfly \<Rightarrow> string \<Rightarrow> gerror + k8s_object list" where
  "GenerateDragonflyResources d defaultDragonflyImage =
     (case check_user_labels d of
        Some err \<Rightarrow> Inl err
      | None \<Rightarrow>
          (case check_snapshot d of
             Some err \<Rightarrow> Inl err
           | None \<Rightarrow>
               Inr (probe_config_maps d @
                    [O_StatefulSet (generate_statefulset d defaultDragonflyImage),
                     O_Service (generate_service d)] @
                    (if specReplicas (dfSpec d) > 1 then [O_PDB (generate_pdb d)] else []))))"

subsection \<open>Accessors of \<^verbatim>\<open>client.Object\<close>\<close>

fun obj_meta :: "k8s_object \<Rightarrow> object_meta" where
  "obj_meta (O_StatefulSet x) = stsMeta x"
| "obj_meta (O_Service x) = svcMeta x"
| "obj_meta (O_ConfigMap x) = cmMeta x"
| "obj_meta (O_PDB x) = pdbMeta x"

fun set_obj_meta :: "object_meta \<Rightarrow> k8s_object \<Rightarrow> k8s_object" where
  "set_obj_meta m (O_StatefulSet x) = O_StatefulSet (x\<lparr>stsMeta := m\<rparr>)"
| "set_obj_meta m (O_Service x) = O_Service (x\<lparr>svcMeta := m\<rparr>)"
| "set_obj_meta m (O_ConfigMap x) = O_ConfigMap (x\<lparr>cmMeta := m\<rparr>)"
| "set_obj_meta m (O_PDB x) = O_PDB (x\<lparr>pdbMeta := m\<rparr>)"

subsection \<open>The label checks\<close>

lemma checkLabels_None_iff:
  "checkLabels field labels = None \<longleftrightarrow> (\<forall>k\<in>set operatorManagedLabels. go_lookup labels k = None)"
proof -
  have "checkLabels field labels = None \<longleftrightarrow>
      find (\<lambda>k. go_lookup labels k \<noteq> None) operatorManagedLabels = None"
    by (simp add: checkLabels_def split: option.splits)
  then show ?thesis by (auto simp: find_None_iff)
qed

text \<open>The maps of labels the user gives.\<close>

definition user_label_maps :: "dragonfly \<Rightarrow> string gomap list" where
  "user_label_maps d =
     (let sp = dfSpec d in
      [specLabels sp] @
      (case specPodMetadata sp of None \<Rightarrow> [] | Some md \<Rightarrow> [mdLabels md]) @
      (case specOwnedObjectsMetadata sp of None \<Rightarrow> [] | Some md \<Rightarrow> [mdLabels md]) @
      (case specServiceSpec sp of None \<Rightarrow> [] | Some ss \<Rightarrow> [sspLabels ss]))"

definition overrides_managed_label :: "dragonfly \<Rightarrow> bool" where
  "overrides_managed_label d =
     list_ex (\<lambda>m. list_ex (\<lambda>k. go_lookup m k \<noteq> None) operatorManagedLabels) (user_label_maps d)"

lemma check_user_labels_None_iff: "check_user_labels d = None \<longleftrightarrow> \<not> overrides_managed_label d"
proof -
  have find: "(case find (\<lambda>r. r \<noteq> None) rs of None \<Rightarrow> None | Some r \<Rightarrow> r) = None \<longleftrightarrow> list_all (\<lambda>r. r = None) rs"
    for rs :: "gerror option list"
    by (induction rs) auto
  show ?thesis
    unfolding check_user_labels_def Let_def find
    by (auto simp: checkLabels_None_iff overrides_managed_label_def user_label_maps_def list_ex_iff
        split: option.splits)
qed

lemma checked_labels:
  assumes "check_user_labels d = None" and "k \<in> set operatorManagedLabels"
  shows "go_lookup (specLabels (dfSpec d)) k = None"
    and "specPodMetadata (dfSpec d) = Some md \<Longrightarrow> go_lookup (mdLabels md) k = None"
    and "specOwnedObjectsMetadata (dfSpec d) = Some md \<Longrightarrow> go_lookup (mdLabels md) k = None"
    and "specServiceSpec (dfSpec d) = Some ss \<Longrightarrow> go_lookup (sspLabels ss) k = None"
  using assms
  by (auto simp: check_user_labels_None_iff overrides_managed_label_def user_label_maps_def
      list_ex_iff Let_def)

subsection \<open>The contract of the stages\<close>

text \<open>
  A predicate on the StatefulSet that survives the elementary changes survives every
  stage, hence holds of the generated StatefulSet once it holds of the literal. The
  elementary changes: a container or pod field that is neither the arguments nor the
  mounts nor the volumes, more arguments, a volume or a claim with its mount, and the
  metadata of the template.
\<close>

abbreviation sts_pod_spec :: "statefulset \<Rightarrow> pod_spec" where
  "sts_pod_spec sts \<equiv> ptSpec (ssTemplate (stsSpec sts))"

definition plain_pod_change :: "(pod_spec \<Rightarrow> pod_spec) \<Rightarrow> bool" where
  "plain_pod_change f \<longleftrightarrow>
     (\<forall>ps. psContainers (f ps) = psContainers ps \<and> psVolumes (f ps) = psVolumes ps)"

definition plain_container_change :: "(container \<Rightarrow> container) \<Rightarrow> bool" where
  "plain_container_change g \<longleftrightarrow>
     (\<forall>c. cnName (g c) = cnName c \<and> cnArgs (g c) = cnArgs c \<and> cnVolumeMounts (g c) = cnVolumeMounts c)"

locale stage_contract =
  fixes d :: dragonfly and I :: "statefulset \<Rightarrow> bool"
  assumes plain_pod: "I sts \<Longrightarrow> plain_pod_change f \<Longrightarrow> I (upd_pod_spec f sts)"
    and plain_container: "I sts \<Longrightarrow> plain_container_change g \<Longrightarrow> I (upd_main g sts)"
    and more_args: "I sts \<Longrightarrow> I (add_args args sts)"
    and mounted_volume: "I sts \<Longrightarrow> vmName m = volName v \<Longrightarrow> I (add_mount m (add_volume v sts))"
    and mounted_claim: "I sts \<Longrightarrow> vmName m = pvcName c \<Longrightarrow> I (add_mount m (add_claim c sts))"
    and policy: "I sts \<Longrightarrow> I (sts\<lparr>stsSpec := (stsSpec sts)\<lparr>ssPodManagementPolicy := pol\<rparr>\<rparr>)"
    and metadata: "I sts \<Longrightarrow> I (set_pod_metadata d sts)"
begin

lemma set_readiness_gate_ok: "I sts \<Longrightarrow> I (set_readiness_gate d sts)"
  by (simp add: set_readiness_gate_def plain_pod plain_pod_change_def)

lemma set_policy_ok: "I sts \<Longrightarrow> I (set_policy d sts)"
  by (simp add: set_policy_def policy)

lemma set_init_containers_ok: "I sts \<Longrightarrow> I (set_init_containers d sts)"
  by (simp add: set_init_containers_def plain_pod plain_pod_change_def)

lemma set_pod_security_ok: "I sts \<Longrightarrow> I (set_pod_security d sts)"
  by (simp add: set_pod_security_def plain_pod plain_pod_change_def split: option.split)

lemma set_container_security_ok: "I sts \<Longrightarrow> I (set_container_security d sts)"
  by (simp add: set_container_security_def plain_container plain_container_change_def split: option.split)

lemma set_resources_ok: "I sts \<Longrightarrow> I (set_resources d sts)"
  by (simp add: set_resources_def plain_container plain_container_change_def split: option.split)

lemma set_args_ok: "I sts \<Longrightarrow> I (set_args d sts)"
  by (simp add: set_args_def more_args split: slice.split)

lemma set_memcached_ok: "I sts \<Longrightarrow> I (set_memcached d sts)"
  by (simp add: set_memcached_def plain_container more_args plain_container_change_def)

lemma set_acl_ok: "I sts \<Longrightarrow> I (set_acl d sts)"
  by (simp add: set_acl_def more_args mounted_volume plain_mount_def split: option.split)

lemma set_tiering_ok: "I sts \<Longrightarrow> I (set_tiering d sts)"
  by (simp add: set_tiering_def more_args mounted_claim plain_mount_def split: option.split)

lemma set_snapshot_ok: "I sts \<Longrightarrow> I (set_snapshot d sts)"
  by (simp add: set_snapshot_def Let_def more_args mounted_claim mounted_volume plain_mount_def
      split: option.split)

lemma set_tls_ok: "I sts \<Longrightarrow> I (set_tls d sts)"
  by (simp add: set_tls_def more_args mounted_volume plain_mount_def split: option.split)

lemma set_scheduling_ok: "I sts \<Longrightarrow> I (set_scheduling d sts)"
  by (simp add: set_scheduling_def Let_def plain_pod plain_pod_change_def)

lemma set_authentication_ok: "I sts \<Longrightarrow> I (set_authentication d sts)"
  by (simp add: set_authentication_def set_password_def set_client_ca_def more_args mounted_volume
      plain_container plain_container_change_def plain_mount_def split: option.split)

lemma set_probes_ok: "I sts \<Longrightarrow> I (set_probes d sts)"
  by (simp add: set_probes_def appendProbeVolumesAndMounts_def mounted_volume plain_container
      plain_container_change_def use_probe_scripts_def probe_script_mount_def plain_mount_def)

lemma build_main_ok:
  assumes "I (base_statefulset d (resolve_image d img))"
  shows "I (build_main d img)"
  using assms
  by (simp add: build_main_def set_readiness_gate_ok set_policy_ok set_init_containers_ok
      set_pod_security_ok set_container_security_ok set_resources_ok set_args_ok set_memcached_ok
      set_acl_ok set_tiering_ok set_snapshot_ok set_tls_ok metadata set_scheduling_ok
      set_authentication_ok set_probes_ok)

end

subsection \<open>The identity of the StatefulSet and its labels\<close>

definition sts_frame :: "statefulset \<Rightarrow> object_meta \<times> int option \<times> string \<times> string gomap option" where
  "sts_frame sts = (stsMeta sts, ssReplicas (stsSpec sts), ssServiceName (stsSpec sts), ssSelector (stsSpec sts))"

definition sts_labels :: "statefulset \<Rightarrow> string gomap" where
  "sts_labels sts = ptLabels (ssTemplate (stsSpec sts))"

lemmas sts_updates =
  upd_pod_spec_def upd_main_def add_args_def add_mount_def add_volume_def add_claim_def
  upd_template_def set_additional_mounts_def set_additional_containers_def
  set_additional_volumes_def set_pvc_retention_def set_pod_metadata_def

interpretation sts_frame: stage_contract d "\<lambda>sts. sts_frame sts = fr" for d fr
  by unfold_locales (simp_all add: sts_frame_def sts_updates Let_def)

lemma generate_frame: "sts_frame (generate_statefulset d img) = sts_frame (base_statefulset d img')"
proof -
  have "sts_frame (base_statefulset d (resolve_image d img)) = sts_frame (base_statefulset d img')"
    by (simp add: sts_frame_def base_statefulset_def)
  then have "sts_frame (build_main d img) = sts_frame (base_statefulset d img')"
    by (rule sts_frame.build_main_ok)
  then show ?thesis
    by (simp add: generate_statefulset_def sts_frame_def sts_updates split: option.split)
qed

text \<open>The template keeps the labels of the selector: the checks keep the user's off them.\<close>

definition selected_template :: "dragonfly \<Rightarrow> statefulset \<Rightarrow> bool" where
  "selected_template d sts \<longleftrightarrow>
     (\<forall>k v. selector_labels d k = Some v \<longrightarrow> go_lookup (sts_labels sts) k = Some v)"

lemma copy_into_lookup: "go_lookup (copy_into m n) k = (case go_lookup n k of None \<Rightarrow> go_lookup m k | Some v \<Rightarrow> Some v)"
  by (simp add: copy_into_def maps_copy_lookup)

lemma selector_labels_managed: "selector_labels d k = Some v \<Longrightarrow> k \<in> set operatorManagedLabels"
  by (auto simp: selector_labels_def operatorManagedLabels_def split: if_splits)

lemma metadata_keeps_selected:
  assumes "check_user_labels d = None" and "selected_template d sts"
  shows "selected_template d (set_pod_metadata d sts)"
  unfolding selected_template_def
proof (intro allI impI)
  fix k v
  assume kv: "selector_labels d k = Some v"
  note free = checked_labels [OF assms(1) selector_labels_managed [OF kv]]
  from assms(2) kv have "go_lookup (sts_labels sts) k = Some v"
    by (simp add: selected_template_def)
  with free show "go_lookup (sts_labels (set_pod_metadata d sts)) k = Some v"
    by (auto simp: sts_labels_def set_pod_metadata_def upd_template_def Let_def copy_into_lookup
        split: option.split)
qed

lemma base_selected: "selected_template d (base_statefulset d img)"
  by (simp add: selected_template_def sts_labels_def base_statefulset_def)

interpretation selected: stage_contract d "\<lambda>sts. check_user_labels d = None \<longrightarrow> selected_template d sts" for d
  by unfold_locales
    (simp_all add: metadata_keeps_selected, simp_all add: selected_template_def sts_labels_def sts_updates)

lemma generate_selected:
  assumes "check_user_labels d = None"
  shows "selected_template d (generate_statefulset d img)"
proof -
  have "check_user_labels d = None \<longrightarrow> selected_template d (build_main d img)"
    by (rule selected.build_main_ok) (simp add: base_selected)
  with assms show ?thesis
    by (simp add: generate_statefulset_def selected_template_def sts_labels_def sts_updates
        split: option.split)
qed

text \<open>A label of the pod metadata is on the template, whatever it was before.\<close>

definition user_labelled :: "dragonfly \<Rightarrow> statefulset \<Rightarrow> bool" where
  "user_labelled d sts \<longleftrightarrow>
     (case specPodMetadata (dfSpec d) of
        None \<Rightarrow> True
      | Some md \<Rightarrow> \<forall>k v. go_lookup (mdLabels md) k = Some v \<longrightarrow> go_lookup (sts_labels sts) k = Some v)"

lemma metadata_labels: "user_labelled d (set_pod_metadata d sts)"
  by (auto simp: user_labelled_def sts_labels_def set_pod_metadata_def upd_template_def Let_def
      copy_into_lookup split: option.split)

interpretation user_labelled: stage_contract d "user_labelled d" for d
  by unfold_locales
    (simp_all add: metadata_labels,
      simp_all add: user_labelled_def sts_labels_def sts_updates split: option.splits)

lemma generate_user_labelled: "user_labelled d (generate_statefulset d img)"
proof -
  have "user_labelled d (build_main d img)"
    by (simp add: build_main_def metadata_labels user_labelled.set_scheduling_ok
        user_labelled.set_authentication_ok user_labelled.set_probes_ok)
  then show ?thesis
    by (simp add: generate_statefulset_def user_labelled_def sts_labels_def sts_updates
        split: option.splits)
qed

subsection \<open>The main container: its arguments and its mounts\<close>

definition main_of :: "statefulset \<Rightarrow> container option" where
  "main_of sts = (case elems (psContainers (sts_pod_spec sts)) of [] \<Rightarrow> None | c # _ \<Rightarrow> Some c)"

lemma elems_upd_first: "elems (upd_first f xs) = (case elems xs of [] \<Rightarrow> [] | y # ys \<Rightarrow> f y # ys)"
proof (cases xs)
  case (Slice ys)
  then show ?thesis by (cases ys) simp_all
qed simp

lemma main_of_updates [simp]:
  "main_of (upd_main g sts) = map_option g (main_of sts)"
  "main_of (add_args args sts) = map_option (\<lambda>c. c\<lparr>cnArgs := go_append (cnArgs c) args\<rparr>) (main_of sts)"
  "main_of (add_mount m sts) = map_option (\<lambda>c. c\<lparr>cnVolumeMounts := go_append (cnVolumeMounts c) [m]\<rparr>) (main_of sts)"
  "main_of (add_volume v sts) = main_of sts"
  "main_of (add_claim c sts) = main_of sts"
  "main_of (set_pod_metadata d sts) = main_of sts"
  "main_of (sts\<lparr>stsSpec := (stsSpec sts)\<lparr>ssPodManagementPolicy := pol\<rparr>\<rparr>) = main_of sts"
  "plain_pod_change f \<Longrightarrow> main_of (upd_pod_spec f sts) = main_of sts"
  by (simp_all add: main_of_def sts_updates Let_def plain_pod_change_def elems_upd_first
      split: option.split list.split)

definition default_args_first :: "statefulset \<Rightarrow> bool" where
  "default_args_first sts \<longleftrightarrow>
     (case main_of sts of
        None \<Rightarrow> False
      | Some c \<Rightarrow> cnName c = DragonflyContainerName \<and> prefix DefaultDragonflyArgs (elems (cnArgs c)))"

interpretation default_args: stage_contract d default_args_first for d
  by unfold_locales
    (auto simp: default_args_first_def plain_container_change_def split: option.splits)

lemma build_main_args: "default_args_first (build_main d img)"
  by (rule default_args.build_main_ok)
    (simp add: default_args_first_def main_of_def base_statefulset_def base_pod_spec_def main_container_def)

text \<open>The names a mount can refer to: the volumes of the pod and the claims of the StatefulSet.\<close>

definition volume_names :: "statefulset \<Rightarrow> string set" where
  "volume_names sts =
     volName ` set (elems (psVolumes (sts_pod_spec sts))) \<union>
     pvcName ` set (elems (ssVolumeClaimTemplates (stsSpec sts)))"

lemma volume_names_updates [simp]:
  "volume_names (upd_main g sts) = volume_names sts"
  "volume_names (add_args args sts) = volume_names sts"
  "volume_names (add_mount m sts) = volume_names sts"
  "volume_names (add_volume v sts) = insert (volName v) (volume_names sts)"
  "volume_names (add_claim c sts) = insert (pvcName c) (volume_names sts)"
  "volume_names (set_pod_metadata d sts) = volume_names sts"
  "volume_names (sts\<lparr>stsSpec := (stsSpec sts)\<lparr>ssPodManagementPolicy := pol\<rparr>\<rparr>) = volume_names sts"
  "plain_pod_change f \<Longrightarrow> volume_names (upd_pod_spec f sts) = volume_names sts"
  by (auto simp: volume_names_def sts_updates Let_def plain_pod_change_def split: option.split)

definition mounts_backed :: "statefulset \<Rightarrow> bool" where
  "mounts_backed sts \<longleftrightarrow>
     (\<forall>c. main_of sts = Some c \<longrightarrow> (\<forall>m\<in>set (elems (cnVolumeMounts c)). vmName m \<in> volume_names sts))"

interpretation mounts: stage_contract d mounts_backed for d
  by unfold_locales (auto simp: mounts_backed_def plain_container_change_def)

lemma build_main_mounts: "mounts_backed (build_main d img)"
  by (rule mounts.build_main_ok)
    (simp add: mounts_backed_def main_of_def base_statefulset_def base_pod_spec_def main_container_def)

text \<open>The literal has one container, and no stage adds one before the user's are merged in.\<close>

definition one_container :: "statefulset \<Rightarrow> bool" where
  "one_container sts \<longleftrightarrow> (\<exists>c. psContainers (sts_pod_spec sts) = Slice [c])"

interpretation one_container: stage_contract d one_container for d
  by unfold_locales
    (auto simp: one_container_def sts_updates Let_def plain_pod_change_def split: option.split)

lemma build_main_one: "one_container (build_main d img)"
  by (rule one_container.build_main_ok) (simp add: one_container_def base_statefulset_def base_pod_spec_def)

subsection \<open>The labels of the owned objects\<close>

definition operator_labels :: "dragonfly \<Rightarrow> string \<Rightarrow> string option" where
  "operator_labels d =
     [KubernetesAppComponentLabelKey \<mapsto> KubernetesAppComponent,
      KubernetesAppInstanceLabelKey \<mapsto> dfName d,
      KubernetesAppNameLabelKey \<mapsto> KubernetesAppName,
      KubernetesAppVersionLabelKey \<mapsto> Version,
      KubernetesPartOfLabelKey \<mapsto> KubernetesPartOf,
      KubernetesManagedByLabelKey \<mapsto> DragonflyOperatorName,
      DragonflyNameLabelKey \<mapsto> dfName d]"

lemma generateResourceLabels_alt:
  "generateResourceLabels d =
     (case specOwnedObjectsMetadata (dfSpec d) of
        None \<Rightarrow> Go_map (operator_labels d)
      | Some md \<Rightarrow> Go_map (maps_copy (operator_labels d) (mdLabels md)))"
  unfolding generateResourceLabels_def operator_labels_def Let_def ..

lemma generated_labels:
  assumes "check_user_labels d = None" and "k \<in> set operatorManagedLabels"
  shows "go_lookup (generateResourceLabels d) k = operator_labels d k"
  using checked_labels(3) [OF assms]
  by (auto simp: generateResourceLabels_alt maps_copy_lookup split: option.split)

definition owned_by_instance :: "dragonfly \<Rightarrow> k8s_object \<Rightarrow> bool" where
  "owned_by_instance d x \<longleftrightarrow>
     omNamespace (obj_meta x) = dfNamespace d \<and>
     map orUID (omOwnerReferences (obj_meta x)) = [dfUID d] \<and>
     list_all (\<lambda>k. go_lookup (omLabels (obj_meta x)) k = operator_labels d k) operatorManagedLabels"

lemma owned_meta_owned:
  assumes "check_user_labels d = None" and "obj_meta x = owned_meta d n"
  shows "owned_by_instance d x"
  using assms generated_labels [OF assms(1)] by (simp add: owned_by_instance_def owned_meta_def list_all_iff)

lemma service_owned:
  assumes "check_user_labels d = None"
  shows "owned_by_instance d (O_Service (generate_service d))"
proof -
  have base: "owned_by_instance d (O_Service (base_service d))"
    by (rule owned_meta_owned [OF assms, of _ "omName (svcMeta (base_service d))"])
      (simp add: base_service_def owned_meta_def split: option.split)
  have "owned_by_instance d (O_Service (apply_service_spec sp (base_service d)))"
    if "specServiceSpec (dfSpec d) = Some sp" for sp
    using base checked_labels(4) [OF assms _ that]
    by (simp add: owned_by_instance_def apply_service_spec_def copy_into_lookup list_all_iff split: option.split)
  with base show ?thesis
    by (simp add: generate_service_def Let_def upd_service_spec_def owned_by_instance_def split: option.split)
qed

lemma probe_maps_owned:
  assumes "check_user_labels d = None" and "x \<in> set (probe_config_maps d)"
  shows "owned_by_instance d x"
proof -
  from assms(2) obtain n where "obj_meta x = owned_meta d n"
    by (auto simp: probe_config_maps_def generateProbeConfigMap_def split: if_splits)
  with assms(1) show ?thesis by (rule owned_meta_owned)
qed

lemma generate_meta: "stsMeta (generate_statefulset d img) = owned_meta d (dfName d)"
  using generate_frame [of d img img] by (simp add: sts_frame_def base_statefulset_def)

lemma Generate_Inr_iff:
  "GenerateDragonflyResources d img = Inr objs \<longleftrightarrow>
     check_user_labels d = None \<and> check_snapshot d = None \<and>
     objs = probe_config_maps d @ [O_StatefulSet (generate_statefulset d img), O_Service (generate_service d)] @
       (if specReplicas (dfSpec d) > 1 then [O_PDB (generate_pdb d)] else [])"
  by (auto simp: GenerateDragonflyResources_def split: option.split)

lemma generated_statefulset:
  assumes "GenerateDragonflyResources d img = Inr objs" and "O_StatefulSet sts \<in> set objs"
  shows "sts = generate_statefulset d img"
  using assms by (auto simp: Generate_Inr_iff probe_config_maps_def split: if_splits)

subsection \<open>Merging by name: facts\<close>

lemma elems_merge:
  "elems (mergeNamedSlices base over nm) =
     elems over @ filter (\<lambda>x. nm x \<notin> nm ` set (elems over)) (elems base)"
  by (simp add: mergeNamedSlices_def Let_def)

lemma merge_names: "nm ` set (elems (mergeNamedSlices base over nm)) = nm ` set (elems over) \<union> nm ` set (elems base)"
  by (auto simp: elems_merge)

subsection \<open>Properties\<close>

text \<open>C33: The objects are refused exactly when a label the user gives overrides one the operator
  manages, or the snapshot fields contradict each other (two kinds of volume claim at once, or
  a schedule with nowhere to write).\<close>

theorem generation_error_iff:
  "(\<exists>err. GenerateDragonflyResources d img = Inl err) \<longleftrightarrow>
     overrides_managed_label d \<or>
     (case specSnapshot (dfSpec d) of
        None \<Rightarrow> False
      | Some sn \<Rightarrow>
          snapPvcSpec sn \<noteq> None \<and> snapExistingPvcName sn \<noteq> '''' \<or>
          snapCron sn \<noteq> '''' \<and> snapPvcSpec sn = None \<and> snapExistingPvcName sn = '''' \<and> snapDir sn = '''')"
proof -
  have "(\<exists>err. GenerateDragonflyResources d img = Inl err) \<longleftrightarrow>
      check_user_labels d \<noteq> None \<or> check_snapshot d \<noteq> None"
    by (auto simp: GenerateDragonflyResources_def split: option.split)
  then show ?thesis
    by (auto simp: check_user_labels_None_iff check_snapshot_def split: option.split)
qed

text \<open>C21: Every generated object belongs to the instance: it is in its namespace, its only owner is
  the custom resource, and each label the operator manages has the operator's value, whatever
  labels the user adds.\<close>

theorem generated_objects_owned:
  assumes "GenerateDragonflyResources d img = Inr objs" and "x \<in> set objs"
  shows "owned_by_instance d x"
proof -
  from assms(1) have ok: "check_user_labels d = None" by (simp add: Generate_Inr_iff)
  have "owned_by_instance d (O_StatefulSet (generate_statefulset d img))"
    by (rule owned_meta_owned [OF ok, of _ "dfName d"]) (simp add: generate_meta)
  moreover have "owned_by_instance d (O_PDB (generate_pdb d))"
    by (rule owned_meta_owned [OF ok, of _ "dfName d"]) (simp add: generate_pdb_def)
  ultimately show ?thesis
    using assms service_owned [OF ok] probe_maps_owned [OF ok]
    by (auto simp: Generate_Inr_iff split: if_splits)
qed

text \<open>C22: The selector of the generated StatefulSet matches the labels of its own pod template (the
  API server refuses it otherwise), whatever labels the user gives the pods, and it is the
  selector with which the operator lists the pods of the instance.\<close>

theorem selector_matches_template:
  assumes "GenerateDragonflyResources d img = Inr objs" and "O_StatefulSet sts \<in> set objs"
  shows "ssSelector (stsSpec sts) = Some (Go_map (selector_labels d)) \<and>
    (selector_labels d k = Some v \<longrightarrow> go_lookup (ptLabels (ssTemplate (stsSpec sts))) k = Some v)"
proof -
  from assms have sts: "sts = generate_statefulset d img" and ok: "check_user_labels d = None"
    by (simp_all add: generated_statefulset Generate_Inr_iff)
  have "ssSelector (stsSpec sts) = Some (Go_map (selector_labels d))"
    using generate_frame [of d img img] by (simp add: sts sts_frame_def base_statefulset_def)
  with generate_selected [OF ok, of img] show ?thesis
    by (simp add: sts selected_template_def sts_labels_def)
qed

text \<open>C32: The Dragonfly container of the generated StatefulSet, unless the user replaces it by an
  additional container of the same name, starts with the operator's default arguments, and
  each of its mounts that the user did not add refers to a volume of the pod or a claim of
  the StatefulSet.\<close>

theorem main_container_well_formed:
  assumes "GenerateDragonflyResources d img = Inr objs" and "O_StatefulSet sts \<in> set objs"
    and "c \<in> set (elems (psContainers (sts_pod_spec sts)))"
    and "c \<notin> set (elems (specAdditionalContainers (dfSpec d)))"
  shows "cnName c = DragonflyContainerName \<and> prefix DefaultDragonflyArgs (elems (cnArgs c)) \<and>
    list_all (\<lambda>m. m \<in> set (elems (specAdditionalVolumeMounts (dfSpec d))) \<or> vmName m \<in> volume_names sts)
      (elems (cnVolumeMounts c))"
proof -
  from assms(1,2) have sts: "sts = generate_statefulset d img" by (simp add: generated_statefulset)
  obtain b where b: "psContainers (sts_pod_spec (build_main d img)) = Slice [b]"
    using build_main_one by (auto simp: one_container_def)
  then have main: "main_of (build_main d img) = Some b" by (simp add: main_of_def)
  have c: "c = b\<lparr>cnVolumeMounts := mergeNamedSlices (cnVolumeMounts b) (specAdditionalVolumeMounts (dfSpec d)) vmName\<rparr>"
    using assms(3,4) b
    by (auto simp: sts generate_statefulset_def sts_updates elems_merge split: option.splits if_splits)
  have names: "volume_names (build_main d img) \<subseteq> volume_names sts"
    by (simp add: sts volume_names_def generate_statefulset_def sts_updates merge_names le_supI1 le_supI2
        split: option.split)
  show ?thesis
    using build_main_args [of d img] build_main_mounts [of d img] names main
    by (auto simp: c default_args_first_def mounts_backed_def elems_merge list_all_iff)
qed

text \<open>A custom resource whose pod metadata gives one label more.\<close>

definition with_pod_label :: "string \<Rightarrow> string \<Rightarrow> dragonfly \<Rightarrow> dragonfly" where
  "with_pod_label key v d =
     d\<lparr>dfSpec := (dfSpec d)\<lparr>specPodMetadata := Some
       (case specPodMetadata (dfSpec d) of
          None \<Rightarrow> \<lparr>mdAnnotations = Nil_map, mdLabels = Go_map [key \<mapsto> v]\<rparr>
        | Some md \<Rightarrow> md\<lparr>mdLabels := Go_map ((go_lookup (mdLabels md))(key \<mapsto> v))\<rparr>)\<rparr>\<rparr>"

lemma with_pod_label_checked:
  assumes "check_user_labels d = None" and "key \<notin> set operatorManagedLabels"
  shows "check_user_labels (with_pod_label key v d) = None"
  using assms
  by (auto simp: check_user_labels_None_iff overrides_managed_label_def user_label_maps_def
      with_pod_label_def list_ex_iff Let_def split: option.splits if_splits)

text \<open>C40: The labels by which the operator marks the roles are not among those it refuses: when a
  custom resource is accepted, then so is the same one with the label of the role, or of the
  master's address, added to its pod metadata, with any value, and every pod of the instance starts
  with that value.\<close>

theorem user_role_reaches_pods:
  assumes "GenerateDragonflyResources d img = Inr objs" and "key \<in> {RoleLabelKey, MasterIpLabelKey}"
  shows "\<exists>objs' sts. GenerateDragonflyResources (with_pod_label key v d) img = Inr objs' \<and>
    O_StatefulSet sts \<in> set objs' \<and> go_lookup (ptLabels (ssTemplate (stsSpec sts))) key = Some v"
proof -
  let ?d = "with_pod_label key v d"
  have "key \<notin> set operatorManagedLabels" using assms(2) by (auto simp: operatorManagedLabels_def)
  then have "check_user_labels ?d = None"
    using assms(1) by (intro with_pod_label_checked) (simp_all add: Generate_Inr_iff)
  moreover have "check_snapshot ?d = None"
    using assms(1) by (simp add: Generate_Inr_iff check_snapshot_def with_pod_label_def)
  moreover have "go_lookup (ptLabels (ssTemplate (stsSpec (generate_statefulset ?d img)))) key = Some v"
    using generate_user_labelled [of ?d img]
    by (simp add: user_labelled_def sts_labels_def with_pod_label_def split: option.splits)
  ultimately show ?thesis by (simp add: Generate_Inr_iff) blast
qed

text \<open>Merging by name keeps the user's items, unchanged and first, and exactly those items of the
  operator whose name the user did not use; distinct names stay distinct.\<close>

lemma merge_prefers_user:
  assumes "distinct (map nm (elems base))" and "distinct (map nm (elems over))"
  shows "prefix (elems over) (elems (mergeNamedSlices base over nm)) \<and>
    distinct (map nm (elems (mergeNamedSlices base over nm))) \<and>
    nm ` set (elems (mergeNamedSlices base over nm)) = nm ` set (elems over) \<union> nm ` set (elems base) \<and>
    (x \<in> set (elems (mergeNamedSlices base over nm)) \<longleftrightarrow>
       x \<in> set (elems over) \<or> x \<in> set (elems base) \<and> nm x \<notin> nm ` set (elems over))"
proof (intro conjI)
  have "distinct (map nm (filter (\<lambda>y. nm y \<notin> nm ` set (elems over)) (elems base)))"
    using assms(1) by (rule distinct_map_filter)
  with assms(2) show "distinct (map nm (elems (mergeNamedSlices base over nm)))"
    by (auto simp: elems_merge intro: rev_image_eqI [OF _ sym])
  show "nm ` set (elems (mergeNamedSlices base over nm)) = nm ` set (elems over) \<union> nm ` set (elems base)"
    by (rule merge_names)
qed (auto simp: elems_merge)

text \<open>The generated disruption budget sets exactly one of its two bounds (the API server refuses
  both), and it is generated exactly for instances of more than one pod.\<close>

lemma budget_has_one_bound:
  assumes "GenerateDragonflyResources d img = Inr objs"
  shows "(pdMaxUnavailable (pdbSpec (generate_pdb d)) = None) \<noteq> (pdMinAvailable (pdbSpec (generate_pdb d)) = None) \<and>
    ((\<exists>p. O_PDB p \<in> set objs) \<longleftrightarrow> specReplicas (dfSpec d) > 1)"
  using assms
  by (auto simp: generate_pdb_def pdb_bounds_def Generate_Inr_iff probe_config_maps_def
      split: option.split if_splits)


subsection \<open>The sample instance\<close>

lemma sample_generated:
  "GenerateDragonflyResources (sample_df ph) img = Inr
     (probe_config_maps (sample_df ph) @
       [O_StatefulSet (generate_statefulset (sample_df ph) img), O_Service (generate_service (sample_df ph)),
        O_PDB (generate_pdb (sample_df ph))])"
  by (simp add: Generate_Inr_iff check_user_labels_None_iff overrides_managed_label_def
      check_snapshot_def user_label_maps_def list_ex_iff
      sample_df_def sample_spec_def)

lemma sample_container:
  "\<exists>c. c \<in> set (elems (psContainers (sts_pod_spec (generate_statefulset (sample_df ph) img))))"
proof -
  obtain b where "psContainers (sts_pod_spec (build_main (sample_df ph) img)) = Slice [b]"
    using build_main_one by (auto simp: one_container_def)
  then show ?thesis
    by (auto simp: generate_statefulset_def sts_updates elems_merge sample_df_def sample_spec_def
        split: option.splits)
qed

theorem user_role_reaches_pods_witness:
  "\<exists>objs sts. GenerateDragonflyResources (with_pod_label RoleLabelKey Master (sample_df PhaseReady)) ''img'' = Inr objs \<and>
     O_StatefulSet sts \<in> set objs \<and> go_lookup (ptLabels (ssTemplate (stsSpec sts))) RoleLabelKey = Some Master"
  by (rule user_role_reaches_pods [OF sample_generated]) simp

theorem generated_objects_owned_witness:
  "owned_by_instance (sample_df PhaseReady) (O_Service (generate_service (sample_df PhaseReady)))"
  by (rule generated_objects_owned [OF sample_generated [of PhaseReady "''img''"]]) simp

theorem selector_matches_template_witness:
  "go_lookup (ptLabels (ssTemplate (stsSpec (generate_statefulset (sample_df PhaseReady) ''img''))))
     DragonflyNameLabelKey = Some ''df''"
  using selector_matches_template [OF sample_generated [of PhaseReady "''img''"],
      of "generate_statefulset (sample_df PhaseReady) ''img''" DragonflyNameLabelKey "''df''"]
  by (simp add: selector_labels_def sample_df_def)

theorem main_container_well_formed_witness:
  "\<exists>c. c \<in> set (elems (psContainers (sts_pod_spec (generate_statefulset (sample_df PhaseReady) ''img'')))) \<and>
     prefix DefaultDragonflyArgs (elems (cnArgs c))"
proof -
  obtain c where c: "c \<in> set (elems (psContainers (sts_pod_spec (generate_statefulset (sample_df PhaseReady) ''img''))))"
    using sample_container by blast
  have "prefix DefaultDragonflyArgs (elems (cnArgs c))"
    using main_container_well_formed [OF sample_generated [of PhaseReady "''img''"], OF _ c]
    by (simp add: sample_df_def sample_spec_def)
  with c show ?thesis by blast
qed

end
