(* ===== verification/Reconcile_Resources.thy ===== *)
theory Reconcile_Resources
  imports Resources Query_Contracts
begin

section \<open>Reconciling the owned objects\<close>

text \<open>
  \<^verbatim>\<open>reconcileResources\<close> of \<^verbatim>\<open>internal/controller/dragonfly_instance.go\<close> and its helpers:
  every generated object is created when it is missing, and patched when it differs from
  the live one in what may change. \<^verbatim>\<open>reflect.DeepEqual\<close> is equality (a nil map differs from
  an empty one), \<^verbatim>\<open>equality.Semantic.DeepEqual\<close> on maps compares the entries.
  \<^verbatim>\<open>controllerutil.SetControllerReference\<close> is not code of the repository: it is a
  parameter of the environment.
\<close>

subsection \<open>Volume claim templates\<close>

definition same_entries :: "'v gomap \<Rightarrow> 'v gomap \<Rightarrow> bool" where
  "same_entries m n = (go_lookup m = go_lookup n)"

definition defaultedPVCSpec :: "pvc_spec \<Rightarrow> pvc_spec" where
  "defaultedPVCSpec spec =
     (case pvcVolumeMode spec of
        None \<Rightarrow> spec\<lparr>pvcVolumeMode := Some PersistentVolumeFilesystem\<rparr>
      | Some mode \<Rightarrow> spec)"

definition claim_equal :: "pvc \<Rightarrow> pvc \<Rightarrow> bool" where
  "claim_equal d e =
     (if pvcName d \<noteq> pvcName e then False
      else if \<not> same_entries (pvcLabels d) (pvcLabels e) \<or>
              \<not> same_entries (pvcAnnotations d) (pvcAnnotations e) then False
      else if defaultedPVCSpec (pvcSpec d) \<noteq> defaultedPVCSpec (pvcSpec e) then False
      else True)"

definition volumeClaimTemplatesEqual :: "pvc slice \<Rightarrow> pvc slice \<Rightarrow> bool" where
  "volumeClaimTemplatesEqual desired existing =
     (if length (elems desired) \<noteq> length (elems existing) then False
      else list_all2 claim_equal (elems desired) (elems existing))"

subsection \<open>Fields that cannot change\<close>

definition immutable_events :: "k8s_object \<Rightarrow> k8s_object \<Rightarrow> unit prog" where
  "immutable_events desired existing =
     (case (desired, existing) of
        (O_StatefulSet d, O_StatefulSet e) \<Rightarrow>
          bnd (only_if (\<not> volumeClaimTemplatesEqual (ssVolumeClaimTemplates (stsSpec d))
                              (ssVolumeClaimTemplates (stsSpec e)))
                 (record_event EventTypeWarning ''ImmutableField''
                   ''VolumeClaimTemplates change ignored: delete and recreate the Dragonfly instance to apply PVC configuration changes'')) (\<lambda>_.
          only_if (podManagementPolicyOrDefault (ssPodManagementPolicy (stsSpec d)) \<noteq>
                   podManagementPolicyOrDefault (ssPodManagementPolicy (stsSpec e)))
            (record_event EventTypeWarning ''ImmutableField''
              ''PodManagementPolicy change ignored: delete and recreate the Dragonfly instance to apply it''))
      | _ \<Rightarrow> ret ())"

definition keep_statefulset :: "statefulset_spec \<Rightarrow> statefulset_spec \<Rightarrow> statefulset_spec" where
  "keep_statefulset d e =
     d\<lparr>ssVolumeClaimTemplates := ssVolumeClaimTemplates e, ssSelector := ssSelector e,
       ssServiceName := ssServiceName e, ssPodManagementPolicy := ssPodManagementPolicy e\<rparr>"

definition keep_node_port :: "service_port list \<Rightarrow> service_port \<Rightarrow> service_port" where
  "keep_node_port existing p =
     (case find (\<lambda>e. svpName p = svpName e) existing of
        None \<Rightarrow> p
      | Some e \<Rightarrow> p\<lparr>svpNodePort := svpNodePort e\<rparr>)"

fun map_slice :: "('a \<Rightarrow> 'b) \<Rightarrow> 'a slice \<Rightarrow> 'b slice" where
  "map_slice f Nil_slice = Nil_slice"
| "map_slice f (Slice xs) = Slice (map f xs)"

definition keep_ports :: "k8s_service_spec \<Rightarrow> k8s_service_spec \<Rightarrow> k8s_service_spec" where
  "keep_ports d e =
     (if svType d = ServiceTypeNodePort \<or> svType d = ServiceTypeLoadBalancer
      then d\<lparr>svPorts := map_slice (keep_node_port (elems (svPorts e))) (svPorts d)\<rparr>
      else d)"

definition keep_traffic_policy :: "k8s_service_spec \<Rightarrow> k8s_service_spec \<Rightarrow> k8s_service_spec" where
  "keep_traffic_policy d e =
     (if svType d = ServiceTypeNodePort \<or> svType d = ServiceTypeLoadBalancer
      then (let d' = d\<lparr>svExternalTrafficPolicy := svExternalTrafficPolicy e\<rparr>
            in if svType d = ServiceTypeLoadBalancer \<and>
                  svExternalTrafficPolicy e = ServiceExternalTrafficPolicyLocal
               then d'\<lparr>svHealthCheckNodePort := svHealthCheckNodePort e\<rparr> else d')
      else d)"

definition keep_lb_class :: "k8s_service_spec \<Rightarrow> k8s_service_spec \<Rightarrow> k8s_service_spec" where
  "keep_lb_class d e =
     (if svType d = ServiceTypeLoadBalancer
      then d\<lparr>svLoadBalancerClass := svLoadBalancerClass e\<rparr> else d)"

definition keep_service :: "k8s_service_spec \<Rightarrow> k8s_service_spec \<Rightarrow> k8s_service_spec" where
  "keep_service d e =
     keep_lb_class
       (keep_traffic_policy
         (keep_ports
           (d\<lparr>svClusterIP := svClusterIP e, svIPFamilies := svIPFamilies e,
              svIPFamilyPolicy := svIPFamilyPolicy e\<rparr>) e) e) e"

definition keep_immutable :: "k8s_object \<Rightarrow> k8s_object \<Rightarrow> k8s_object" where
  "keep_immutable desired existing =
     (case (desired, existing) of
        (O_StatefulSet d, O_StatefulSet e) \<Rightarrow>
          O_StatefulSet (d\<lparr>stsSpec := keep_statefulset (stsSpec d) (stsSpec e)\<rparr>)
      | (O_Service d, O_Service e) \<Rightarrow>
          O_Service (d\<lparr>svcSpec := keep_service (svcSpec d) (svcSpec e)\<rparr>)
      | _ \<Rightarrow> desired)"

subsection \<open>Comparing and copying the payload\<close>

definition resourceSpecsEqual :: "k8s_object \<Rightarrow> k8s_object \<Rightarrow> bool" where
  "resourceSpecsEqual desired existing =
     (if omLabels (obj_meta desired) \<noteq> omLabels (obj_meta existing) \<or>
         omAnnotations (obj_meta desired) \<noteq> omAnnotations (obj_meta existing)
      then False
      else case (desired, existing) of
             (O_ConfigMap d, O_ConfigMap e) \<Rightarrow> cmData d = cmData e
           | (O_StatefulSet d, O_StatefulSet e) \<Rightarrow> stsSpec d = stsSpec e
           | (O_Service d, O_Service e) \<Rightarrow> svcSpec d = svcSpec e
           | (O_PDB d, O_PDB e) \<Rightarrow> pdbSpec d = pdbSpec e
           | (O_ConfigMap _, _) \<Rightarrow> True
           | (_, O_ConfigMap _) \<Rightarrow> True
           | _ \<Rightarrow> False)"

definition copyDesiredPayload :: "k8s_object \<Rightarrow> k8s_object \<Rightarrow> k8s_object" where
  "copyDesiredPayload desired existing =
     (case (desired, existing) of
        (O_ConfigMap d, O_ConfigMap e) \<Rightarrow>
          O_ConfigMap (e\<lparr>cmData := cmData d, cmBinaryData := cmBinaryData d\<rparr>)
      | (O_StatefulSet d, O_StatefulSet e) \<Rightarrow> O_StatefulSet (e\<lparr>stsSpec := stsSpec d\<rparr>)
      | (O_Service d, O_Service e) \<Rightarrow> O_Service (e\<lparr>svcSpec := svcSpec d\<rparr>)
      | (O_PDB d, O_PDB e) \<Rightarrow> O_PDB (e\<lparr>pdbSpec := pdbSpec d\<rparr>)
      | _ \<Rightarrow> existing)"

text \<open>The object sent to the server: the live one with labels, annotations and payload replaced.\<close>

definition patched_object :: "k8s_object \<Rightarrow> k8s_object \<Rightarrow> k8s_object" where
  "patched_object desired existing =
     copyDesiredPayload desired
       (set_obj_meta ((obj_meta existing)
          \<lparr>omAnnotations := omAnnotations (obj_meta desired),
           omLabels := omLabels (obj_meta desired)\<rparr>) existing)"

subsection \<open>One object, all objects\<close>

definition set_controller_reference :: "env \<Rightarrow> k8s_object \<Rightarrow> k8s_object prog" where
  "set_controller_reference E x =
     bnd get_df (\<lambda>d.
     wrap ''failed to set controller reference''
       (case envSetControllerReference E d x of Inl e \<Rightarrow> fail e | Inr y \<Rightarrow> ret y))"

definition create_missing :: "env \<Rightarrow> k8s_object \<Rightarrow> unit prog" where
  "create_missing E desired =
     bnd (set_controller_reference E desired) (\<lambda>desired'.
     bnd (wrap ''failed to create resource'' (create_object E desired')) (\<lambda>_. ret ()))"

definition update_existing :: "env \<Rightarrow> k8s_object \<Rightarrow> k8s_object \<Rightarrow> unit prog" where
  "update_existing E desired existing =
     bnd (set_controller_reference E desired) (\<lambda>desired'.
     bnd (immutable_events desired' existing) (\<lambda>_.
     let wanted = keep_immutable desired' existing in
     if resourceSpecsEqual wanted existing then ret ()
     else bnd (wrap ''failed to patch resource''
                 (patch_object E existing (patched_object wanted existing))) (\<lambda>_. ret ())))"

definition reconcile_object :: "env \<Rightarrow> k8s_object \<Rightarrow> unit prog" where
  "reconcile_object E desired =
     bnd (attempt (get_object E desired)) (\<lambda>answer.
     case answer of
       Inl err \<Rightarrow>
         if \<not> is_not_found err then fail (Wrapped ''failed to get resource'' err)
         else create_missing E desired
     | Inr existing \<Rightarrow> update_existing E desired existing)"

definition remove_budget :: "env \<Rightarrow> unit prog" where
  "remove_budget E =
     bnd get_df (\<lambda>d.
     only_if (specReplicas (dfSpec d) < 2)
       (bnd (attempt (delete_pdb E (dfNamespace d) (dfName d))) (\<lambda>answer.
        case answer of
          Inl err \<Rightarrow>
            if \<not> is_not_found err
            then fail (Wrapped ''failed to delete pod disruption budget'' err) else ret ()
        | Inr _ \<Rightarrow> ret ())))"

definition start_phase :: "env \<Rightarrow> unit prog" where
  "start_phase E =
     bnd getStatus (\<lambda>status.
     only_if (statusPhase status = '''')
       (bnd (map_error (\<lambda>_. Error_string ''failed to update the dragonfly object'')
               (patchStatus E (status\<lparr>statusPhase := PhaseResourcesCreated\<rparr>))) (\<lambda>_.
        record_event EventTypeNormal ''Resources'' ''Created resources'')))"

definition reconcileResources :: "env \<Rightarrow> string \<Rightarrow> unit prog" where
  "reconcileResources E defaultDragonflyImage =
     bnd get_df (\<lambda>d.
     bnd (wrap ''failed to generate dragonfly resources''
            (case GenerateDragonflyResources d defaultDragonflyImage of
               Inl e \<Rightarrow> fail e | Inr objs \<Rightarrow> ret objs)) (\<lambda>dfResources.
     bnd (for_each (reconcile_object E) dfResources) (\<lambda>_.
     bnd (remove_budget E) (\<lambda>_.
     start_phase E))))"


subsection \<open>What a patch may change\<close>

fun obj_kind :: "k8s_object \<Rightarrow> string" where
  "obj_kind (O_StatefulSet _) = ''StatefulSet''"
| "obj_kind (O_Service _) = ''Service''"
| "obj_kind (O_ConfigMap _) = ''ConfigMap''"
| "obj_kind (O_PDB _) = ''PodDisruptionBudget''"

lemma obj_kind_cases:
  assumes "obj_kind x = obj_kind y"
  obtains (sts) a b where "x = O_StatefulSet a" "y = O_StatefulSet b"
  | (svc) a b where "x = O_Service a" "y = O_Service b"
  | (cm) a b where "x = O_ConfigMap a" "y = O_ConfigMap b"
  | (pdb) a b where "x = O_PDB a" "y = O_PDB b"
  using assms by (cases x; cases y) auto

definition node_ports_kept :: "k8s_service_spec \<Rightarrow> k8s_service_spec \<Rightarrow> bool" where
  "node_ports_kept old new \<longleftrightarrow>
     list_all (\<lambda>p. case find (\<lambda>e. svpName p = svpName e) (elems (svPorts old)) of
         None \<Rightarrow> True | Some e \<Rightarrow> svpNodePort p = svpNodePort e) (elems (svPorts new))"

definition service_fixed :: "k8s_service_spec \<Rightarrow> k8s_service_spec \<Rightarrow> bool" where
  "service_fixed old new \<longleftrightarrow>
     svClusterIP new = svClusterIP old \<and> svIPFamilies new = svIPFamilies old \<and>
     svIPFamilyPolicy new = svIPFamilyPolicy old \<and>
     (svType new = ServiceTypeLoadBalancer \<longrightarrow> svLoadBalancerClass new = svLoadBalancerClass old) \<and>
     (svType new = ServiceTypeNodePort \<or> svType new = ServiceTypeLoadBalancer \<longrightarrow>
        svExternalTrafficPolicy new = svExternalTrafficPolicy old \<and> node_ports_kept old new) \<and>
     (svType new = ServiceTypeLoadBalancer \<and> svExternalTrafficPolicy old = ServiceExternalTrafficPolicyLocal \<longrightarrow>
        svHealthCheckNodePort new = svHealthCheckNodePort old)"

definition statefulset_fixed :: "statefulset_spec \<Rightarrow> statefulset_spec \<Rightarrow> bool" where
  "statefulset_fixed old new \<longleftrightarrow>
     ssVolumeClaimTemplates new = ssVolumeClaimTemplates old \<and> ssSelector new = ssSelector old \<and>
     ssServiceName new = ssServiceName old \<and> ssPodManagementPolicy new = ssPodManagementPolicy old"

text \<open>The API server refuses a patch that changes one of these.\<close>

definition immutable_kept :: "k8s_object \<Rightarrow> k8s_object \<Rightarrow> bool" where
  "immutable_kept old new \<longleftrightarrow>
     omName (obj_meta new) = omName (obj_meta old) \<and>
     omNamespace (obj_meta new) = omNamespace (obj_meta old) \<and>
     omOwnerReferences (obj_meta new) = omOwnerReferences (obj_meta old) \<and>
     (case (old, new) of
        (O_StatefulSet e, O_StatefulSet n) \<Rightarrow> statefulset_fixed (stsSpec e) (stsSpec n)
      | (O_Service e, O_Service n) \<Rightarrow> svcSpec n = svcSpec e \<or> service_fixed (svcSpec e) (svcSpec n)
      | (O_ConfigMap _, O_ConfigMap _) \<Rightarrow> True
      | (O_PDB _, O_PDB _) \<Rightarrow> True
      | _ \<Rightarrow> False)"

lemmas keep_service_defs =
  keep_service_def keep_ports_def keep_traffic_policy_def keep_lb_class_def Let_def

lemma elems_map_slice [simp]: "elems (map_slice f xs) = map f (elems xs)"
  by (cases xs) simp_all

lemma svpName_keep_node_port [simp]: "svpName (keep_node_port es p) = svpName p"
  by (simp add: keep_node_port_def split: option.split)

lemma keep_statefulset_fixed: "statefulset_fixed e (keep_statefulset d e)"
  by (simp add: statefulset_fixed_def keep_statefulset_def)

lemma keep_ports_kept:
  "svType d = ServiceTypeNodePort \<or> svType d = ServiceTypeLoadBalancer \<Longrightarrow>
   node_ports_kept e (keep_ports d e)"
  by (auto simp: node_ports_kept_def keep_ports_def list_all_iff keep_node_port_def split: option.splits)

lemma keep_service_ports: "svPorts (keep_service d e) = svPorts (keep_ports d e)"
  by (simp add: keep_service_defs)

lemma keep_service_type: "svType (keep_service d e) = svType d"
  by (simp add: keep_service_defs)

lemma keep_service_fixed: "service_fixed e (keep_service d e)"
proof -
  have "node_ports_kept e (keep_service d e)"
    if "svType d = ServiceTypeNodePort \<or> svType d = ServiceTypeLoadBalancer"
    using keep_ports_kept [OF that] by (simp add: node_ports_kept_def keep_service_ports)
  then show ?thesis
    unfolding service_fixed_def by (auto simp: keep_service_type) (auto simp: keep_service_defs)
qed

lemma patch_immutable_kept: "immutable_kept e (patched_object (keep_immutable d e) e)"
  using keep_service_fixed keep_statefulset_fixed
  by (cases d; cases e)
    (simp_all add: immutable_kept_def patched_object_def keep_immutable_def copyDesiredPayload_def
      statefulset_fixed_def)


subsection \<open>A patch settles the object\<close>

definition distinct_ports :: "k8s_object \<Rightarrow> bool" where
  "distinct_ports x \<longleftrightarrow>
     (case x of O_Service v \<Rightarrow> distinct (map svpName (elems (svPorts (svcSpec v)))) | _ \<Rightarrow> True)"

lemma find_own_name:
  "distinct (map svpName ps) \<Longrightarrow> p \<in> set ps \<Longrightarrow>
   find (\<lambda>e. svpName p = svpName e) (map (keep_node_port es) ps) = Some (keep_node_port es p)"
  by (induction ps) (auto simp: image_iff)

lemma keep_node_port_again:
  assumes "distinct (map svpName ps)" and "p \<in> set ps"
  shows "keep_node_port (map (keep_node_port es) ps) p = keep_node_port es p"
  using find_own_name [OF assms, of es] unfolding keep_node_port_def [of _ p]
  by (simp split: option.split)

lemma keep_ports_again:
  "distinct (map svpName (elems (svPorts d))) \<Longrightarrow>
   map_slice (keep_node_port (elems (map_slice (keep_node_port es) (svPorts d)))) (svPorts d)
     = map_slice (keep_node_port es) (svPorts d)"
  by (cases "svPorts d") (auto simp: keep_node_port_again)

lemma svPorts_keep_service:
  "svPorts (keep_service d e) =
     (if svType d = ServiceTypeNodePort \<or> svType d = ServiceTypeLoadBalancer
      then map_slice (keep_node_port (elems (svPorts e))) (svPorts d) else svPorts d)"
  by (simp add: keep_service_defs)

lemma keep_service_other:
  "svClusterIP (keep_service d e) = svClusterIP e"
  "svIPFamilies (keep_service d e) = svIPFamilies e"
  "svIPFamilyPolicy (keep_service d e) = svIPFamilyPolicy e"
  "svExternalTrafficPolicy (keep_service d e) =
     (if svType d = ServiceTypeNodePort \<or> svType d = ServiceTypeLoadBalancer
      then svExternalTrafficPolicy e else svExternalTrafficPolicy d)"
  "svHealthCheckNodePort (keep_service d e) =
     (if svType d = ServiceTypeLoadBalancer \<and> svExternalTrafficPolicy e = ServiceExternalTrafficPolicyLocal
      then svHealthCheckNodePort e else svHealthCheckNodePort d)"
  "svLoadBalancerClass (keep_service d e) =
     (if svType d = ServiceTypeLoadBalancer then svLoadBalancerClass e else svLoadBalancerClass d)"
  "svSelector (keep_service d e) = svSelector d" "svType (keep_service d e) = svType d"
  "svOther (keep_service d e) = svOther d"
  by (simp_all add: keep_service_defs)

lemma keep_service_again:
  assumes "distinct (map svpName (elems (svPorts d)))"
  shows "keep_service d (keep_service d e) = keep_service d e"
  using keep_ports_again [OF assms]
  by (intro k8s_service_spec.equality) (simp_all add: svPorts_keep_service keep_service_other)

lemma keep_statefulset_again: "keep_statefulset d (keep_statefulset d e) = keep_statefulset d e"
  by (simp add: keep_statefulset_def)

lemma settled:
  assumes "obj_kind e = obj_kind d" and "distinct_ports d"
  shows "resourceSpecsEqual (keep_immutable d (patched_object (keep_immutable d e) e))
           (patched_object (keep_immutable d e) e)"
  using assms
  by (cases rule: obj_kind_cases)
    (simp_all add: resourceSpecsEqual_def keep_immutable_def patched_object_def copyDesiredPayload_def
      keep_service_again keep_statefulset_again distinct_ports_def)

lemma service_distinct_ports: "distinct_ports (O_Service (generate_service d))"
  by (simp add: distinct_ports_def generate_service_def base_service_def apply_service_spec_def
      upd_service_spec_def Let_def split: option.split)

lemma generated_distinct_ports:
  assumes "GenerateDragonflyResources d img = Inr objs" and "x \<in> set objs"
  shows "distinct_ports x"
proof (cases x)
  case (O_Service v)
  with assms have "v = generate_service d"
    by (auto simp: Generate_Inr_iff probe_config_maps_def split: if_splits)
  with O_Service show ?thesis by (simp add: service_distinct_ports)
qed (simp_all add: distinct_ports_def)


subsection \<open>Running the reconciliation of an object\<close>

definition is_event :: "call \<Rightarrow> bool" where
  "is_event c = (case c of Record_event _ _ _ \<Rightarrow> True | _ \<Rightarrow> False)"

lemma immutable_events_run:
  "\<exists>evs. immutable_events d e s = (Ok (), s\<lparr>history := history s @ evs\<rparr>) \<and> list_all is_event evs"
proof -
  have none: "\<exists>evs. s = s\<lparr>history := history s @ evs\<rparr> \<and> list_all is_event evs"
    by (rule exI [of _ "[]"]) simp
  show ?thesis
  proof (cases d; cases e)
    fix a b
    assume "d = O_StatefulSet a" and "e = O_StatefulSet b"
    then show ?thesis
      by (auto simp: immutable_events_def run_simps record_event_def is_event_def
          intro: none exI [of _ "[_]"] exI [of _ "[_, _]"])
  qed (simp_all add: immutable_events_def run_simps none)
qed

text \<open>The calls made so far stay, and the custom resource in memory stays the same.\<close>

definition extends :: "op_state \<Rightarrow> op_state \<Rightarrow> bool" where
  "extends s t \<longleftrightarrow> df t = df s \<and> prefix (history s) (history t)"

interpretation extends: step_contract extends
  by unfold_locales (auto simp: extends_def)

lemma perform_extends: "keeps extends (perform ask call_of)"
  by (simp add: keeps_def perform_def extends_def)

lemma event_extends: "keeps extends (record_event ty reason msg)"
  by (simp add: keeps_def record_event_def extends_def)

lemma update_existing_extends: "keeps extends (update_existing E x e)"
proof -
  have "keeps extends (immutable_events a b)" for a b
    unfolding immutable_events_def prod.case
    by (cases a; cases b) (auto intro!: keeps_intro event_extends)
  moreover have "keeps extends (set_controller_reference E a)" for a
    unfolding set_controller_reference_def by (intro keeps_intro)
  ultimately show ?thesis
    unfolding update_existing_def patch_object_def by (intro keeps_intro perform_extends)
qed

lemma reconcile_object_extends: "keeps extends (reconcile_object E x)"
proof -
  have "keeps extends (set_controller_reference E a)" for a
    unfolding set_controller_reference_def by (intro keeps_intro)
  then show ?thesis
    unfolding reconcile_object_def create_missing_def get_object_def create_object_def
    by (intro keeps_intro perform_extends update_existing_extends)
qed

text \<open>The object is there, by what the API server answered among the calls \<open>cs\<close>.\<close>

definition object_present :: "env \<Rightarrow> dragonfly \<Rightarrow> call list \<Rightarrow> k8s_object \<Rightarrow> bool" where
  "object_present E d cs x \<longleftrightarrow>
     (\<exists>e. Get_object x (Inr e) \<in> set cs) \<or>
     (\<exists>y z. envSetControllerReference E d x = Inr y \<and> Create_object y (Inr z) \<in> set cs)"

lemma of_sum_Ok [simp]: "of_sum r = Ok x \<longleftrightarrow> r = Inr x"
  by (cases r) auto

lemma reconcile_object_Ok:
  assumes "reconcile_object E x s = (Ok (), t)"
  shows "\<exists>cs. history t = history s @ cs \<and> object_present E (df s) cs x"
proof (cases "envGetObject E (history s) x")
  case (Inl err)
  then show ?thesis
    using assms
    by (auto simp: reconcile_object_def create_missing_def set_controller_reference_def run_simps
        get_object_def create_object_def perform_def object_present_def
        split: if_splits sum.splits result.splits)
next
  case (Inr e)
  let ?u = "s\<lparr>history := history s @ [Get_object x (Inr e)]\<rparr>"
  from Inr assms have "update_existing E x e ?u = (Ok (), t)"
    by (simp add: reconcile_object_def run_simps get_object_def perform_def)
  then have "prefix (history ?u) (history t)"
    using keepsD [OF update_existing_extends] by (fastforce simp: extends_def)
  then show ?thesis
    by (auto simp: prefix_def object_present_def)
qed


definition budget_removed :: "dragonfly \<Rightarrow> call list \<Rightarrow> bool" where
  "budget_removed d cs \<longleftrightarrow>
     (\<exists>r. Delete_pdb (dfNamespace d) (dfName d) r \<in> set cs \<and>
          (case r of Inl err \<Rightarrow> is_not_found err | Inr _ \<Rightarrow> True))"

lemma remove_budget_Ok:
  assumes "remove_budget E s = (Ok (), t)" and "specReplicas (dfSpec (df s)) < 2"
  shows "\<exists>cs. history t = history s @ cs \<and> budget_removed (df s) cs"
proof (cases "envDeletePdb E (history s) (dfNamespace (df s)) (dfName (df s))")
  case (Inl err)
  with assms show ?thesis
    by (auto simp: remove_budget_def run_simps delete_pdb_def perform_def budget_removed_def
        split: if_splits)
next
  case (Inr u)
  with assms show ?thesis
    by (auto simp: remove_budget_def run_simps delete_pdb_def perform_def budget_removed_def)
qed

lemma remove_budget_extends: "keeps extends (remove_budget E)"
  unfolding remove_budget_def delete_pdb_def by (intro keeps_intro perform_extends)

lemma start_phase_prefix: "start_phase E s = (r, t) \<Longrightarrow> prefix (history s) (history t)"
  by (cases "envPatchDragonflyStatus E (history s) (df s) ((df s)\<lparr>dfStatus := (dfStatus (df s))\<lparr>statusPhase := PhaseResourcesCreated\<rparr>\<rparr>)";
      cases "statusPhase (dfStatus (df s)) = []")
    (auto simp: start_phase_def getStatus_def patchStatus_def patch_dragonfly_status_def
      run_simps perform_def record_event_def)

lemma present_mono: "object_present E d cs x \<Longrightarrow> set cs \<subseteq> set ds \<Longrightarrow> object_present E d ds x"
  unfolding object_present_def by blast

subsection \<open>Properties\<close>

text \<open>C10: When the owned objects were reconciled without an error, each generated object is there:
  in this reconciliation the API server answered its lookup with a live object or accepted its
  creation, with the controller reference set; and below two replicas the disruption budget of
  the instance is gone.\<close>

theorem reconcile_success_means_present:
  assumes "reconcileResources E img s = (Ok (), t)"
  shows "\<exists>objs cs. GenerateDragonflyResources (df s) img = Inr objs \<and> history t = history s @ cs \<and>
    (\<forall>x\<in>set objs. object_present E (df s) cs x) \<and>
    (specReplicas (dfSpec (df s)) < 2 \<longrightarrow> budget_removed (df s) cs)"
proof -
  obtain objs where objs: "GenerateDragonflyResources (df s) img = Inr objs"
    using assms by (auto simp: reconcileResources_def run_simps split: sum.splits)
  with assms have run: "bnd (for_each (reconcile_object E) objs)
      (\<lambda>_. bnd (remove_budget E) (\<lambda>_. start_phase E)) s = (Ok (), t)"
    by (simp add: reconcileResources_def run_simps)
  then obtain u v where u: "for_each (reconcile_object E) objs s = (Ok (), u)"
    and v: "remove_budget E u = (Ok (), v)" and t: "start_phase E v = (Ok (), t)"
    by (auto elim!: bnd_OkE)
  have su: "extends s u" by (rule keepsD [OF extends.for_each_ok u]) (rule reconcile_object_extends)
  have uv: "extends u v" by (rule keepsD [OF remove_budget_extends v])
  have vt: "prefix (history v) (history t)" by (rule start_phase_prefix [OF t])
  from su uv vt have "prefix (history s) (history t)"
    by (auto simp: extends_def dest: prefix_order.trans)
  then obtain cs where cs: "history t = history s @ cs" by (auto simp: prefix_def)
  have "object_present E (df s) cs x" if "x \<in> set objs" for x
  proof -
    from extends.for_each_Ok [OF reconcile_object_extends u that] obtain p q
      where "extends s p" and q: "reconcile_object E x p = (Ok (), q)" and "extends q u" by blast
    with uv vt have *: "df p = df s" "prefix (history s) (history p)" "prefix (history q) (history t)"
      by (auto simp: extends_def dest: prefix_order.trans)
    with reconcile_object_Ok [OF q] cs show ?thesis
      by (auto simp: prefix_def elim: present_mono)
  qed
  moreover have "budget_removed (df s) cs" if "specReplicas (dfSpec (df s)) < 2"
    using remove_budget_Ok [OF v] su vt cs that
    by (auto simp: extends_def prefix_def budget_removed_def) 
  ultimately show ?thesis using objs cs by blast
qed

text \<open>C12: A patch settles the object: once the API server stored what was sent, reconciling the
  same desired object again sends nothing, it only may record that a change of an immutable
  field is ignored.\<close>

theorem second_update_is_quiet:
  assumes "GenerateDragonflyResources d img = Inr objs" and "x \<in> set objs"
    and "obj_kind live = obj_kind x"
    and "envSetControllerReference E (df s) x = Inr (set_obj_meta ((obj_meta x)\<lparr>omOwnerReferences := refs\<rparr>) x)"
    and "y = set_obj_meta ((obj_meta x)\<lparr>omOwnerReferences := refs\<rparr>) x"
  shows "\<exists>evs. update_existing E x (patched_object (keep_immutable y live) live) s =
      (Ok (), s\<lparr>history := history s @ evs\<rparr>) \<and> list_all is_event evs"
proof -
  let ?live = "patched_object (keep_immutable y live) live"
  have kind: "obj_kind live = obj_kind y" using assms(3,5) by (cases x) simp_all
  have "distinct_ports y"
    using generated_distinct_ports [OF assms(1,2)] assms(5) by (cases x) (simp_all add: distinct_ports_def)
  with kind have same: "resourceSpecsEqual (keep_immutable y ?live) ?live" by (rule settled)
  obtain evs where "immutable_events y ?live s = (Ok (), s\<lparr>history := history s @ evs\<rparr>)"
    and "list_all is_event evs"
    using immutable_events_run by blast
  with assms(4,5) same show ?thesis
    by (intro exI [of _ evs]) (simp add: update_existing_def set_controller_reference_def run_simps)
qed

subsection \<open>The sample instance\<close>

lemma sample_object:
  "\<exists>t. reconcile_object (sample_env ps) x s = (Ok (), t) \<and> df t = df s"
  by (simp add: reconcile_object_def create_missing_def set_controller_reference_def run_simps
      get_object_def create_object_def perform_def)

lemma sample_objects: "\<exists>t. for_each (reconcile_object (sample_env ps)) xs s = (Ok (), t) \<and> df t = df s"
proof (induction xs arbitrary: s)
  case (Cons x xs)
  obtain u where u: "reconcile_object (sample_env ps) x s = (Ok (), u)" and "df u = df s"
    using sample_object by blast
  with Cons [of u] show ?case by (simp add: run_simps)
qed (simp add: run_simps)

lemma sample_reconciled:
  "\<exists>t. reconcileResources (sample_env ps) img (sample_state PhaseReady) = (Ok (), t)"
proof -
  let ?s = "sample_state PhaseReady"
  obtain objs where objs: "GenerateDragonflyResources (df ?s) img = Inr objs"
    using sample_generated by (simp add: sample_state_def)
  obtain t where "for_each (reconcile_object (sample_env ps)) objs ?s = (Ok (), t)" and "df t = df ?s"
    using sample_objects by blast
  with objs show ?thesis
    by (simp add: reconcileResources_def run_simps remove_budget_def start_phase_def getStatus_def
        sample_state_def sample_df_def sample_spec_def)
qed

theorem reconcile_success_means_present_witness:
  "\<exists>t objs cs. reconcileResources (sample_env []) ''img'' (sample_state PhaseReady) = (Ok (), t) \<and>
     GenerateDragonflyResources (sample_df PhaseReady) ''img'' = Inr objs \<and>
     list_all (object_present (sample_env []) (sample_df PhaseReady) cs) objs"
proof -
  obtain t where t: "reconcileResources (sample_env []) ''img'' (sample_state PhaseReady) = (Ok (), t)"
    using sample_reconciled by blast
  from reconcile_success_means_present [OF t] t show ?thesis
    by (simp add: sample_state_def list_all_iff) blast
qed

abbreviation sample_service :: service where
  "sample_service \<equiv> generate_service (sample_df PhaseReady)"

theorem second_update_is_quiet_witness:
  "\<exists>evs. update_existing (sample_env []) (O_Service sample_service)
      (patched_object (keep_immutable (O_Service sample_service) (O_Service sample_service)) (O_Service sample_service))
      (sample_state PhaseReady) =
      (Ok (), (sample_state PhaseReady)\<lparr>history := evs\<rparr>) \<and> list_all is_event evs"
  using second_update_is_quiet [OF sample_generated [of PhaseReady "''img''"], of "O_Service sample_service"
      "O_Service sample_service" "sample_env []" "sample_state PhaseReady"
      "omOwnerReferences (svcMeta sample_service)" "O_Service sample_service"]
  by (simp add: sample_state_def)

end
