(* ===== verification/Dragonfly_Controller.thy ===== *)
theory Dragonfly_Controller
  imports Reconcile_Resources Pod_Lifecycle
begin

section \<open>The Dragonfly controller\<close>

text \<open>
  \<^verbatim>\<open>DragonflyReconciler.Reconcile\<close> of \<^verbatim>\<open>internal/controller/dragonfly_controller.go\<close>:
  the owned objects, then the detection of a new revision, then one round of a rolling
  update. A step of the round that returns a non-zero result ends it.
\<close>

text \<open>\<^verbatim>\<open>if result, err := step(); !result.IsZero() || err != nil { return result, err }\<close>.\<close>

definition unless_requeued :: "ctrl_result prog \<Rightarrow> ctrl_result prog \<Rightarrow> ctrl_result prog" where
  "unless_requeued step rest =
     bnd step (\<lambda>result. if \<not> is_zero_result result then ret result else rest)"

definition finish_rollout :: "env \<Rightarrow> dragonfly_status \<Rightarrow> ctrl_result prog" where
  "finish_rollout E dfiStatus =
     bnd (wrap ''failed to update the dragonfly status''
            (patchStatus E (dfiStatus\<lparr>statusPhase := PhaseReady, statusIsRollingUpdate := False\<rparr>))) (\<lambda>_.
     bnd (record_event EventTypeNormal ''Rollout'' ''Completed'') (\<lambda>_.
     ret finished))"

definition roll_master :: "env \<Rightarrow> dragonfly_status \<Rightarrow> pod list \<Rightarrow> string \<Rightarrow> ctrl_result prog" where
  "roll_master E dfiStatus replicas updateRevision =
     bnd (attempt (getMaster E)) (\<lambda>answer.
     case answer of
       Inl err \<Rightarrow>
         if isMasterError err then ret (requeue (2 * second))
         else fail (Wrapped ''failed to get master'' err)
     | Inr master \<Rightarrow>
         if \<not> isPodOnLatestVersion master updateRevision then
           bnd (wrap ''failed to update master''
                  (updatedMaster E master replicas updateRevision)) (\<lambda>_.
           ret (requeue (5 * second)))
         else
           bnd (wrap ''failed to detect old masters'' (detectOldMasters E updateRevision)) (\<lambda>_.
           finish_rollout E dfiStatus))"

definition roll_replicas ::
  "env \<Rightarrow> pod list \<Rightarrow> string \<Rightarrow> (pod list \<Rightarrow> ctrl_result prog) \<Rightarrow> ctrl_result prog" where
  "roll_replicas E replicas updateRevision rest =
     unless_requeued (verifyUpdatedReplicas E replicas updateRevision)
       (bnd (updateReplicas E replicas updateRevision) (\<lambda>(result, sorted_replicas).
        if \<not> is_zero_result result then ret result else rest sorted_replicas))"

definition rollout_to :: "env \<Rightarrow> dragonfly_status \<Rightarrow> string \<Rightarrow> ctrl_result prog" where
  "rollout_to E dfiStatus updateRevision =
     unless_requeued (allPodsHealthyAndHaveRole E updateRevision)
       (bnd (wrap ''failed to get replicas'' (getReplicas E)) (\<lambda>replicas.
        bnd get_df (\<lambda>d.
        if int (length replicas) \<noteq> specReplicas (dfSpec d) - 1 then ret (requeue (5 * second))
        else roll_replicas E replicas updateRevision (\<lambda>sorted_replicas.
               roll_master E dfiStatus sorted_replicas updateRevision))))"

definition rollout_round :: "env \<Rightarrow> dragonfly_status \<Rightarrow> ctrl_result prog" where
  "rollout_round E dfiStatus =
     bnd (wrap ''failed to get statefulset'' (getStatefulSet E)) (\<lambda>statefulSet.
     rollout_to E dfiStatus (stsUpdateRevision statefulSet))"

definition reconcile_instance :: "env \<Rightarrow> string \<Rightarrow> ctrl_result prog" where
  "reconcile_instance E defaultDragonflyImage =
     bnd isInstanceTerminating (\<lambda>terminating.
     if terminating then ret finished
     else
       bnd (wrap ''failed to reconcile dragonfly resources''
              (reconcileResources E defaultDragonflyImage)) (\<lambda>_.
       bnd getStatus (\<lambda>dfiStatus0.
       bnd (if phase_ready dfiStatus0 \<or> statusPhase dfiStatus0 = PhaseNotReady
            then wrap ''failed to detect rolling update'' (detectRollingUpdate E)
            else ret dfiStatus0) (\<lambda>dfiStatus.
       if rolling dfiStatus then rollout_round E dfiStatus else ret finished))))"

definition DragonflyReconcile :: "env \<Rightarrow> string \<Rightarrow> string \<Rightarrow> string \<Rightarrow> ctrl_result prog" where
  "DragonflyReconcile E defaultDragonflyImage ns name =
     bnd (attempt (getDragonflyInstance E ns name)) (\<lambda>got.
     case got of
       Inl err \<Rightarrow> ignore_not_found (Wrapped ''failed to get dragonfly instance'' err)
     | Inr _ \<Rightarrow> closing (reconcile_instance E defaultDragonflyImage))"

text \<open>
  The kinds of \<^verbatim>\<open>SetupWithManager\<close>: besides the custom resource itself, on a change of its
  generation, an event of an owned object of one of these kinds starts a reconciliation.
\<close>

definition owned_kinds :: "string list" where
  "owned_kinds = [''StatefulSet'', ''Service'', ''ConfigMap'']"

end
