(* ===== verification/Operator_Contracts.thy ===== *)
theory Operator_Contracts
  imports Query_Contracts Dragonfly_Controller
begin

section \<open>Contracts of the two controllers\<close>

text \<open>
  What a controller needs of the instance it drives, as locales: when the methods that
  write keep a relation between states, so does every method built from them, up to a
  whole \<^verbatim>\<open>Reconcile\<close>. Each safety property of the controllers is an interpretation of
  one of these locales, at a relation that says what calls the history gains.
\<close>

subsection \<open>A fresh instance\<close>

lemma is_zero_finished: "is_zero_result r \<longleftrightarrow> r = finished"
  by (cases r) (simp add: is_zero_result_def)

lemma keeps_prod_arg [keeps_intro]:
  "(\<And>a b. keeps R (k a b)) \<Longrightarrow> keeps R (case x of (a, b) \<Rightarrow> k a b)"
  by (cases x) simp

text \<open>A reconciliation starts with no Redis client and drops those it made.\<close>

context cached_contract
begin

lemma closing_ok:
  assumes "keeps (guarded R) m"
  shows "keeps (guarded R) (closing m)"
proof (rule keepsI)
  fix s r t
  assume run: "closing m s = (r, t)"
  obtain q u where m: "m s = (q, u)" by fastforce
  with run have t: "t = u\<lparr>redisClients := Nil_map\<rparr>"
    by (simp add: closing_def Close_def)
  show "guarded R s t"
    using guardedD [OF assms _ m] trans [OF _ cache] by (auto simp: guarded_def t)
qed

lemma fresh_instance:
  assumes get: "keeps R (get_dragonfly E ns n)" and adopt: "\<And>s d. R s (s\<lparr>df := d\<rparr>)"
    and h: "\<And>err. keeps R (h err)" and k: "keeps (guarded R) (k ())"
  shows "keeps R (bnd (attempt (getDragonflyInstance E ns n)) (\<lambda>got.
           case got of Inl err \<Rightarrow> h err | Inr u \<Rightarrow> closing (k u)))"
    (is "keeps R ?m")
proof (rule keepsI)
  fix s r t
  assume run: "?m s = (r, t)"
  obtain q u where g: "get_dragonfly E ns n s = (q, u)" by fastforce
  with get have su: "R s u" by (rule keepsD)
  show "R s t"
  proof (cases q)
    case (Ok d)
    let ?v = "u\<lparr>redisClients := Nil_map, df := d\<rparr>"
    from Ok g run have v: "closing (k ()) ?v = (r, t)"
      by (simp add: getDragonflyInstance_def run_simps Close_def)
    have "clients_ok ?v" by (simp add: clients_ok_def)
    with closing_ok [OF k] v have "R ?v t" by (auto dest: guardedD)
    moreover have "R u ?v" by (rule trans [OF cache [of u Nil_map] adopt])
    ultimately show ?thesis using su trans by blast
  next
    case (Fail err)
    with g run have "h err u = (r, t)" by (simp add: getDragonflyInstance_def run_simps)
    with h su trans show ?thesis by (blast dest: keepsD)
  next
    case Panic
    with g run su show ?thesis by (simp add: getDragonflyInstance_def run_simps)
  qed
qed

end

subsection \<open>The pod lifecycle controller\<close>

text \<open>All of it except the promotion of a new master, which is the part that reports the phase.\<close>

locale attach_contract = query_contract +
  assumes role_replica: "keeps (guarded R) (replicaOf E p ip)"
    and role_master: "keeps (guarded R) (replicaOfNoOne E p)"
    and role_removed:
      "keeps (guarded R) (patch_pod E p (p\<lparr>podLabels := go_delete (podLabels p) RoleLabelKey\<rparr>))"
    and condition_patched: "keeps (guarded R) (patch_pod_status E p q)"
    and clock_read: "keeps (guarded R) (read_clock E)"
    and event_recorded: "keeps (guarded R) (record_event ty reason msg)"
begin

lemmas primitive_writes [keeps_intro] =
  role_replica role_master role_removed condition_patched clock_read event_recorded

lemma configureReplica_ok [keeps_intro]: "keeps (guarded R) (configureReplica E p ip)"
  unfolding configureReplica_def by (rule role_replica)

lemma gate_enabled_ok [keeps_intro]: "keeps (guarded R) gate_enabled"
  unfolding gate_enabled_def by (intro keeps_intro)

lemma condition_ok [keeps_intro]: "keeps (guarded R) (patchReplicationReadyCondition E p b)"
  unfolding patchReplicationReadyCondition_def by (intro keeps_intro)

lemma stable_or_false_ok [keeps_intro]: "keeps (guarded R) (stable_or_false E p)"
  unfolding stable_or_false_def by (intro keeps_intro)

lemma configure_other_pod_ok [keeps_intro]: "keeps (guarded R) (configure_other_pod E m p)"
  unfolding configure_other_pod_def by (intro keeps_intro)

lemma check_replica_ok [keeps_intro]: "keeps (guarded R) (check_replica E ip p)"
  unfolding check_replica_def by (intro keeps_intro)

lemma checkAndConfigureReplicas_ok [keeps_intro]: "keeps (guarded R) (checkAndConfigureReplicas E ip)"
  unfolding checkAndConfigureReplicas_def by (intro keeps_intro)

lemma deleteRoleLabel_ok [keeps_intro]: "keeps (guarded R) (deleteRoleLabel E p)"
  unfolding deleteRoleLabel_def by (intro keeps_intro)

lemma deleteMasterRoleLabel_ok [keeps_intro]: "keeps (guarded R) (deleteMasterRoleLabel E)"
  unfolding deleteMasterRoleLabel_def by (intro keeps_intro)

lemma candidate_ready_ok [keeps_intro]: "keeps (guarded R) (candidate_ready E p)"
  unfolding candidate_ready_def by (intro keeps_intro)

lemma transient_ok [keeps_intro]: "keeps (guarded R) (transient msg err)"
  unfolding transient_def by (intro keeps_intro)

lemma attach_pod_ok [keeps_intro]: "keeps (guarded R) (attach_pod E m p)"
  unfolding attach_pod_def by (intro keeps_intro)

lemma gate_pod_ok [keeps_intro]: "keeps (guarded R) (gate_pod E p)"
  unfolding gate_pod_def by (intro keeps_intro)

lemma follow_master_ok [keeps_intro]: "keeps (guarded R) (follow_master E b m p)"
  unfolding follow_master_def by (intro keeps_intro)

lemma ignore_not_found_ok [keeps_intro]: "keeps R (ignore_not_found err)"
  unfolding ignore_not_found_def by (intro keeps_intro)

lemma getDragonflyName_ok [keeps_intro]: "keeps R (getDragonflyName p)"
  unfolding getDragonflyName_def by (intro keeps_intro)

end

text \<open>
  The promotion: the phase \<^verbatim>\<open>Ready\<close> is written only after \<^verbatim>\<open>replicaOfNoOne\<close> returned, so
  a contract may rely on that order.
\<close>

locale lifecycle_contract = attach_contract +
  assumes status_patched: "statusPhase st \<noteq> PhaseReady \<Longrightarrow> keeps (guarded R) (patchStatus E st)"
    and promoted: "keeps (guarded R) (bnd (replicaOfNoOne E p) (\<lambda>m.
      bnd (patchStatus E (st\<lparr>statusPhase := PhaseReady\<rparr>)) (\<lambda>_. ret m)))"
begin

lemma promoted_then:
  assumes "\<And>m. keeps (guarded R) (k m)"
  shows "keeps (guarded R) (bnd (replicaOfNoOne E p) (\<lambda>m.
    bnd (patchStatus E (st\<lparr>statusPhase := PhaseReady\<rparr>)) (\<lambda>_. k m)))"
  using guard.bnd_ok [OF promoted assms] by (simp add: bnd_assoc)

lemma configureReplication_ok [keeps_intro]: "keeps (guarded R) (configureReplication E p)"
  unfolding configureReplication_def
  by (rule guard.bnd_ok [OF getPods_ok], rule guard.bnd_ok [OF getStatus_ok],
      rule guard.bnd_ok [OF status_patched], simp, rule promoted_then, intro keeps_intro)

lemma no_candidate_ok [keeps_intro]: "keeps (guarded R) (no_candidate E)"
  unfolding no_candidate_def by (intro keeps_intro status_patched) simp

lemma promote_candidate_ok [keeps_intro]: "keeps (guarded R) (promote_candidate E b p)"
  unfolding promote_candidate_def by (intro keeps_intro)

lemma elect_master_ok [keeps_intro]: "keeps (guarded R) (elect_master E b err)"
  unfolding elect_master_def by (intro keeps_intro)

lemma reconcile_pod_ok [keeps_intro]: "keeps (guarded R) (reconcile_pod E p)"
  unfolding reconcile_pod_def by (intro keeps_intro)

lemma PodReconcile_ok:
  assumes "\<And>ns n. keeps R (get_pod E ns n)" and "\<And>ns n. keeps R (get_dragonfly E ns n)"
    and "\<And>s d. R s (s\<lparr>df := d\<rparr>)"
  shows "keeps R (PodReconcile E ns name)"
  unfolding PodReconcile_def
  by (rule bnd_ok [OF attempt_ok [OF assms(1)]], rule keeps_case_sum, intro keeps_intro,
      rule bnd_ok, intro keeps_intro, rule keeps_case_sum, intro keeps_intro,
      rule fresh_instance, rule assms(2), rule assms(3), intro keeps_intro,
      intro keeps_intro)

end

subsection \<open>Rolling updates\<close>

text \<open>The contract of a round towards a revision: only pods of another revision are deleted.\<close>

locale rollout_steps = attach_contract +
  fixes urev :: string
  assumes takeover: "\<not> isPodOnLatestVersion old urev \<Longrightarrow> keeps (guarded R) (replTakeover E new old)"
    and deletion: "\<not> isPodOnLatestVersion p urev \<Longrightarrow> keeps (guarded R) (delete_pod E p)"
begin

lemma pod_progress_ok [keeps_intro]: "keeps (guarded R) (pod_progress E urev p)"
  unfolding pod_progress_def by (intro keeps_intro deletion) simp_all

lemma allPodsHealthy_ok [keeps_intro]: "keeps (guarded R) (allPodsHealthyAndHaveRole E urev)"
  unfolding allPodsHealthyAndHaveRole_def by (intro keeps_intro)

lemma verify_replica_ok [keeps_intro]: "keeps (guarded R) (verify_replica E urev p)"
  unfolding verify_replica_def by (intro keeps_intro)

lemma verifyUpdatedReplicas_ok [keeps_intro]: "keeps (guarded R) (verifyUpdatedReplicas E ps urev)"
  unfolding verifyUpdatedReplicas_def by (intro keeps_intro)

lemma updateReplicas_ok [keeps_intro]: "keeps (guarded R) (updateReplicas E ps urev)"
  unfolding updateReplicas_def by (intro keeps_intro deletion) (auto dest: find_SomeD)

lemma follow_new_master_ok [keeps_intro]: "keeps (guarded R) (follow_new_master E m p)"
  unfolding follow_new_master_def by (intro keeps_intro)

lemma updatedMaster_ok:
  "\<not> isPodOnLatestVersion m urev \<Longrightarrow> keeps (guarded R) (updatedMaster E m ps urev)"
  unfolding updatedMaster_def by (intro keeps_intro takeover deletion) simp_all

lemma detectOldMasters_ok [keeps_intro]: "keeps (guarded R) (detectOldMasters E urev)"
  unfolding detectOldMasters_def by (intro keeps_intro deletion)

lemma unless_requeued_ok [keeps_intro]:
  "keeps (guarded R) m \<Longrightarrow> keeps (guarded R) k \<Longrightarrow> keeps (guarded R) (unless_requeued m k)"
  unfolding unless_requeued_def by (intro keeps_intro)

end

text \<open>With the patch that completes the rollout, the contract of the whole round.\<close>

locale rollout_contract = rollout_steps +
  assumes completed: "keeps (guarded R) (patchStatus E st)"
begin

lemma finish_rollout_ok [keeps_intro]: "keeps (guarded R) (finish_rollout E st)"
  unfolding finish_rollout_def by (intro keeps_intro completed)

lemma roll_master_ok [keeps_intro]: "keeps (guarded R) (roll_master E st ps urev)"
  unfolding roll_master_def by (intro keeps_intro updatedMaster_ok)

lemma roll_replicas_ok [keeps_intro]:
  "(\<And>ps. keeps (guarded R) (rest ps)) \<Longrightarrow> keeps (guarded R) (roll_replicas E ps urev rest)"
  unfolding roll_replicas_def by (intro keeps_intro)

lemma rollout_to_ok: "keeps (guarded R) (rollout_to E st urev)"
  unfolding rollout_to_def by (intro keeps_intro)

end

subsection \<open>The Dragonfly controller\<close>

locale object_contract = attach_contract +
  assumes object_read: "keeps (guarded R) (get_object E x)"
    and object_created: "keeps (guarded R) (create_object E x)"
    and object_patched:
      "keeps (guarded R) (patch_object E x (patched_object (keep_immutable d x) x))"
    and budget_deleted: "keeps (guarded R) (delete_pdb E ns n)"
begin

lemmas primitive_objects [keeps_intro] = object_read object_created object_patched budget_deleted

lemma set_controller_reference_ok [keeps_intro]: "keeps (guarded R) (set_controller_reference E x)"
  unfolding set_controller_reference_def by (intro keeps_intro)

lemma create_missing_ok [keeps_intro]: "keeps (guarded R) (create_missing E x)"
  unfolding create_missing_def by (intro keeps_intro)

lemma immutable_events_ok [keeps_intro]: "keeps (guarded R) (immutable_events x y)"
  unfolding immutable_events_def prod.case
  by (cases x; cases y) (auto intro!: keeps_intro)

lemma update_existing_ok [keeps_intro]: "keeps (guarded R) (update_existing E x y)"
  unfolding update_existing_def by (intro keeps_intro)

lemma reconcile_object_ok [keeps_intro]: "keeps (guarded R) (reconcile_object E x)"
  unfolding reconcile_object_def by (intro keeps_intro)

lemma remove_budget_ok [keeps_intro]: "keeps (guarded R) (remove_budget E)"
  unfolding remove_budget_def by (intro keeps_intro)

end

text \<open>With the patches of the status, the contract of a reconciliation outside its rollout.\<close>

locale instance_contract = object_contract + lifecycle_contract
begin

lemma start_phase_ok [keeps_intro]: "keeps (guarded R) (start_phase E)"
  unfolding start_phase_def by (intro keeps_intro status_patched) simp

lemma reconcileResources_ok [keeps_intro]: "keeps (guarded R) (reconcileResources E img)"
  unfolding reconcileResources_def by (intro keeps_intro)

lemma detectRollingUpdate_ok [keeps_intro]: "keeps (guarded R) (detectRollingUpdate E)"
  unfolding detectRollingUpdate_def by (intro keeps_intro status_patched) simp

lemma reconcile_instance_ok:
  assumes "\<And>st. keeps (guarded R) (rollout_round E st)"
  shows "keeps (guarded R) (reconcile_instance E img)"
  unfolding reconcile_instance_def by (intro keeps_intro assms)

lemma DragonflyReconcile_ok:
  assumes "\<And>ns n. keeps R (get_dragonfly E ns n)" and "\<And>s d. R s (s\<lparr>df := d\<rparr>)"
    and "\<And>st. keeps (guarded R) (rollout_round E st)"
  shows "keeps R (DragonflyReconcile E img ns name)"
  unfolding DragonflyReconcile_def
  by (rule fresh_instance, rule assms(1), rule assms(2), intro keeps_intro,
      rule reconcile_instance_ok, rule assms(3))

end

end
