(* ===== verification/Operator_Safety.thy ===== *)
theory Operator_Safety
  imports Operator_Contracts Sample_Cluster
begin

section \<open>Safety of the controllers, whatever the environment answers\<close>

text \<open>
  The contracts of \<^verbatim>\<open>Operator_Contracts\<close> at relations on the calls made: which calls a
  reconciliation makes at all, and which calls must come before which others.
\<close>

subsection \<open>Contracts on single calls\<close>

locale acting_trace = reading_trace +
  assumes event_call: "P [Record_event ty reason msg]"
    and clock_call: "P [Read_clock now]"
    and condition_call: "P [Patch_pod_status p q r2]"
    and removal_call:
      "P [Patch_pod p (p\<lparr>podLabels := go_delete (podLabels p) RoleLabelKey\<rparr>) r3]"
    and config_call: "P [Redis_call (admin_addr ip) (Config_set k v) r4]"
    and kill_call: "P [Redis_call (admin_addr ip) (Client_kill a) r5]"
begin

lemma config_set_kept [keeps_intro]:
  "keeps (guarded (emits P)) (redis E (newRedisClient ip) (Config_set k v))"
  unfolding redis_def by (intro call_kept config_call)

lemma client_kill_kept [keeps_intro]:
  "keeps (guarded (emits P)) (redis E (newRedisClient ip) (Client_kill a))"
  unfolding redis_def by (intro call_kept kill_call)

lemma disconnect_client_kept [keeps_intro]:
  "keeps (guarded (emits P)) (disconnect_client E (newRedisClient ip) info)"
  unfolding disconnect_client_def by (intro keeps_intro)

lemma disconnectClients_kept [keeps_intro]:
  "keeps (guarded (emits P)) (disconnectClients E (newRedisClient ip))"
  unfolding disconnectClients_def by (intro keeps_intro)

end

text \<open>With the role changes of \<^verbatim>\<open>replicaOf\<close> and \<^verbatim>\<open>replicaOfNoOne\<close>, pods are attached to a master.\<close>

locale attach_trace = acting_trace +
  assumes become_replica_kept:
      "keeps (guarded (emits P)) (become_replica E (newRedisClient (podIP p)) p m)"
    and replicaOfNoOne_kept: "keeps (guarded (emits P)) (replicaOfNoOne E p)"
begin

lemma replicaOf_kept: "keeps (guarded (emits P)) (replicaOf E p ip)"
  unfolding replicaOf_def by (intro client_intro; intro keeps_intro become_replica_kept)

end

sublocale attach_trace \<subseteq> attach_contract "emits P"
  by unfold_locales
    (auto simp: patch_pod_status_def patch_pod_def
      intro!: replicaOf_kept replicaOfNoOne_kept removal_call
        record_event_kept event_call read_clock_kept clock_call call_kept condition_call)

text \<open>With the patches of the status, the contract of the lifecycle controller.\<close>

locale role_trace = attach_trace +
  assumes status_call: "P [Patch_dragonfly_status old new r1]"
begin

lemma patchStatus_kept: "keeps (guarded (emits P)) (patchStatus E st)"
  unfolding patchStatus_def
  by (intro keeps_intro set_df_kept)
    (auto simp: patch_dragonfly_status_def intro!: call_kept status_call)

end

sublocale role_trace \<subseteq> lifecycle_contract "emits P"
proof unfold_locales
  show "keeps (guarded (emits P)) (bnd (replicaOfNoOne E p) (\<lambda>m.
      bnd (patchStatus E (st\<lparr>statusPhase := PhaseReady\<rparr>)) (\<lambda>_. ret m)))" for E p st
    by (intro guard.bnd_ok guard.ret_ok replicaOfNoOne_kept patchStatus_kept)
qed (rule patchStatus_kept)

text \<open>With the takeover, the deletions and the owned objects, both contracts of the Dragonfly controller.\<close>

locale full_trace = role_trace +
  assumes replTakeover_kept: "keeps (guarded (emits P)) (replTakeover E new old)"
    and delete_call: "P [Delete_pod d r9]"
    and object_calls: "P [Get_object x r10]" "P [Create_object x r11]"
      "P [Patch_object x (patched_object (keep_immutable o1 x) x) r12]"
      "P [Delete_pdb ns n r13]"
begin

lemma delete_kept [keeps_intro]: "keeps (guarded (emits P)) (delete_pod E p)"
  unfolding delete_pod_def by (intro call_kept delete_call)

end

sublocale full_trace \<subseteq> rollout_contract "emits P" urev for urev
  by unfold_locales (auto intro!: replTakeover_kept delete_kept patchStatus_kept)

sublocale full_trace \<subseteq> instance_contract "emits P"
  by unfold_locales
    (auto simp: get_object_def create_object_def patch_object_def delete_pdb_def
      intro!: call_kept object_calls)

context full_trace
begin

lemma rollout_round_kept: "keeps (guarded (emits P)) (rollout_round E st)"
  unfolding rollout_round_def by (intro keeps_intro rollout_to_ok)

lemma DragonflyReconcile_kept:
  assumes "\<And>ns n r. P [Get_dragonfly ns n r]"
  shows "keeps (emits P) (DragonflyReconcile E img ns name)"
  by (rule DragonflyReconcile_ok)
    (auto simp: get_dragonfly_def emits_def nil intro!: perform_ok assms rollout_round_kept)

end

context role_trace
begin

lemma PodReconcile_kept:
  assumes "\<And>ns n r. P [Get_dragonfly ns n r]" and "\<And>ns n r. P [Get_pod ns n r]"
  shows "keeps (emits P) (PodReconcile E ns name)"
  by (rule PodReconcile_ok)
    (auto simp: get_dragonfly_def get_pod_def emits_def nil intro!: perform_ok assms)

end

subsection \<open>Contracts that allow every call of a kind\<close>

locale all_roles_trace = acting_trace +
  assumes slave_call: "P [Redis_call (admin_addr ip) (Slave_of h p) r6]"
    and label_call: "P [Patch_pod old_pod new_pod r7]"
begin

lemma slave_of_kept [keeps_intro]:
  "keeps (guarded (emits P)) (redis E (newRedisClient ip) (Slave_of h p))"
  unfolding redis_def by (intro call_kept slave_call)

lemma patch_pod_kept [keeps_intro]: "keeps (guarded (emits P)) (patch_pod E p q)"
  unfolding patch_pod_def by (intro call_kept label_call)

lemma patch_marked_kept [keeps_intro]: "keeps (guarded (emits P)) (patch_marked E p q)"
  unfolding patch_marked_def by (intro keeps_intro)

end

sublocale all_roles_trace \<subseteq> attach_trace
proof unfold_locales
  show "keeps (guarded (emits P)) (become_replica E (newRedisClient (podIP p)) p m)" for E p m
    unfolding become_replica_def by (intro keeps_intro)
  show "keeps (guarded (emits P)) (replicaOfNoOne E p)" for E p
    unfolding replicaOfNoOne_def by (intro client_intro; intro keeps_intro)
qed

locale all_calls_trace = all_roles_trace +
  assumes status_allowed: "P [Patch_dragonfly_status old new r1]"
    and takeover_call: "P [Redis_do (admin_addr ip) args r8]"
    and deletes_allowed: "P [Delete_pod d r9]"
    and objects_allowed: "P [Get_object x r10]" "P [Create_object x r11]"
      "P [Patch_object x (patched_object (keep_immutable o1 x) x) r12]"
      "P [Delete_pdb ns n r13]"

sublocale all_calls_trace \<subseteq> full_trace
proof unfold_locales
  have takeover: "keeps (guarded (emits P)) (redis_do E (newRedisClient ip) args)" for E ip args
    unfolding redis_do_def by (intro call_kept takeover_call)
  have deletion: "keeps (guarded (emits P)) (delete_pod E p)" for E p
    unfolding delete_pod_def by (intro call_kept deletes_allowed)
  show "keeps (guarded (emits P)) (replTakeover E new old)" for E new old
    unfolding replTakeover_def by (intro client_intro; intro keeps_intro takeover deletion)
qed (rule status_allowed deletes_allowed objects_allowed)+

subsection \<open>The calls of a lifecycle reconciliation\<close>

text \<open>What the pod lifecycle controller never does: delete a pod, touch an owned object, take over.\<close>

definition lifecycle_call :: "call \<Rightarrow> bool" where
  "lifecycle_call c \<longleftrightarrow> (case c of
      Delete_pod _ _ \<Rightarrow> False
    | Get_object _ _ \<Rightarrow> False
    | Create_object _ _ \<Rightarrow> False
    | Patch_object _ _ _ \<Rightarrow> False
    | Delete_pdb _ _ _ \<Rightarrow> False
    | Redis_do _ _ _ \<Rightarrow> False
    | _ \<Rightarrow> True)"

interpretation lifecycle_only: call_contract lifecycle_call .

interpretation lifecycle_only: all_roles_trace "list_all lifecycle_call"
  by unfold_locales (simp_all add: lifecycle_call_def)

interpretation lifecycle_only: role_trace "list_all lifecycle_call"
  by unfold_locales (simp_all add: lifecycle_call_def)

lemma lifecycle_calls: "keeps (emits (list_all lifecycle_call)) (PodReconcile E ns name)"
  by (rule lifecycle_only.PodReconcile_kept) (simp_all add: lifecycle_call_def)

subsection \<open>The address of every Redis command\<close>

definition is_admin_addr :: "string \<Rightarrow> bool" where
  "is_admin_addr a = has_prefix (rev a) (rev '':9999'')"

definition admin_call :: "call \<Rightarrow> bool" where
  "admin_call c \<longleftrightarrow> (case c of
      Redis_call a _ _ \<Rightarrow> is_admin_addr a
    | Redis_do a _ _ \<Rightarrow> is_admin_addr a
    | _ \<Rightarrow> True)"

lemma is_admin_addr_client [simp]: "is_admin_addr (admin_addr ip)"
  by (simp add: is_admin_addr_def newRedisClient_def join_host_port_def has_prefix_def)

interpretation admin_only: call_contract admin_call .

interpretation admin_only: all_calls_trace "list_all admin_call"
  by unfold_locales (simp_all add: admin_call_def)

lemma admin_calls:
  "keeps (emits (list_all admin_call)) (PodReconcile E ns name)"
  "keeps (emits (list_all admin_call)) (DragonflyReconcile E img ns name)"
  by (rule admin_only.PodReconcile_kept admin_only.DragonflyReconcile_kept; simp add: admin_call_def)+

subsection \<open>Patches of owned objects\<close>

definition patch_allowed :: "call \<Rightarrow> bool" where
  "patch_allowed c \<longleftrightarrow> (case c of Patch_object old new _ \<Rightarrow> immutable_kept old new | _ \<Rightarrow> True)"

interpretation patches: call_contract patch_allowed .

interpretation patches: all_calls_trace "list_all patch_allowed"
  by unfold_locales (simp_all add: patch_allowed_def patch_immutable_kept)

lemma patches_allowed: "keeps (emits (list_all patch_allowed)) (DragonflyReconcile E img ns name)"
  by (rule patches.DragonflyReconcile_kept) (simp add: patch_allowed_def)

subsection \<open>Calls that must follow others\<close>

text \<open>
  \<open>caused ok before cs\<close>: each of the calls \<open>cs\<close> is justified by the calls made ahead of it,
  the latest first. Calls made still earlier only add to the justification.
\<close>

fun caused :: "(call list \<Rightarrow> call \<Rightarrow> bool) \<Rightarrow> call list \<Rightarrow> call list \<Rightarrow> bool" where
  "caused ok before [] = True"
| "caused ok before (c # cs) = (ok before c \<and> caused ok (c # before) cs)"

lemma caused_append: "caused ok before (xs @ ys) \<longleftrightarrow> caused ok before xs \<and> caused ok (rev xs @ before) ys"
  by (induction xs arbitrary: before) auto

locale causal =
  fixes ok :: "call list \<Rightarrow> call \<Rightarrow> bool"
  assumes earlier: "ok before c \<Longrightarrow> ok (before @ older) c"
begin

lemma caused_earlier: "caused ok before cs \<Longrightarrow> caused ok (before @ older) cs"
proof (induction cs arbitrary: before)
  case (Cons c cs)
  then have "ok (before @ older) c" by (auto intro: earlier)
  moreover from Cons.prems have "caused ok ((c # before) @ older) cs"
    by (intro Cons.IH) simp
  ultimately show ?case by simp
qed simp

lemma caused_single: "(\<And>before. ok before c) \<Longrightarrow> caused ok [] [c]"
  by simp

end

sublocale causal \<subseteq> trace_contract "caused ok []"
proof unfold_locales
  show "caused ok [] (xs @ ys)" if "caused ok [] xs" "caused ok [] ys" for xs ys
    using that caused_earlier [of "[]" ys "rev xs"] by (simp add: caused_append)
qed simp

subsection \<open>Role labels follow the data store\<close>

text \<open>
  The calls that change the role of the data store at an address, and what justifies the
  metadata of a patch: the latest of these calls to the pod's own admin port must have
  been answered with OK and must have asked for that role.
\<close>

definition changes_role :: "string \<Rightarrow> call \<Rightarrow> bool" where
  "changes_role addr c \<longleftrightarrow> (case c of
      Redis_call a (Slave_of h p) _ \<Rightarrow> a = addr
    | Redis_do a _ _ \<Rightarrow> a = addr
    | _ \<Rightarrow> False)"

definition made_master :: "call option \<Rightarrow> bool" where
  "made_master c \<longleftrightarrow> (case c of
      Some (Redis_call _ (Slave_of h p) r) \<Rightarrow> h = ''NO'' \<and> p = ''ONE'' \<and> r = Inr ''OK''
    | Some (Redis_do _ args r) \<Rightarrow>
        args = [''repltakeover'', takeover_seconds] \<and> r = Inr (Str_reply ''OK'')
    | _ \<Rightarrow> False)"

definition made_replica_of :: "string option \<Rightarrow> call option \<Rightarrow> bool" where
  "made_replica_of ip c \<longleftrightarrow> (case c of
      Some (Redis_call _ (Slave_of h p) r) \<Rightarrow>
        ip = Some h \<and> p = itoa DragonflyAdminPort \<and> r = Inr ''OK''
    | _ \<Rightarrow> False)"

definition label_justified :: "call list \<Rightarrow> call \<Rightarrow> bool" where
  "label_justified before c \<longleftrightarrow> (case c of
      Patch_pod old new _ \<Rightarrow>
        (case go_lookup (podLabels new) RoleLabelKey of
           None \<Rightarrow> True
         | Some role \<Rightarrow>
             (let latest = find (changes_role (admin_addr (podIP new))) before in
              if role = Master then made_master latest
              else role = Replica \<and>
                   made_replica_of (go_lookup (podAnnotations new) MasterIpAnnotationKey) latest))
    | _ \<Rightarrow> True)"

lemma latest_earlier:
  "made_master (find Q before) \<Longrightarrow> made_master (find Q (before @ older))"
  "made_replica_of ip (find Q before) \<Longrightarrow> made_replica_of ip (find Q (before @ older))"
  by (cases "find Q before"; simp add: made_master_def made_replica_of_def find_append)+

interpretation labels: causal label_justified
proof
  show "label_justified (before @ older) c" if "label_justified before c" for before older c
    using that latest_earlier
    by (auto simp: label_justified_def Let_def split: call.splits option.splits if_splits)
qed

lemma label_justified_simps [simp]:
  "label_justified before (Redis_call a cmd r)"
  "label_justified before (Redis_do a args r1)"
  "label_justified before (List_pods ns sel r2)"
  "label_justified before (Get_pod ns n r3)"
  "label_justified before (Get_dragonfly ns n r4)"
  "label_justified before (Get_statefulset ns n r5)"
  "label_justified before (Patch_pod_status p q r6)"
  "label_justified before (Patch_dragonfly_status d d' r7)"
  "label_justified before (Delete_pod p r8)"
  "label_justified before (Record_event x y z)"
  "label_justified before (Read_clock now)"
  "label_justified before (Get_object ob r9)"
  "label_justified before (Create_object ob r10)"
  "label_justified before (Patch_object ob ob' r11)"
  "label_justified before (Delete_pdb ns n r12)"
  by (simp_all add: label_justified_def)

interpretation labels: acting_trace "caused label_justified []"
  by unfold_locales (simp_all, simp add: label_justified_def)

text \<open>Rules for a program whose calls come in a fixed order: the calls made are consumed one by one.\<close>

lemma emits_stop:
  "Q [] \<Longrightarrow> keeps (guarded (emits Q)) (fail e)"
  "Q [] \<Longrightarrow> keeps (guarded (emits Q)) (ret x)"
  "Q [] \<Longrightarrow> keeps (guarded (emits Q)) panic"
  by (simp_all add: keeps_def guarded_def emits_def fail_def ret_def panic_def)

lemma emits_call: "(\<And>r. Q [c r]) \<Longrightarrow> keeps (guarded (emits Q)) (perform ask c)"
  by (rule guarded_perform) (simp add: keeps_def perform_def emits_def)

lemma emits_map_error: "keeps (guarded (emits Q)) m \<Longrightarrow> keeps (guarded (emits Q)) (map_error f m)"
  unfolding keeps_def map_error_def by (auto split: prod.splits result.splits) (metis snd_conv)+

lemma emits_get_df:
  "(\<And>d. keeps (guarded (emits Q)) (k d)) \<Longrightarrow> keeps (guarded (emits Q)) (bnd get_df k)"
  by (simp add: keeps_def get_df_def bnd_def)

lemma emits_bnd_if:
  "keeps (guarded (emits Q)) (if b then bnd m k else bnd n k) \<Longrightarrow>
   keeps (guarded (emits Q)) (bnd (if b then m else n) k)"
  by (simp add: bnd_if)

lemma emits_bnd_ret: "keeps R (k x) \<Longrightarrow> keeps R (bnd (ret x) k)"
  by simp

lemma emits_after:
  assumes stop: "\<And>e. Q [c (Inl e)]"
    and go: "\<And>x. keeps (guarded (emits (\<lambda>cs. Q (c (Inr x) # cs)))) (k x)"
  shows "keeps (guarded (emits Q)) (bnd (perform ask c) k)"
proof (rule keepsI)
  fix s r t
  assume run: "bnd (perform ask c) k s = (r, t)"
  let ?u = "s\<lparr>history := history s @ [c (ask (history s))]\<rparr>"
  have ok: "clients_ok ?u = clients_ok s" by (simp add: clients_ok_def)
  show "guarded (emits Q) s t"
  proof (cases "ask (history s)")
    case (Inl e)
    with run have "t = ?u" by (simp add: bnd_def perform_def)
    with stop [of e] ok Inl show ?thesis by (auto simp: guarded_def emits_def)
  next
    case (Inr x)
    with run have "k x ?u = (r, t)" by (simp add: bnd_def perform_def)
    with go [of x] have "guarded (emits (\<lambda>cs. Q (c (Inr x) # cs))) ?u t" by (rule keepsD)
    with ok Inr show ?thesis by (auto simp: guarded_def emits_def)
  qed
qed

lemma emits_after_map_error:
  assumes "\<And>e. Q [c (Inl e)]" and "\<And>x. keeps (guarded (emits (\<lambda>cs. Q (c (Inr x) # cs)))) (k x)"
  shows "keeps (guarded (emits Q)) (bnd (map_error f (perform ask c)) k)"
proof (rule keepsI)
  fix s r t
  assume "bnd (map_error f (perform ask c)) k s = (r, t)"
  then have "\<exists>r'. bnd (perform ask c) k s = (r', t)"
    by (auto simp: bnd_def map_error_def perform_def split: result.splits)
  with emits_after [OF assms] show "guarded (emits Q) s t" by (blast dest: keepsD)
qed

text \<open>The patch of the metadata, right after the command it records.\<close>

lemmas label_patch_simps =
  label_justified_def changes_role_def made_master_def made_replica_of_def Let_def

lemma label_patch_replica:
  assumes "mark_replica p ip = Some q"
  shows "label_justified
    [Redis_call (admin_addr (podIP p)) (Slave_of ip (itoa DragonflyAdminPort)) (Inr ''OK'')]
    (Patch_pod p q r)"
  using mark_replica_labels [OF assms] by (simp add: label_patch_simps)

lemma label_patch_master:
  assumes "mark_master p = Some q"
    and "made_master (find (changes_role (admin_addr (podIP p))) before)"
  shows "label_justified before (Patch_pod p q r)"
  using mark_master_labels [OF assms(1)] assms(2) by (simp add: label_justified_def Let_def)

lemmas emits_steps =
  keeps_if keeps_case_option emits_stop emits_call emits_after emits_after_map_error
  emits_map_error emits_get_df emits_bnd_if emits_bnd_ret

lemma labels_become_replica:
  "keeps (guarded (emits (caused label_justified []))) (become_replica E (newRedisClient (podIP p)) p ip)"
proof -
  have slave: "keeps (guarded (emits (caused label_justified [])))
    (bnd (map_error f (redis E (newRedisClient (podIP p)) (Slave_of ip (itoa DragonflyAdminPort))))
      (\<lambda>resp. if resp \<noteq> ''OK'' then fail (e resp)
             else wrap w (patch_marked E p (mark_replica p ip))))" for f e w
    unfolding redis_def patch_marked_def patch_pod_def
    by (intro emits_steps) (simp_all add: label_patch_replica [simplified])
  show ?thesis
    unfolding become_replica_def
    by (rule labels.guard.bnd_ok, intro keeps_intro, rule labels.guard.bnd_ok, intro keeps_intro,
        rule slave)
qed

lemma labels_mark_master:
  assumes "made_master (find (changes_role (admin_addr (podIP p))) before)"
  shows "keeps (guarded (emits (caused label_justified before))) (patch_marked E p (mark_master p))"
  unfolding patch_marked_def patch_pod_def
  by (intro emits_steps) (simp_all add: label_patch_master assms)

lemma labels_replicaOfNoOne:
  "keeps (guarded (emits (caused label_justified []))) (replicaOfNoOne E p)"
  unfolding replicaOfNoOne_def redis_def
  by (rule labels.with_cached_client,
      intro emits_after_map_error keeps_if emits_stop emits_get_df emits_bnd_if emits_bnd_ret)
    (simp_all add: labels_mark_master changes_role_def made_master_def)

lemma emits_after_marked:
  assumes "Q []" and "\<And>q. m = Some q \<Longrightarrow> keeps (guarded (emits Q)) (bnd (map_error f (patch_pod E p q)) k)"
  shows "keeps (guarded (emits Q)) (bnd (map_error f (patch_marked E p m)) k)"
proof (cases m)
  case None
  then have "bnd (map_error f (patch_marked E p m)) k = panic"
    by (intro ext) (simp add: patch_marked_def bnd_def map_error_def panic_def)
  with assms(1) show ?thesis by (simp add: emits_stop)
next
  case (Some q)
  with assms(2) show ?thesis by (simp add: patch_marked_def)
qed

lemma labels_replTakeover:
  "keeps (guarded (emits (caused label_justified []))) (replTakeover E new old)"
  unfolding replTakeover_def redis_def redis_do_def delete_pod_def
  by (rule labels.with_cached_client,
      intro emits_after_map_error keeps_if emits_stop emits_get_df emits_bnd_if emits_bnd_ret
        emits_after_marked [unfolded patch_pod_def])
    (simp_all add: label_patch_master changes_role_def made_master_def)

interpretation labels: full_trace "caused label_justified []"
  by unfold_locales
    (simp_all add: labels_become_replica labels_replicaOfNoOne labels_replTakeover)

lemma labels_follow:
  "keeps (emits (caused label_justified [])) (PodReconcile E ns name)"
  "keeps (emits (caused label_justified [])) (DragonflyReconcile E img ns name)"
  by (rule labels.PodReconcile_kept labels.DragonflyReconcile_kept; simp)+

subsection \<open>Properties\<close>

text \<open>C1: Whatever the API server and the data stores answer, in one reconciliation of the pod
  lifecycle controller every patch that sets a role label follows the data store: the
  latest role-changing command sent to that pod's admin port was answered OK, it was SLAVEOF
  NO ONE (or a takeover) for the label master, and SLAVEOF of the address written into the
  annotation for the label replica.\<close>

theorem pod_labels_follow_store:
  "\<exists>cs. history (snd (PodReconcile E ns name s)) = history s @ cs \<and> caused label_justified [] cs"
  using labels_follow(1) [of E ns name] unfolding keeps_def emits_def by blast

text \<open>C2: The same for one reconciliation of the Dragonfly controller, with its takeovers and
  reconfigurations during a rolling update.\<close>

theorem instance_labels_follow_store:
  "\<exists>cs. history (snd (DragonflyReconcile E img ns name s)) = history s @ cs \<and>
     caused label_justified [] cs"
  using labels_follow(2) [of E img ns name] unfolding keeps_def emits_def by blast

text \<open>C24: The pod lifecycle controller, which runs on every pod event and beside a rolling update,
  never deletes a pod, never takes over, and never touches an owned object.\<close>

theorem lifecycle_not_destructive:
  "\<exists>cs. history (snd (PodReconcile E ns name s)) = history s @ cs \<and> list_all lifecycle_call cs"
  using lifecycle_calls [of E ns name] unfolding keeps_def emits_def by blast

text \<open>C30: Every Redis command of both controllers goes to an admin port (the one that needs neither
  TLS nor a password), also through the cache of clients.\<close>

theorem admin_port_only:
  "(\<exists>cs. history (snd (PodReconcile E ns name s)) = history s @ cs \<and> list_all admin_call cs) \<and>
   (\<exists>ds. history (snd (DragonflyReconcile E img ns name s)) = history s @ ds \<and> list_all admin_call ds)"
  using admin_calls(1) [of E ns name] admin_calls(2) [of E img ns name]
  unfolding keeps_def emits_def by blast

text \<open>C11: A Dragonfly reconciliation never asks the API server to change what cannot change: each
  patch of an owned object keeps its name, namespace and owners, of a StatefulSet the claim
  templates, the selector, the service name and the pod management policy, of a service the
  cluster address, the address families and their policy, and, where its type has them, the node
  ports of the ports that keep their names, the traffic policy, the load balancer class and,
  under the traffic policy Local, the port of the health check.\<close>

theorem patches_respect_immutable:
  "\<exists>cs. history (snd (DragonflyReconcile E img ns name s)) = history s @ cs \<and> list_all patch_allowed cs"
  using patches_allowed [of E img ns name] unfolding keeps_def emits_def by blast

text \<open>The queries a reconciliation decides on only read: finding the master, finding a healthy
  pod, checking a replica and its stability, and collecting a candidate of the election make
  no call that changes the cluster or a data store.\<close>

theorem queries_only_read:
  assumes "clients_ok s"
  shows "(\<exists>cs. history (snd (getMaster E s)) = history s @ cs \<and> list_all reads cs) \<and>
    (\<exists>cs. history (snd (getHealthyPod E s)) = history s @ cs \<and> list_all reads cs) \<and>
    (\<exists>cs. history (snd (isReplicaStable E p s)) = history s @ cs \<and> list_all reads cs) \<and>
    (\<exists>cs. history (snd (checkReplicaRole E p ip s)) = history s @ cs \<and> list_all reads cs) \<and>
    (\<exists>cs. history (snd (getMasterCandidate E p s)) = history s @ cs \<and> list_all reads cs)"
  using assms read_only.getMaster_ok [of E] read_only.getHealthyPod_ok [of E]
    read_only.isReplicaStable_ok [of E p] read_only.checkReplicaRole_ok [of E p ip]
    read_only.getMasterCandidate_ok [of E p]
  unfolding keeps_def guarded_def emits_def by blast

lemma queries_only_read_witness:
  "clients_ok (sample_state PhaseReady) \<and>
   (\<exists>cs. history (snd (getMaster (sample_env [sample_master, sample_replica]) (sample_state PhaseReady))) = cs \<and>
     list_all reads cs)"
  using queries_only_read [of "sample_state PhaseReady" "sample_env [sample_master, sample_replica]"
      sample_replica "''10.0.0.1''"]
  by (simp add: sample_state_def clients_ok_def)

end
