(* ===== verification/Rollout_Safety.thy ===== *)
theory Rollout_Safety
  imports Operator_Safety
begin

section \<open>Safety of rolling updates\<close>

text \<open>
  Which pods a round of a rolling update deletes, when, and how many: only outdated ones,
  one at a time until the master's turn, and the old master only after the takeover.
\<close>

subsection \<open>Only outdated pods are deleted\<close>

definition outdated_for :: "pod \<Rightarrow> call \<Rightarrow> bool" where
  "outdated_for p c \<longleftrightarrow> (case c of
      Get_statefulset _ _ (Inr sts) \<Rightarrow> \<not> isPodOnLatestVersion p (stsUpdateRevision sts)
    | _ \<Rightarrow> False)"

definition delete_justified :: "call list \<Rightarrow> call \<Rightarrow> bool" where
  "delete_justified before c \<longleftrightarrow> (case c of
      Delete_pod p _ \<Rightarrow> list_ex (outdated_for p) before
    | _ \<Rightarrow> True)"

interpretation deletes: causal delete_justified
  by unfold_locales (auto simp: delete_justified_def list_ex_append split: call.splits)

text \<open>The calls of a round towards a revision.\<close>

definition round_call :: "string \<Rightarrow> call \<Rightarrow> bool" where
  "round_call urev c \<longleftrightarrow> (case c of Delete_pod p _ \<Rightarrow> \<not> isPodOnLatestVersion p urev | _ \<Rightarrow> True)"

interpretation round: call_contract "round_call urev" for urev .

interpretation round: all_roles_trace "list_all (round_call urev)" for urev
  by unfold_locales (simp_all add: round_call_def)

interpretation round: role_trace "list_all (round_call urev)" for urev
  by unfold_locales (simp_all add: round_call_def)

interpretation round: rollout_contract "emits (list_all (round_call urev))" urev for urev
proof unfold_locales
  have deletion: "keeps (guarded (emits (list_all (round_call urev)))) (delete_pod E p)"
    if "\<not> isPodOnLatestVersion p urev" for E p
    unfolding delete_pod_def by (rule round.call_kept) (simp add: round_call_def that)
  have takeover: "keeps (guarded (emits (list_all (round_call urev)))) (redis_do E (newRedisClient ip) args)"
    for E ip args
    unfolding redis_do_def by (rule round.call_kept) (simp add: round_call_def)
  show "keeps (guarded (emits (list_all (round_call urev)))) (delete_pod E p)"
    if "\<not> isPodOnLatestVersion p urev" for E p
    using that by (rule deletion)
  show "keeps (guarded (emits (list_all (round_call urev)))) (replTakeover E new old)"
    if "\<not> isPodOnLatestVersion old urev" for E new old
    unfolding replTakeover_def
    by (intro round.client_intro; intro keeps_intro takeover deletion that)
qed (rule round.patchStatus_kept)

lemma round_deletes:
  assumes "list_all (round_call (stsUpdateRevision sts)) cs"
    and "Get_statefulset ns n (Inr sts) \<in> set before"
  shows "caused delete_justified before cs"
  using assms
proof (induction cs arbitrary: before)
  case (Cons c cs)
  have "delete_justified before c"
    using Cons.prems
    by (auto simp: delete_justified_def round_call_def outdated_for_def list_ex_iff
        split: call.splits sum.splits)
  with Cons show ?case by simp
qed simp

lemma emits_weaken:
  "keeps (guarded (emits P)) m \<Longrightarrow> (\<And>cs. P cs \<Longrightarrow> Q cs) \<Longrightarrow> keeps (guarded (emits Q)) m"
  unfolding keeps_def guarded_def emits_def by blast

lemma map_error_get_df: "bnd (map_error f (bnd get_df g)) k = bnd get_df (\<lambda>d. bnd (map_error f (g d)) k)"
  by (rule ext) (simp add: bnd_def map_error_def get_df_def)

lemma deletes_rollout_round: "keeps (guarded (emits (caused delete_justified []))) (rollout_round E st)"
  unfolding rollout_round_def getStatefulSet_def get_statefulset_def map_error_get_df
  by (intro emits_get_df emits_after_map_error emits_weaken [OF round.rollout_to_ok])
    (auto simp: delete_justified_def intro: round_deletes)

interpretation deletes: all_roles_trace "caused delete_justified []"
  by unfold_locales (simp_all add: delete_justified_def)

interpretation deletes: role_trace "caused delete_justified []"
  by unfold_locales (simp_all add: delete_justified_def)

interpretation deletes: instance_contract "emits (caused delete_justified [])"
  by unfold_locales
    (auto simp: get_object_def create_object_def patch_object_def delete_pdb_def delete_justified_def
      intro!: deletes.call_kept)

lemma deletes_outdated: "keeps (emits (caused delete_justified [])) (DragonflyReconcile E img ns name)"
  by (rule deletes.DragonflyReconcile_ok)
    (auto simp: get_dragonfly_def delete_justified_def emits_def
      intro!: deletes.perform_ok deletes_rollout_round)

subsection \<open>The old master goes last\<close>

text \<open>
  The deletion of the old master in a takeover: it follows a successful patch that gives
  the new master its role label, and that one an accepted takeover command.
\<close>

definition promoted :: "pod \<Rightarrow> call \<Rightarrow> bool" where
  "promoted new c \<longleftrightarrow> (case c of
      Patch_pod old q (Inr _) \<Rightarrow> old = new \<and> go_lookup (podLabels q) RoleLabelKey = Some Master
    | _ \<Rightarrow> False)"

definition took_over :: "pod \<Rightarrow> call \<Rightarrow> bool" where
  "took_over new c \<longleftrightarrow>
     c = Redis_do (admin_addr (podIP new)) [''repltakeover'', takeover_seconds] (Inr (Str_reply ''OK''))"

definition takeover_order :: "pod \<Rightarrow> pod \<Rightarrow> call list \<Rightarrow> call \<Rightarrow> bool" where
  "takeover_order new old before c \<longleftrightarrow> (case c of
      Delete_pod p _ \<Rightarrow> p = old \<and> list_ex (promoted new) before \<and> list_ex (took_over new) before
    | Patch_pod p q _ \<Rightarrow> p = new \<and> list_ex (took_over new) before
    | _ \<Rightarrow> True)"

interpretation takeover: causal "takeover_order new old" for new old
  by unfold_locales (auto simp: takeover_order_def list_ex_append split: call.splits)

lemma takeover_kept:
  "keeps (guarded (emits (caused (takeover_order new old) []))) (replTakeover E new old)"
  unfolding replTakeover_def redis_def redis_do_def delete_pod_def
  by (rule takeover.with_cached_client,
      intro emits_after_map_error keeps_if emits_stop emits_get_df emits_bnd_if emits_bnd_ret
        emits_after_marked [unfolded patch_pod_def])
    (simp_all add: takeover_order_def took_over_def promoted_def mark_master_labels)

subsection \<open>One deletion per round\<close>

definition deleted_pod :: "call \<Rightarrow> pod option" where
  "deleted_pod c = (case c of Delete_pod p _ \<Rightarrow> Some p | _ \<Rightarrow> None)"

definition deletions :: "call list \<Rightarrow> pod list" where
  "deletions cs = List.map_filter deleted_pod cs"

lemma deletions_append [simp]: "deletions (xs @ ys) = deletions xs @ deletions ys"
  by (simp add: deletions_def map_filter_def)

lemma deletions_simps [simp]:
  "deletions [] = []"
  "deletions (Delete_pod p r # cs) = p # deletions cs"
  "deletions (Record_event x y z # cs) = deletions cs"
  "deletions (Patch_pod_status p q r2 # cs) = deletions cs"
  by (simp_all add: deletions_def map_filter_def deleted_pod_def)

definition no_deletion :: "call \<Rightarrow> bool" where
  "no_deletion c \<longleftrightarrow> deleted_pod c = None"

lemma no_deletions: "list_all no_deletion cs \<Longrightarrow> deletions cs = []"
  by (induction cs) (auto simp: deletions_def map_filter_def no_deletion_def)

interpretation sparing: call_contract no_deletion .

interpretation sparing: all_roles_trace "list_all no_deletion"
  by unfold_locales (simp_all add: no_deletion_def deleted_pod_def)

interpretation sparing: role_trace "list_all no_deletion"
  by unfold_locales (simp_all add: no_deletion_def deleted_pod_def)

text \<open>A program that deletes nothing, run from a state with a sound client cache.\<close>

lemma spared:
  assumes "keeps (guarded (emits (list_all no_deletion))) m" and "clients_ok s" and "m s = (q, u)"
  obtains cs where "history u = history s @ cs" and "deletions cs = []" and "clients_ok u"
  using guardedD [OF assms] by (auto simp: emits_def no_deletions)

text \<open>What a step deletes: nothing, or one outdated pod and then the round ends with a requeue.\<close>

definition ends_with_one :: "(pod \<Rightarrow> bool) \<Rightarrow> bool \<Rightarrow> call list \<Rightarrow> bool" where
  "ends_with_one may goes_on cs \<longleftrightarrow>
     (case deletions cs of [] \<Rightarrow> True | [p] \<Rightarrow> may p \<and> \<not> goes_on | _ \<Rightarrow> False)"

definition goes_on :: "ctrl_result result \<Rightarrow> bool" where
  "goes_on r \<longleftrightarrow> (case r of Ok res \<Rightarrow> is_zero_result res | _ \<Rightarrow> False)"

lemma for_until_one:
  assumes step: "\<And>x s r t. x \<in> set xs \<Longrightarrow> clients_ok s \<Longrightarrow> f x s = (r, t) \<Longrightarrow>
      clients_ok t \<and> (\<exists>cs. history t = history s @ cs \<and> ends_with_one may (r = Ok None) cs)"
    and "clients_ok s" and "for_until f xs s = (r, t)"
  shows "\<exists>cs. history t = history s @ cs \<and> ends_with_one may (r = Ok None) cs"
  using assms
proof (induction xs arbitrary: s)
  case Nil
  then show ?case by (simp add: run_simps ends_with_one_def)
next
  case (Cons x xs)
  obtain q u where fx: "f x s = (q, u)" by fastforce
  with Cons.prems obtain cs where u: "clients_ok u" "history u = history s @ cs"
    and cs: "ends_with_one may (q = Ok None) cs" by force
  show ?case
  proof (cases "q = Ok None")
    case True
    with Cons.prems(3) fx have rest: "for_until f xs u = (r, t)" by (simp add: run_simps)
    with Cons u obtain ds where "history t = history u @ ds" "ends_with_one may (r = Ok None) ds"
      by (metis list.set_intros(2))
    with True u cs show ?thesis
      by (intro exI [of _ "cs @ ds"]) (auto simp: ends_with_one_def split: list.splits)
  next
    case False
    with Cons.prems(3) fx have "t = u \<and> r \<noteq> Ok None"
      by (auto simp: run_simps split: result.splits option.splits)
    with u cs False show ?thesis by auto
  qed
qed

text \<open>The pods a step may delete.\<close>

definition stuck_outdated :: "string \<Rightarrow> pod \<Rightarrow> bool" where
  "stuck_outdated urev p \<longleftrightarrow>
     \<not> isPodOnLatestVersion p urev \<and> \<not> isRunningAndReady p \<and> \<not> isTerminating p"

lemma pod_progress_one:
  assumes "clients_ok s" and run: "pod_progress E urev p s = (r, t)"
  shows "clients_ok t \<and> (\<exists>cs. history t = history s @ cs \<and>
    ends_with_one (stuck_outdated urev) (r = Ok None) cs)"
proof (cases "\<not> isTerminating p \<and> \<not> isPodOnLatestVersion p urev \<and> \<not> isRunningAndReady p")
  case True
  with run assms(1) show ?thesis
    by (auto simp: pod_progress_def run_simps delete_pod_def perform_def clients_ok_def
        ends_with_one_def stuck_outdated_def split: result.splits)
next
  case False
  have "keeps (guarded (emits (list_all no_deletion))) (pod_progress E urev p)"
    using False unfolding pod_progress_def by (intro keeps_intro) auto
  then obtain cs where "history t = history s @ cs" "deletions cs = []" "clients_ok t"
    using assms by (rule spared)
  then show ?thesis by (auto simp: ends_with_one_def)
qed

lemma for_until_result:
  assumes "\<And>x s t. f x s = (Ok (Some y), t) \<Longrightarrow> Q" and "for_until f xs s = (Ok (Some y), t)"
  shows Q
  using assms by (induction xs arbitrary: s) (auto simp: run_simps split: prod.splits result.splits option.splits)

lemma pod_progress_result: "pod_progress E urev p s = (Ok (Some res), t) \<Longrightarrow> res = requeue (5 * second)"
  by (auto simp: pod_progress_def run_simps split: if_splits prod.splits result.splits)

lemma allPodsHealthy_run:
  assumes ok: "clients_ok s" and run: "allPodsHealthyAndHaveRole E urev s = (r, t)"
  obtains cs where "history t = history s @ cs" and "ends_with_one (stuck_outdated urev) (goes_on r) cs"
proof -
  let ?m = "wrap ''failed to get dragonfly pods'' (getPods E)"
  obtain q u where m: "?m s = (q, u)" by fastforce
  have "keeps (guarded (emits (list_all no_deletion))) ?m" by (intro keeps_intro)
  then obtain cs where u: "history u = history s @ cs" "deletions cs = []" "clients_ok u"
    using ok m by (rule spared)
  show ?thesis
  proof (cases q)
    case (Ok pods)
    let ?f = "for_until (pod_progress E urev) (sort_by_name pods)"
    obtain v w where f: "?f u = (v, w)" by fastforce
    have "\<exists>ds. history w = history u @ ds \<and> ends_with_one (stuck_outdated urev) (v = Ok None) ds"
      by (rule for_until_one [OF pod_progress_one u(3) f]) auto
    then obtain ds where ds: "history w = history u @ ds"
      "ends_with_one (stuck_outdated urev) (v = Ok None) ds" by blast
    have "\<not> is_zero_result res" if "v = Ok (Some res)" for res
    proof -
      from f that have "for_until (pod_progress E urev) (sort_by_name pods) u = (Ok (Some res), w)" by simp
      then have "res = requeue (5 * second)"
        by (rule for_until_result [rotated]) (rule pod_progress_result)
      then show ?thesis by simp
    qed
    then have "t = w" and "goes_on r \<Longrightarrow> v = Ok None"
      using run m f Ok
      by (auto simp: allPodsHealthyAndHaveRole_def run_simps goes_on_def or_finished_def
          split: result.splits option.splits)
    with ds u that [of "cs @ ds"] show ?thesis
      by (auto simp: ends_with_one_def split: list.splits)
  qed (use run m u that [of cs] in
    \<open>auto simp: allPodsHealthyAndHaveRole_def run_simps ends_with_one_def\<close>)
qed

text \<open>Replicas: one outdated replica of the list, when none is terminating and there is a master.\<close>

definition replaceable :: "pod list \<Rightarrow> string \<Rightarrow> pod \<Rightarrow> bool" where
  "replaceable ps urev p \<longleftrightarrow>
     p \<in> set ps \<and> \<not> isPodOnLatestVersion p urev \<and> (\<forall>q\<in>set ps. \<not> isTerminating q)"

lemma updateReplicas_run:
  assumes ok: "clients_ok s" and run: "updateReplicas E ps urev s = (r, t)"
  obtains cs m where "history t = history s @ cs"
    and "ends_with_one (\<lambda>p. replaceable ps urev p \<and> (\<exists>u. getMaster E s = (Ok m, u)))
      (\<exists>res qs. r = Ok (res, qs) \<and> is_zero_result res) cs"
proof -
  obtain q u where m: "getMaster E s = (q, u)" by fastforce
  have "keeps (guarded (emits (list_all no_deletion))) (getMaster E)" by (intro keeps_intro)
  then obtain cs where u: "history u = history s @ cs" "deletions cs = []" "clients_ok u"
    using ok m by (rule spared)
  show ?thesis
  proof (cases q)
    case (Ok master)
    have set: "set (sort_by_name ps) = set ps" by (simp add: sort_by_name_def)
    let ?stay = "find isTerminating (sort_by_name ps)"
    let ?old = "find (\<lambda>p. \<not> isPodOnLatestVersion p urev) (sort_by_name ps)"
    show ?thesis
    proof (cases "?stay = None \<and> ?old \<noteq> None")
      case True
      then obtain p where p: "?old = Some p" by blast
      then have rep: "replaceable ps urev p"
        using True set by (auto simp: replaceable_def find_None_iff dest!: find_SomeD)
      let ?ds = "[Record_event EventTypeNormal ''Rollout'' ''Deleting replica'',
        Delete_pod p (envDeletePod E (history u @ [Record_event EventTypeNormal ''Rollout'' ''Deleting replica'']) p)]"
      from run m Ok p True have "history t = history u @ ?ds"
        and "\<not> (\<exists>res qs. r = Ok (res, qs) \<and> is_zero_result res)"
        by (auto simp: updateReplicas_def run_simps Let_def record_event_def delete_pod_def perform_def
            split: result.splits)
      with u rep m Ok that [of "cs @ ?ds" master] show ?thesis by (simp add: ends_with_one_def)
    next
      case False
      with run m Ok have "t = u"
        by (auto simp: updateReplicas_def run_simps Let_def split: option.splits if_splits)
      with u that [of cs] show ?thesis by (simp add: ends_with_one_def)
    qed
  qed (use run m u that [of cs] in \<open>auto simp: updateReplicas_def run_simps ends_with_one_def\<close>)
qed

subsection \<open>A whole round\<close>

text \<open>Two programs in sequence, with a predicate on the calls of each.\<close>

lemma emits_bnd:
  assumes m: "keeps (guarded (emits P)) m" and k: "\<And>x. keeps (guarded (emits P')) (k x)"
    and join: "\<And>xs ys. P xs \<Longrightarrow> P' ys \<Longrightarrow> Q (xs @ ys)" and first: "\<And>xs. P xs \<Longrightarrow> Q xs"
  shows "keeps (guarded (emits Q)) (bnd m k)"
proof (rule keepsI)
  fix s r t
  assume run: "bnd m k s = (r, t)"
  obtain q u where u: "m s = (q, u)" by fastforce
  show "guarded (emits Q) s t"
  proof (cases "clients_ok s")
    case True
    from guardedD [OF m True u] obtain xs where
      xs: "clients_ok u" "history u = history s @ xs" "P xs" by (auto simp: emits_def)
    show ?thesis
    proof (cases q)
      case (Ok x)
      with run u have "k x u = (r, t)" by (simp add: bnd_def)
      from guardedD [OF k xs(1) this] xs join show ?thesis
        by (auto simp: guarded_def emits_def)
    qed (use run u xs first in \<open>auto simp: bnd_def guarded_def emits_def\<close>)
  qed (simp add: guarded_def)
qed

abbreviation one_deletion :: "call list \<Rightarrow> bool" where
  "one_deletion cs \<equiv> length (deletions cs) \<le> 1"

lemma spared_bnd:
  assumes "keeps (guarded (emits (list_all no_deletion))) m"
    and "\<And>x. keeps (guarded (emits one_deletion)) (k x)"
  shows "keeps (guarded (emits one_deletion)) (bnd m k)"
  by (rule emits_bnd [OF assms]) (auto simp: no_deletions)

lemma spared_after:
  assumes "keeps (guarded (emits one_deletion)) m"
    and "\<And>x. keeps (guarded (emits (list_all no_deletion))) (k x)"
  shows "keeps (guarded (emits one_deletion)) (bnd m k)"
  by (rule emits_bnd [OF assms]) (auto simp: no_deletions)

lemma deletions_other [simp]:
  "deletions (Redis_do a args r # cs) = deletions cs"
  "deletions (Redis_call a cmd r2 # cs) = deletions cs"
  "deletions (Patch_pod p q r3 # cs) = deletions cs"
  by (simp_all add: deletions_def map_filter_def deleted_pod_def)

lemma spare_client: "keeps (guarded (emits (list_all no_deletion))) (getRedisClient ip)"
proof (rule keepsI)
  fix s r t
  assume run: "getRedisClient ip s = (r, t)"
  show "guarded (emits (list_all no_deletion)) s t"
  proof (cases "clients_ok s")
    case True
    then obtain m where "getRedisClient ip s = (Ok (newRedisClient ip), s\<lparr>redisClients := m\<rparr>)"
      and "clients_ok (s\<lparr>redisClients := m\<rparr>)" by (rule getRedisClient_ok)
    with run show ?thesis by (auto simp: guarded_def emits_def)
  qed (simp add: guarded_def)
qed

lemma spare_calls [keeps_intro]:
  "keeps (guarded (emits (list_all no_deletion))) (redis_do E c args)"
  "keeps (guarded (emits (list_all no_deletion))) (redis E c cmd)"
  "keeps (guarded (emits (list_all no_deletion))) (patch_marked E p m)"
  unfolding redis_do_def redis_def patch_marked_def patch_pod_def
  by (intro keeps_intro sparing.call_kept; simp add: no_deletion_def deleted_pod_def)+

lemma one_delete: "keeps (guarded (emits one_deletion)) (delete_pod E p)"
  unfolding delete_pod_def by (rule emits_call) simp

lemma replTakeover_one: "keeps (guarded (emits one_deletion)) (replTakeover E new old)"
  unfolding replTakeover_def
  by (rule spared_bnd, rule spare_client, rule spared_bnd, intro keeps_intro, rule keeps_if,
      rule emits_stop, simp, rule spared_bnd, intro keeps_intro, rule spared_bnd, intro keeps_intro,
      rule spared_bnd, intro keeps_intro, rule spared_after, intro emits_map_error one_delete,
      intro keeps_intro)

lemma updatedMaster_one: "keeps (guarded (emits one_deletion)) (updatedMaster E old ps urev)"
proof -
  have follow: "keeps (guarded (emits (list_all no_deletion))) (follow_new_master E q p)" for q p
    unfolding follow_new_master_def by (intro keeps_intro)
  have old: "keeps (guarded (emits one_deletion)) (wrap w (delete_pod E old))" for w
    by (intro emits_map_error one_delete)
  have new: "keeps (guarded (emits one_deletion))
      (bnd (wrap w (replTakeover E q old)) (\<lambda>m. for_each (follow_new_master E m) ps))" for w q
    by (rule spared_after, intro emits_map_error replTakeover_one, intro keeps_intro follow)
  show ?thesis
    unfolding updatedMaster_def
    by (rule keeps_if, rule spared_bnd, intro keeps_intro, rule new, rule old)
qed

text \<open>A round that asks to run again has deleted at most one pod.\<close>

definition requeued :: "ctrl_result result \<Rightarrow> bool" where
  "requeued r \<longleftrightarrow> (case r of Ok res \<Rightarrow> \<not> is_zero_result res | _ \<Rightarrow> False)"

definition one_per_round :: "ctrl_result prog \<Rightarrow> bool" where
  "one_per_round m \<longleftrightarrow> (\<forall>s r t. clients_ok s \<longrightarrow> m s = (r, t) \<longrightarrow>
     (\<exists>cs. history t = history s @ cs \<and> (requeued r \<longrightarrow> one_deletion cs)))"

lemma one_per_roundI:
  "keeps (guarded (emits one_deletion)) m \<Longrightarrow> one_per_round m"
  unfolding one_per_round_def by (auto dest!: guardedD simp: emits_def)

lemma one_per_round_bnd:
  assumes m: "keeps (guarded (emits (list_all no_deletion))) m" and k: "\<And>x. one_per_round (k x)"
  shows "one_per_round (bnd m k)"
  unfolding one_per_round_def
proof (intro allI impI)
  fix s r t
  assume ok: "clients_ok s" and run: "bnd m k s = (r, t)"
  obtain q u where u: "m s = (q, u)" by fastforce
  with m ok obtain xs where xs: "history u = history s @ xs" "deletions xs = []" "clients_ok u"
    by (rule spared)
  show "\<exists>cs. history t = history s @ cs \<and> (requeued r \<longrightarrow> one_deletion cs)"
  proof (cases q)
    case (Ok x)
    with run u have "k x u = (r, t)" by (simp add: bnd_def)
    with k xs obtain ys where "history t = history u @ ys" "requeued r \<longrightarrow> one_deletion ys"
      unfolding one_per_round_def by blast
    with xs show ?thesis by auto
  qed (use run u xs in \<open>auto simp: bnd_def requeued_def\<close>)
qed

lemma one_per_round_ret: "one_per_round (ret res)" "one_per_round (fail e)"
  by (simp_all add: one_per_round_def ret_def fail_def)

lemma roll_master_one: "one_per_round (roll_master E st ps urev)"
proof -
  have update: "one_per_round (bnd (wrap w (updatedMaster E m ps urev)) (\<lambda>_. ret res))" for w m res
    by (rule one_per_roundI, rule spared_after, intro emits_map_error updatedMaster_one, intro keeps_intro)
  have finish: "one_per_round (bnd (wrap w (detectOldMasters E urev)) (\<lambda>_. finish_rollout E st))" for w
    unfolding one_per_round_def
  proof (intro allI impI)
    fix s r t
    assume ok: "clients_ok s" and run: "bnd (wrap w (detectOldMasters E urev)) (\<lambda>_. finish_rollout E st) s = (r, t)"
    have "keeps (guarded (emits (list_all (round_call urev))))
        (bnd (wrap w (detectOldMasters E urev)) (\<lambda>_. finish_rollout E st))"
      by (intro keeps_intro)
    from guardedD [OF this ok run] have "\<exists>cs. history t = history s @ cs" by (auto simp: emits_def)
    moreover from run have "\<not> requeued r"
      by (auto simp: finish_rollout_def run_simps requeued_def record_event_def
          split: result.splits prod.splits)
    ultimately show "\<exists>cs. history t = history s @ cs \<and> (requeued r \<longrightarrow> one_deletion cs)" by blast
  qed
  show ?thesis
    unfolding roll_master_def
    by (rule one_per_round_bnd, intro keeps_intro)
      (auto intro: one_per_round_ret update finish split: sum.splits)
qed

lemma one_per_round_step:
  assumes m: "\<And>s r t. clients_ok s \<Longrightarrow> m s = (r, t) \<Longrightarrow> clients_ok t \<and>
      (\<exists>cs. history t = history s @ cs \<and> one_deletion cs \<and> (\<forall>x. r = Ok x \<and> on x \<longrightarrow> deletions cs = []))"
    and go: "\<And>x. on x \<Longrightarrow> one_per_round (k x)" and stop: "\<And>x. \<not> on x \<Longrightarrow> \<exists>res. k x = ret res"
  shows "one_per_round (bnd m k)"
  unfolding one_per_round_def
proof (intro allI impI)
  fix s r t
  assume ok: "clients_ok s" and run: "bnd m k s = (r, t)"
  obtain q u where u: "m s = (q, u)" by fastforce
  from m [OF ok u] obtain xs where xs: "clients_ok u" "history u = history s @ xs" "one_deletion xs"
    and on: "\<And>x. q = Ok x \<Longrightarrow> on x \<Longrightarrow> deletions xs = []" by blast
  show "\<exists>cs. history t = history s @ cs \<and> (requeued r \<longrightarrow> one_deletion cs)"
  proof (cases q)
    case (Ok x)
    with run u have kx: "k x u = (r, t)" by (simp add: bnd_def)
    show ?thesis
    proof (cases "on x")
      case True
      from go [OF True] kx xs(1) obtain ys where
        "history t = history u @ ys" "requeued r \<longrightarrow> one_deletion ys"
        unfolding one_per_round_def by blast
      with xs on [OF Ok True] show ?thesis by auto
    next
      case False
      with stop kx have "t = u" by (metis prod.inject run_ret)
      with xs show ?thesis by auto
    qed
  qed (use run u xs in \<open>auto simp: bnd_def\<close>)
qed

lemma ends_with_one_deletion: "ends_with_one may on cs \<Longrightarrow> one_deletion cs \<and> (on \<longrightarrow> deletions cs = [])"
  by (auto simp: ends_with_one_def split: list.splits)

lemma round_clients:
  assumes "keeps (guarded (emits P)) m" and "clients_ok s" and "m s = (r, t)"
  shows "clients_ok t"
  using guardedD [OF assms] by simp

lemma one_per_round_healthy:
  assumes "one_per_round rest"
  shows "one_per_round (unless_requeued (allPodsHealthyAndHaveRole E urev) rest)"
  unfolding unless_requeued_def
proof (rule one_per_round_step [where on = is_zero_result])
  fix s r t
  assume ok: "clients_ok s" and run: "allPodsHealthyAndHaveRole E urev s = (r, t)"
  from allPodsHealthy_run [OF this] obtain cs where
    cs: "history t = history s @ cs" "ends_with_one (stuck_outdated urev) (goes_on r) cs" .
  moreover have "clients_ok t" by (rule round_clients [OF round.allPodsHealthy_ok ok run])
  ultimately show "clients_ok t \<and> (\<exists>cs. history t = history s @ cs \<and> one_deletion cs \<and>
      (\<forall>x. r = Ok x \<and> is_zero_result x \<longrightarrow> deletions cs = []))"
    using ends_with_one_deletion [OF cs(2)] by (auto simp: goes_on_def)
qed (auto intro: assms)

lemma one_per_round_replicas:
  assumes "\<And>qs. one_per_round (rest qs)"
  shows "one_per_round (roll_replicas E ps urev rest)"
proof -
  have update: "one_per_round (bnd (updateReplicas E ps urev) (\<lambda>(result, qs).
      if \<not> is_zero_result result then ret result else rest qs))"
  proof (rule one_per_round_step [where on = "\<lambda>(result, qs). is_zero_result result"])
    fix s r t
    assume ok: "clients_ok s" and run: "updateReplicas E ps urev s = (r, t)"
    from updateReplicas_run [OF this] obtain cs m where
      cs: "history t = history s @ cs" "ends_with_one (\<lambda>p. replaceable ps urev p \<and>
        (\<exists>u. getMaster E s = (Ok m, u))) (\<exists>res qs. r = Ok (res, qs) \<and> is_zero_result res) cs" .
    moreover have "clients_ok t" by (rule round_clients [OF round.updateReplicas_ok ok run])
    ultimately show "clients_ok t \<and> (\<exists>cs. history t = history s @ cs \<and> one_deletion cs \<and>
        (\<forall>x. r = Ok x \<and> (case x of (result, qs) \<Rightarrow> is_zero_result result) \<longrightarrow> deletions cs = []))"
      using ends_with_one_deletion [OF cs(2)] by fastforce
  qed (auto intro: assms)
  have verify: "keeps (guarded (emits (list_all no_deletion))) (verifyUpdatedReplicas E ps urev)"
    unfolding verifyUpdatedReplicas_def verify_replica_def by (intro keeps_intro)
  show ?thesis
    unfolding roll_replicas_def unless_requeued_def
    by (rule one_per_round_bnd [OF verify]) (auto intro: one_per_round_ret update)
qed

lemma rollout_to_one: "one_per_round (rollout_to E st urev)"
  unfolding rollout_to_def
  by (rule one_per_round_healthy, rule one_per_round_bnd, intro keeps_intro, rule one_per_round_bnd,
      intro keeps_intro)
    (auto intro: one_per_round_ret one_per_round_replicas roll_master_one)

lemma rollout_round_one: "one_per_round (rollout_round E st)"
  unfolding rollout_round_def
  by (rule one_per_round_bnd, intro keeps_intro, rule rollout_to_one)

subsection \<open>Properties\<close>

text \<open>C3: Every pod that a reconciliation of the Dragonfly controller deletes is outdated: an
  update revision that the StatefulSet reported earlier in the same reconciliation is not the
  pod's revision.\<close>

theorem only_outdated_pods_deleted:
  "\<exists>cs. history (snd (DragonflyReconcile E img ns name s)) = history s @ cs \<and>
     caused delete_justified [] cs"
  using deletes_outdated [of E img ns name] unfolding keeps_def emits_def by blast

text \<open>C4: A round of a rolling update that is not the last one (it asks to run again) deletes at
  most one pod, whatever the answers.\<close>

theorem one_deletion_per_round:
  assumes "clients_ok s" and "rollout_round E st s = (Ok res, t)" and "res \<noteq> finished"
  shows "\<exists>cs. history t = history s @ cs \<and> length (deletions cs) \<le> 1"
  using rollout_round_one [of E st] assms
  unfolding one_per_round_def requeued_def by (auto simp: is_zero_finished)

lemma one_deletion_per_round_witness:
  "\<exists>res t. rollout_round (sample_env [sample_stuck]) (dfStatus (sample_df PhaseRollingUpdate))
       (sample_state PhaseRollingUpdate) = (Ok res, t) \<and> res \<noteq> finished \<and>
     length (deletions (history t)) \<le> 1 \<and> deletions (history t) = [sample_stuck]"
proof -
  let ?E = "sample_env [sample_stuck]" and ?s = "sample_state PhaseRollingUpdate"
  have run: "\<exists>t. rollout_round ?E (dfStatus (sample_df PhaseRollingUpdate)) ?s = (Ok (requeue (5 * second)), t) \<and>
      deletions (history t) = [sample_stuck]"
    by (simp add: rollout_round_def rollout_to_def unless_requeued_def allPodsHealthyAndHaveRole_def
        getStatefulSet_def getPods_def call_defs perform_def run_simps sample_listed_def
        instance_labels_def pod_progress_def sort_by_name_def sample_defs isTerminating_def pod_simps
        isRunningAndReady_def or_finished_def deletions_def map_filter_def deleted_pod_def)
  then obtain t where t: "rollout_round ?E (dfStatus (sample_df PhaseRollingUpdate)) ?s =
      (Ok (requeue (5 * second)), t)" "deletions (history t) = [sample_stuck]" by blast
  have "clients_ok ?s" by (simp add: sample_state_def clients_ok_def)
  from one_deletion_per_round [OF this t(1)] t show ?thesis by (auto simp: sample_state_def)
qed

text \<open>C6: In a takeover the old master, and no other pod, is deleted, and only after the new master
  accepted the takeover and its patch to the role label master went through; the only pod
  patched is the new master, after the takeover was accepted.\<close>

theorem takeover_before_deletion:
  assumes "clients_ok s"
  shows "\<exists>cs. history (snd (replTakeover E new old s)) = history s @ cs \<and>
    caused (takeover_order new old) [] cs"
  using takeover_kept [of new old E] assms unfolding keeps_def guarded_def emits_def by blast

lemma takeover_before_deletion_witness:
  "\<exists>cs. history (snd (replTakeover (sample_env []) sample_replica sample_master (sample_state PhaseReady))) = cs \<and>
     caused (takeover_order sample_replica sample_master) [] cs \<and> deletions cs = [sample_master]"
proof -
  let ?t = "snd (replTakeover (sample_env []) sample_replica sample_master (sample_state PhaseReady))"
  have "deletions (history ?t) = [sample_master]"
    by (simp add: replTakeover_def run_simps call_defs perform_def getRedisClient_def sample_defs
        snapshot_on_master_only_def patch_marked_def mark_master_def)
  moreover have "clients_ok (sample_state PhaseReady)" by (simp add: sample_state_def clients_ok_def)
  ultimately show ?thesis
    using takeover_before_deletion [of "sample_state PhaseReady" "sample_env []" sample_replica sample_master]
    by (simp add: sample_state_def)
qed

text \<open>C25: Waiting for the pods deletes nothing, or exactly one pod that is outdated, not yet
  terminating and not running and ready, and then the round goes no further.\<close>

theorem waiting_deletes_stuck_pod:
  assumes "clients_ok s" and "allPodsHealthyAndHaveRole E urev s = (r, t)"
  shows "\<exists>cs. history t = history s @ cs \<and> ends_with_one (stuck_outdated urev) (goes_on r) cs"
  using allPodsHealthy_run [OF assms] by blast

lemma waiting_deletes_stuck_pod_witness:
  "\<exists>r t. allPodsHealthyAndHaveRole (sample_env [sample_stuck]) ''r2'' (sample_state PhaseRollingUpdate) = (r, t) \<and>
     ends_with_one (stuck_outdated ''r2'') (goes_on r) (history t) \<and> deletions (history t) = [sample_stuck]"
proof -
  let ?m = "allPodsHealthyAndHaveRole (sample_env [sample_stuck]) ''r2''" and ?s = "sample_state PhaseRollingUpdate"
  obtain r t where run: "?m ?s = (r, t)" by fastforce
  then have "deletions (history t) = [sample_stuck]"
    by (auto simp: allPodsHealthyAndHaveRole_def getPods_def call_defs perform_def run_simps
        instance_labels_def pod_progress_def sort_by_name_def sample_defs isTerminating_def pod_simps
        isRunningAndReady_def or_finished_def deletions_def map_filter_def deleted_pod_def)
  moreover have "clients_ok ?s" by (simp add: sample_state_def clients_ok_def)
  ultimately show ?thesis
    using waiting_deletes_stuck_pod [OF _ run] run by (auto simp: sample_state_def)
qed

text \<open>Updating the replicas deletes nothing, or exactly one outdated replica of the list, when a
  usable master was found and no replica of the list is terminating, and then the round goes
  no further.\<close>

theorem replicas_replaced_one_by_one:
  assumes "clients_ok s" and "updateReplicas E ps urev s = (r, t)"
  shows "\<exists>cs m. history t = history s @ cs \<and>
    ends_with_one (\<lambda>p. replaceable ps urev p \<and> (\<exists>u. getMaster E s = (Ok m, u)))
      (\<exists>res qs. r = Ok (res, qs) \<and> is_zero_result res) cs"
  using updateReplicas_run [OF assms] by blast

lemma replicas_replaced_one_by_one_witness:
  "\<exists>r t cs m. updateReplicas (sample_env [sample_master]) [sample_stuck] ''r2'' (sample_state PhaseRollingUpdate) = (r, t) \<and>
     history t = cs \<and>
     ends_with_one (\<lambda>p. replaceable [sample_stuck] ''r2'' p \<and>
         (\<exists>u. getMaster (sample_env [sample_master]) (sample_state PhaseRollingUpdate) = (Ok m, u)))
       (\<exists>res qs. r = Ok (res, qs) \<and> is_zero_result res) cs"
proof -
  let ?m = "updateReplicas (sample_env [sample_master]) [sample_stuck] ''r2''" and ?s = "sample_state PhaseRollingUpdate"
  obtain r t where run: "?m ?s = (r, t)" by fastforce
  have "clients_ok ?s" by (simp add: sample_state_def clients_ok_def)
  from replicas_replaced_one_by_one [OF this run] run show ?thesis
    by (auto simp: sample_state_def)
qed

end
