(* ===== verification/Rollout_Progress.thy ===== *)
theory Rollout_Progress
  imports Rollout_Safety Replication_Facts "HOL-Library.Multiset"
begin

section \<open>Progress of a rolling update\<close>

text \<open>
  The rounds that replace the replicas end. The StatefulSet controller, which creates a pod
  of the new revision for each pod that was deleted, is not code of the repository: it is the
  function \<open>renew\<close> from a deleted pod to the one that takes its place. As long as there is a
  usable master and the API server accepts the deletions, as many rounds as there are
  outdated replicas replace them all.
\<close>

text \<open>The pods of the next round: those deleted in the calls \<open>cs\<close> have been replaced.\<close>

definition renewed :: "(pod \<Rightarrow> pod) \<Rightarrow> call list \<Rightarrow> pod list \<Rightarrow> pod list" where
  "renewed renew cs ps = map (\<lambda>p. if p \<in> set (deletions cs) then renew p else p) ps"

text \<open>Rounds of \<^verbatim>\<open>updateReplicas\<close>, at most \<open>n\<close> of them: \<open>None\<close> when they did not suffice.\<close>

fun replace_rounds ::
  "env \<Rightarrow> string \<Rightarrow> (pod \<Rightarrow> pod) \<Rightarrow> nat \<Rightarrow> pod list \<Rightarrow> op_state \<Rightarrow> (pod list \<times> op_state) option" where
  "replace_rounds E urev renew 0 ps s = None"
| "replace_rounds E urev renew (Suc n) ps s =
     (case updateReplicas E ps urev s of
        (Ok (res, qs), t) \<Rightarrow>
          if is_zero_result res then Some (qs, t)
          else replace_rounds E urev renew n (renewed renew (drop (length (history s)) (history t)) qs) t
      | _ \<Rightarrow> None)"

definition outdated :: "string \<Rightarrow> pod list \<Rightarrow> pod list" where
  "outdated urev ps = filter (\<lambda>p. \<not> isPodOnLatestVersion p urev) ps"

text \<open>Whatever calls were made before, \<^verbatim>\<open>getMaster\<close> finds a master of the instance.\<close>

definition usable_master :: "env \<Rightarrow> dragonfly \<Rightarrow> pod \<Rightarrow> bool" where
  "usable_master E d m \<longleftrightarrow> (\<forall>s. clients_ok s \<longrightarrow> df s = d \<longrightarrow> (\<exists>t. getMaster E s = (Ok m, t)))"

lemma getMaster_spares:
  assumes "usable_master E (df s) m" and "clients_ok s"
  obtains u cs where "getMaster E s = (Ok m, u)" and "history u = history s @ cs" and "deletions cs = []"
    and "clients_ok u" and "df u = df s"
proof -
  obtain u where u: "getMaster E s = (Ok m, u)" using assms by (auto simp: usable_master_def)
  have "keeps (guarded (emits (list_all no_deletion))) (getMaster E)" by (intro keeps_intro)
  then obtain cs where "history u = history s @ cs" "deletions cs = []" "clients_ok u"
    using assms(2) u by (rule spared)
  moreover have "df u = df s"
    using guardedD [OF same_df.getMaster_ok assms(2) u] by (simp add: same_df_def)
  ultimately show thesis using u that by blast
qed

text \<open>One round: done, or one outdated replica is deleted.\<close>

lemma round_cases:
  assumes "usable_master E (df s) m" and "clients_ok s" and "\<And>h p. envDeletePod E h p = Inr ()"
    and "list_all (\<lambda>p. \<not> isTerminating p) ps"
  obtains (finished) t where "updateReplicas E ps urev s = (Ok (finished, sort_by_name ps), t)"
      and "clients_ok t" and "outdated urev ps = []" and "deletions (drop (length (history s)) (history t)) = []"
      and "prefix (history s) (history t)"
  | (deleted) t p where "updateReplicas E ps urev s = (Ok (requeue (5 * second), sort_by_name ps), t)"
      and "clients_ok t" and "p \<in> set (outdated urev ps)"
      and "deletions (drop (length (history s)) (history t)) = [p]" and "prefix (history s) (history t)" and "df t = df s"
proof -
  obtain u cs where u: "getMaster E s = (Ok m, u)" "history u = history s @ cs" "deletions cs = []" "clients_ok u" "df u = df s"
    using assms(1,2) by (rule getMaster_spares)
  have set: "set (sort_by_name ps) = set ps" by (simp add: sort_by_name_def)
  have stay: "find isTerminating (sort_by_name ps) = None"
    using assms(4) set by (auto simp: find_None_iff list_all_iff)
  show thesis
  proof (cases "find (\<lambda>p. \<not> isPodOnLatestVersion p urev) (sort_by_name ps)")
    case None
    then have "outdated urev ps = []"
      using set by (auto simp: outdated_def filter_empty_conv find_None_iff)
    with None u stay show thesis
      by (intro finished [of u]) (simp_all add: updateReplicas_def run_simps Let_def)
  next
    case (Some p)
    then have p: "p \<in> set (outdated urev ps)" using set by (auto simp: outdated_def dest!: find_SomeD)
    let ?ev = "Record_event EventTypeNormal ''Rollout'' ''Deleting replica''"
    let ?t = "u\<lparr>history := history u @ [?ev, Delete_pod p (Inr ())]\<rparr>"
    have "updateReplicas E ps urev s = (Ok (requeue (5 * second), sort_by_name ps), ?t)"
      using Some u stay assms(3)
      by (simp add: updateReplicas_def run_simps Let_def record_event_def delete_pod_def perform_def)
    with p u show thesis
      by (intro deleted [of ?t p]) (simp_all add: clients_ok_def)
  qed
qed

lemma renewed_outdated:
  assumes "p \<in> set (outdated urev ps)" and "deletions cs = [p]" and "\<And>q. isPodOnLatestVersion (renew q) urev"
  shows "length (outdated urev (renewed renew cs (sort_by_name ps))) < length (outdated urev ps)"
proof -
  have "outdated urev (renewed renew cs qs) = filter (\<lambda>q. q \<noteq> p) (outdated urev qs)" for qs
    using assms(2,3) by (induction qs) (auto simp: outdated_def renewed_def)
  moreover have "mset (outdated urev (sort_by_name ps)) = mset (outdated urev ps)"
    by (simp add: outdated_def sort_by_name_def mset_filter)
  then have "length (filter (\<lambda>q. q \<noteq> p) (outdated urev (sort_by_name ps)))
      = length (filter (\<lambda>q. q \<noteq> p) (outdated urev ps))"
    by (metis mset_filter size_mset)
  moreover have "length (filter (\<lambda>q. q \<noteq> p) (outdated urev ps)) < length (outdated urev ps)"
    using assms(1) by (rule length_filter_less) simp
  ultimately show ?thesis by simp
qed
lemma rounds_suffice:
  assumes "usable_master E (df s) m" and "\<And>h p. envDeletePod E h p = Inr ()"
    and "\<And>q. isPodOnLatestVersion (renew q) urev" and "\<And>q. \<not> isTerminating (renew q)"
    and "clients_ok s" and "list_all (\<lambda>p. \<not> isTerminating p) ps" and "length (outdated urev ps) < n"
  shows "\<exists>qs t. replace_rounds E urev renew n ps s = Some (qs, t) \<and> outdated urev qs = [] \<and>
    length qs = length ps \<and> prefix (history s) (history t) \<and>
    length (deletions (drop (length (history s)) (history t))) \<le> length (outdated urev ps)"
  using assms(1,5-7)
proof (induction n arbitrary: ps s)
  case (Suc n)
  from Suc.prems(1,2) assms(2) Suc.prems(3) show ?case
  proof (cases rule: round_cases [where ps = ps and urev = urev])
    case (finished t)
    moreover have "outdated urev (sort_by_name ps) = []"
      using finished(3) by (simp add: outdated_def sort_by_name_def filter_empty_conv)
    ultimately show ?thesis by (simp add: sort_by_name_def)
  next
    case (deleted t p)
    let ?cs = "drop (length (history s)) (history t)"
    let ?qs = "renewed renew ?cs (sort_by_name ps)"
    have fewer: "length (outdated urev ?qs) < length (outdated urev ps)"
      using deleted(3,4) assms(3) by (rule renewed_outdated)
    have "list_all (\<lambda>p. \<not> isTerminating p) ?qs"
      using Suc.prems(3) assms(4) by (auto simp: renewed_def sort_by_name_def list_all_iff)
    from Suc.IH [OF _ deleted(2) this] Suc.prems(1) deleted(6) fewer Suc.prems(4) obtain qs u where
      run: "replace_rounds E urev renew n ?qs t = Some (qs, u)" and "outdated urev qs = []"
      and "length qs = length ps" and tu: "prefix (history t) (history u)"
      and few: "length (deletions (drop (length (history t)) (history u))) \<le> length (outdated urev ?qs)"
      by (auto simp: renewed_def sort_by_name_def)
    moreover from tu deleted(5) obtain ds where "history t = history s @ ?cs" and "history u = history t @ ds"
      by (auto simp: prefix_def)
    then have "drop (length (history s)) (history u) = ?cs @ drop (length (history t)) (history u)"
      by (metis append.assoc append_eq_conv_conj)
    then have "length (deletions (drop (length (history s)) (history u))) \<le> length (outdated urev ps)"
      using few fewer deleted(4) by simp
    moreover have "prefix (history s) (history u)"
      using deleted(5) tu by (rule prefix_order.trans)
    ultimately show ?thesis using deleted(1) by simp
  qed
qed simp

subsection \<open>Property\<close>

text \<open>Replacing the replicas ends: with a usable master and deletions that are accepted, one round
  more than there are outdated replicas is enough, then every replica is on the new revision,
  and no more pods were deleted than were outdated.\<close>

theorem replicas_all_replaced:
  assumes "usable_master E (df s) m" and "\<And>h p. envDeletePod E h p = Inr ()"
    and "\<And>q. isPodOnLatestVersion (renew q) urev" and "\<And>q. \<not> isTerminating (renew q)"
    and "clients_ok s" and "list_all (\<lambda>p. \<not> isTerminating p) ps"
  shows "\<exists>qs t. replace_rounds E urev renew (Suc (length (outdated urev ps))) ps s = Some (qs, t) \<and>
    outdated urev qs = [] \<and> length qs = length ps \<and>
    length (deletions (drop (length (history s)) (history t))) \<le> length (outdated urev ps)"
  using rounds_suffice [where renew = renew and n = "Suc (length (outdated urev ps))", OF assms] by auto

subsection \<open>Witness\<close>

definition renew_sample :: "pod \<Rightarrow> pod" where
  "renew_sample p = sample_replica\<lparr>podName := podName p\<rparr>"

lemma sample_usable: "usable_master (sample_env [sample_master]) (sample_df PhaseReady) sample_master"
  unfolding usable_master_def
proof (intro allI impI)
  fix s
  assume ok: "clients_ok s" and d: "df s = sample_df PhaseReady"
  have "sample_listed [sample_master] (instance_labels (sample_df PhaseReady) @ [(RoleLabelKey, Master)])
      = [sample_master]"
    by (simp add: sample_listed_def instance_labels_def sample_pods sample_df_def)
  then have "fst (getMaster (sample_env [sample_master]) s) = the_master sample_report [sample_master]"
    by (intro getMaster_run [OF ok sample_reports])
      (simp_all add: d phase_ready_def rolling_def, simp_all add: sample_df_def)
  then show "\<exists>t. getMaster (sample_env [sample_master]) s = (Ok sample_master, t)"
    by (metis prod.collapse sample_the_master)
qed

theorem replicas_all_replaced_witness:
  "\<exists>qs t. replace_rounds (sample_env [sample_master]) ''r2'' renew_sample 2 [sample_stuck] (sample_state PhaseReady)
       = Some (qs, t) \<and> outdated ''r2'' qs = [] \<and> length (deletions (history t)) \<le> 1"
proof -
  have d: "df (sample_state PhaseReady) = sample_df PhaseReady" by (simp add: sample_state_def)
  have renewed: "isPodOnLatestVersion (renew_sample q) ''r2''" "\<not> isTerminating (renew_sample q)" for q
    by (simp_all add: renew_sample_def sample_pods isTerminating_def pod_simps)
  have one: "length (outdated ''r2'' [sample_stuck]) = 1"
    by (simp add: outdated_def sample_pods pod_simps)
  have live: "list_all (\<lambda>p. \<not> isTerminating p) [sample_stuck]"
    by (simp add: sample_pods isTerminating_def pod_simps)
  have start: "history (sample_state PhaseReady) = []" by (simp add: sample_state_def)
  from replicas_all_replaced [of "sample_env [sample_master]" "sample_state PhaseReady" sample_master
      renew_sample "''r2''" "[sample_stuck]", unfolded d, OF sample_usable _ renewed sample_ok live]
  obtain qs t where "replace_rounds (sample_env [sample_master]) ''r2'' renew_sample 2 [sample_stuck]
      (sample_state PhaseReady) = Some (qs, t)" "outdated ''r2'' qs = []" "length (deletions (history t)) \<le> 1"
    unfolding one start by (auto simp: numeral_2_eq_2 simp del: replace_rounds.simps)
  then show ?thesis by blast
qed

end
