(* ===== verification/Rollout_Round.thy ===== *)
theory Rollout_Round
  imports Cooperation Rollout_Progress
begin

section \<open>A round of a rolling update in a cluster that cooperates\<close>

text \<open>
  In a cluster whose pods are ready, with one master and stable links, a round of a rolling
  update deletes one outdated replica, or hands the mastership over and deletes the outdated
  master, or finds nothing outdated and finishes the update. Within a round the listings are
  those of its start, as they are in the cache of the controller runtime.
\<close>

subsection \<open>A cluster in a rolling update\<close>

definition matches :: "selector \<Rightarrow> pod \<Rightarrow> bool" where
  "matches sel p \<longleftrightarrow> list_all (\<lambda>(k, v). go_lookup (podLabels p) k = Some v) sel"

definition serves :: "env \<Rightarrow> dragonfly \<Rightarrow> string \<Rightarrow> pod list \<Rightarrow> bool" where
  "serves E d urev ps \<longleftrightarrow>
     (\<forall>h sel. envListPods E h (dfNamespace d) sel = Inr (filter (matches sel) ps)) \<and>
     (\<forall>h. \<exists>sts. envGetStatefulset E h (dfNamespace d) (dfName d) = Inr sts \<and> stsUpdateRevision sts = urev \<and>
        (outdated urev ps \<noteq> [] \<longrightarrow> stsUpdatedReplicas sts \<noteq> stsStatusReplicas sts)) \<and>
     (\<forall>h p. envDeletePod E h p = Inr ()) \<and>
     (\<forall>h a xs. envRedisDo E h a xs = Inr (Str_reply ''OK'')) \<and>
     (\<forall>h a. \<exists>r. envRedis E h a Ping = Inr r)"

definition link_stable :: "string \<Rightarrow> bool" where
  "link_stable info \<longleftrightarrow> info \<noteq> '''' \<and>
     parseInfoToMap info ''master_sync_in_progress'' \<noteq> Some ''1'' \<and>
     (case parseInfoToMap info ''master_link_status'' of None \<Rightarrow> True | Some v \<Rightarrow> v = ''up'') \<and>
     parseInfoToMap info ''master_last_io_seconds_ago'' \<noteq> Some ''-1''"

definition healthy :: "(string \<Rightarrow> string) \<Rightarrow> (string \<Rightarrow> string) \<Rightarrow> dragonfly \<Rightarrow> pod \<Rightarrow> bool" where
  "healthy report repl d p \<longleftrightarrow>
     matches (instance_labels d) p \<and> pod_ready report p \<and> link_stable (repl (admin_addr (podIP p)))"

text \<open>The pod at place \<open>i\<close> is the master, every other one a replica.\<close>

definition roles_at :: "nat \<Rightarrow> pod list \<Rightarrow> bool" where
  "roles_at i ps \<longleftrightarrow> i < length ps \<and>
     (\<forall>j<length ps. go_lookup (podLabels (ps ! j)) RoleLabelKey = Some (if j = i then Master else Replica))"

definition rollable :: "(string \<Rightarrow> string) \<Rightarrow> (string \<Rightarrow> string) \<Rightarrow> dragonfly \<Rightarrow> nat \<Rightarrow> pod list \<Rightarrow> bool" where
  "rollable report repl d i ps \<longleftrightarrow>
     distinct (map podName ps) \<and> roles_at i ps \<and> list_all (healthy report repl d) ps \<and>
     int (length ps) = specReplicas (dfSpec d) \<and> 2 \<le> length ps"

definition rolling_cluster ::
  "env \<Rightarrow> (string \<Rightarrow> string) \<Rightarrow> (string \<Rightarrow> string) \<Rightarrow> dragonfly \<Rightarrow> string \<Rightarrow> nat \<Rightarrow> pod list \<Rightarrow> bool" where
  "rolling_cluster E report repl d urev i ps \<longleftrightarrow>
     cooperative E report repl \<and> serves E d urev ps \<and> rollable report repl d i ps"

lemma rolling_clusterD:
  assumes "rolling_cluster E report repl d urev i ps"
  shows "cooperative E report repl" "serves E d urev ps" "rollable report repl d i ps"
  using assms by (simp_all add: rolling_cluster_def)

lemma rollableD:
  assumes "rollable report repl d i ps"
  shows "distinct (map podName ps)" "roles_at i ps" "\<And>p. p \<in> set ps \<Longrightarrow> healthy report repl d p"
    "int (length ps) = specReplicas (dfSpec d)" "2 \<le> length ps"
  using assms by (auto simp: rollable_def list_all_iff)

lemma matches_append [simp]: "matches (as @ bs) p \<longleftrightarrow> matches as p \<and> matches bs p"
  by (simp add: matches_def)

lemma matches_role: "matches [(RoleLabelKey, r)] p \<longleftrightarrow> go_lookup (podLabels p) RoleLabelKey = Some r"
  by (simp add: matches_def)

lemma matches_revision: "matches [(StatefulSetRevisionLabel, r)] p \<longleftrightarrow> isPodOnLatestVersion p r"
  by (auto simp: matches_def pod_simps split: option.split)

lemma role_cases:
  assumes "roles_at i ps" and "p \<in> set ps"
  obtains (master) "p = ps ! i" "isMaster p" "\<not> isReplica p" "go_lookup (podLabels p) RoleLabelKey = Some Master"
  | (replica) "p \<noteq> ps ! i" "isReplica p" "\<not> isMaster p" "go_lookup (podLabels p) RoleLabelKey = Some Replica"
proof -
  obtain j where j: "j < length ps" "p = ps ! j" using assms(2) by (auto simp: in_set_conv_nth)
  have "i < length ps" using assms(1) by (simp add: roles_at_def)
  with j assms(1) show thesis
    using master replica by (cases "j = i") (fastforce simp: roles_at_def pod_simps)+
qed

lemma filter_eq_distinct: "distinct xs \<Longrightarrow> x \<in> set xs \<Longrightarrow> filter (\<lambda>y. y = x) xs = [x]"
  by (induction xs) (auto simp: filter_empty_conv)

text \<open>The listings of such a cluster.\<close>

lemma masters_listed:
  assumes "rollable report repl d i ps"
  shows "filter (matches (instance_labels d @ [(RoleLabelKey, Master)])) ps = [ps ! i]"
proof -
  have i: "i < length ps" using rollableD(2) [OF assms] by (simp add: roles_at_def)
  have "filter (matches (instance_labels d @ [(RoleLabelKey, Master)])) ps = filter (\<lambda>p. p = ps ! i) ps"
    using rollableD(3) [OF assms]
    by (intro filter_cong refl) (auto simp: healthy_def matches_role elim: role_cases [OF rollableD(2) [OF assms]])
  also have "\<dots> = [ps ! i]"
    using rollableD(1) [OF assms] i by (intro filter_eq_distinct) (auto simp: distinct_map)
  finally show ?thesis .
qed

lemma replicas_listed:
  assumes "rollable report repl d i ps"
  shows "filter (matches (instance_labels d @ [(RoleLabelKey, Replica)])) ps = filter isReplica ps"
    and "int (length (filter isReplica ps)) = specReplicas (dfSpec d) - 1"
proof -
  show *: "filter (matches (instance_labels d @ [(RoleLabelKey, Replica)])) ps = filter isReplica ps"
    using rollableD(3) [OF assms]
    by (intro filter_cong refl) (auto simp: healthy_def matches_role elim: role_cases [OF rollableD(2) [OF assms]])
  have "filter (matches (instance_labels d @ [(RoleLabelKey, Master)])) ps = filter (\<lambda>p. \<not> isReplica p) ps"
    using rollableD(3) [OF assms]
    by (intro filter_cong refl) (auto simp: healthy_def matches_role elim: role_cases [OF rollableD(2) [OF assms]])
  then have "length (filter (\<lambda>p. \<not> isReplica p) ps) = 1" unfolding masters_listed [OF assms] by (metis length_Cons list.size(3) One_nat_def)
  then show "int (length (filter isReplica ps)) = specReplicas (dfSpec d) - 1"
    using sum_length_filter_compl [of isReplica ps] rollableD(4) [OF assms] by linarith
qed

lemma all_listed:
  assumes "rollable report repl d i ps"
  shows "filter (matches (instance_labels d)) ps = ps"
  using rollableD(3) [OF assms] by (auto simp: healthy_def filter_id_conv)

subsection \<open>What the parts of a round achieve\<close>

lemma achieves_list:
  assumes "serves E d urev ps"
  shows "achieves d (list_pods E (dfNamespace d) sel)
    (\<lambda>x cs e. (x = filter (matches sel) ps \<and> e = d) \<and> changes cs = [])"
  unfolding list_pods_def by (rule achieves_perform) (use assms in \<open>simp add: serves_def\<close>)

lemma achieves_statefulset:
  assumes "serves E d urev ps"
  shows "achieves d (getStatefulSet E) (\<lambda>x cs e. (stsUpdateRevision x = urev \<and>
    (outdated urev ps \<noteq> [] \<longrightarrow> stsUpdatedReplicas x \<noteq> stsStatusReplicas x) \<and> e = d) \<and> changes cs = [])"
  unfolding getStatefulSet_def get_statefulset_def
  by (rule achieves_get_df, rule achieves_perform) (use assms in \<open>auto simp: serves_def\<close>)

lemma achieves_ready:
  assumes "cooperative E report repl" and "healthy report repl d' p"
  shows "achieves d (isPodReady E p) (\<lambda>x cs e. (x = True \<and> e = d) \<and> changes cs = [])"
  by (rule achieves_quiet, rule achieves_weaken [OF achieves_isPodReady [OF assms(1)]])
    (use assms(2) in \<open>auto simp: healthy_def intro: keeps_intro\<close>)

lemma achieves_ready_pods:
  assumes "cooperative E report repl" and "\<And>p. p \<in> set ps \<Longrightarrow> healthy report repl d' p"
  shows "achieves d (ready_pods E msg ps) (\<lambda>x cs e. (x = ps \<and> e = d) \<and> changes cs = [])"
  using assms(2)
proof (induction ps)
  case Nil
  show ?case by (simp add: achieves_ret)
next
  case (Cons p ps)
  then have IH: "achieves d (ready_pods E msg ps) (\<lambda>x cs e. (x = ps \<and> e = d) \<and> changes cs = [])" by simp
  show ?case
    unfolding ready_pods.simps
    by (rule achieves_bnd, rule achieves_wrap, rule achieves_ready [OF assms(1) Cons.prems], simp,
        elim conjE, hypsubst, rule achieves_bnd [OF IH]) (simp add: achieves_ret)
qed

lemma achieves_masters:
  assumes "rolling_cluster E report repl d urev i ps"
  shows "achieves d (list_masters E) (\<lambda>x cs e. (x = [ps ! i] \<and> e = d) \<and> changes cs = [])"
proof -
  note c = rolling_clusterD [OF assms]
  let ?sel = "instance_labels d @ [(RoleLabelKey, Master)]"
  have all: "achieves d (wrap w (list_pods E (dfNamespace d) ?sel)) (\<lambda>x cs e. (x = [ps ! i] \<and> e = d) \<and> changes cs = [])" for w
    using achieves_wrap [OF achieves_list [OF c(2), of ?sel]] unfolding masters_listed [OF c(3)] .
  have "filter (matches (?sel @ [(StatefulSetRevisionLabel, urev)])) ps
      = filter (\<lambda>p. isPodOnLatestVersion p urev) (filter (matches ?sel) ps)"
    unfolding filter_filter matches_append matches_revision by (simp only: conj_commute)
  then have some: "filter (matches (?sel @ [(StatefulSetRevisionLabel, urev)])) ps \<in> {[], [ps ! i]}"
    by (simp add: masters_listed [OF c(3)] del: filter_filter)
  have new: "achieves d (bnd (wrap w (getStatefulSet E)) (\<lambda>sts. wrap w'
        (list_pods E (dfNamespace d) (?sel @ [(StatefulSetRevisionLabel, stsUpdateRevision sts)]))))
      (\<lambda>x cs e. ((x = [] \<or> x = [ps ! i]) \<and> e = d) \<and> changes cs = [])" for w w'
    by (rule achieves_bnd, intro achieves_wrap, rule achieves_statefulset [OF c(2)], elim conjE, hypsubst)
      (use some in \<open>auto intro!: achieves_wrap intro: achieves_weaken [OF achieves_list [OF c(2)]]\<close>)
  show ?thesis
    unfolding list_masters_def Let_def
    by (rule achieves_get_df, rule achieves_bnd [where U = "\<lambda>x cs e. ((x = [] \<or> x = [ps ! i]) \<and> e = d) \<and> changes cs = []"])
      (use new all in \<open>auto intro: achieves_ret achieves_weaken [OF all]\<close>)
qed

lemma achieves_getMaster:
  assumes "rolling_cluster E report repl d urev i ps"
  shows "achieves d (getMaster E) (\<lambda>x cs e. (x = ps ! i \<and> e = d) \<and> changes cs = [])"
proof -
  note c = rolling_clusterD [OF assms]
  have i: "ps ! i \<in> set ps" using rollableD(2) [OF c(3)] by (simp add: roles_at_def)
  have one: "achieves d (ready_pods E w [ps ! i]) (\<lambda>x cs e. (x = [ps ! i] \<and> e = d) \<and> changes cs = [])" for w
    using rollableD(3) [OF c(3) i] by (intro achieves_ready_pods [OF c(1)]) auto
  show ?thesis
    unfolding getMaster_def
    by (rule achieves_bnd [OF achieves_masters [OF assms]], elim conjE, hypsubst, simp del: ready_pods.simps)
      (rule achieves_bnd [OF one], simp add: achieves_ret)
qed

lemma achieves_replica_stable:
  assumes coop: "cooperative E report repl" and "serves E d' urev ps" and p: "healthy report repl d' p"
  shows "achieves d (isReplicaStable E p) (\<lambda>x cs e. (x = True \<and> e = d) \<and> changes cs = [])"
proof (rule achieves_quiet)
  let ?c = "newRedisClient (podIP p)"
  have ping: "achieves d (redis E ?c Ping) (\<lambda>x cs e. e = d)"
    using assms(2) unfolding redis_def serves_def by (intro achieves_perform) auto
  have info: "achieves d (redis E ?c (Info ''replication'')) (\<lambda>x cs e. x = repl (rcAddr ?c) \<and> e = d)"
    unfolding redis_def by (intro achieves_perform) (simp add: cooperativeD(2) [OF coop])
  have data: "achieves d (redis E ?c (Info ''persistence'')) (\<lambda>x cs e. x = report (rcAddr ?c) \<and> e = d)"
    using cooperativeD(1) [OF coop] unfolding redis_def reports_def by (intro achieves_perform) simp
  have "dataset_loaded (report (rcAddr ?c))" and "link_stable (repl (rcAddr ?c))"
    using p by (simp_all add: healthy_def pod_ready_def)
  then show "achieves d (isReplicaStable E p) (\<lambda>x cs e. x = True \<and> e = d)"
    unfolding isReplicaStable_def
    by (intro achieves_client achieves_bnd [OF ping], hypsubst, intro achieves_bnd [OF info], elim conjE, hypsubst)
      (auto simp: link_stable_def dataset_loaded_def Let_def split: option.splits
        intro!: achieves_bnd [OF data] achieves_ret)
qed (intro keeps_intro)

lemma pod_readyD: "pod_ready report p \<Longrightarrow> \<not> isTerminating p \<and> isRunningAndReady p"
  by (simp add: pod_ready_def)

lemma achieves_all_healthy:
  assumes "rolling_cluster E report repl d urev i ps"
  shows "achieves d (allPodsHealthyAndHaveRole E urev) (\<lambda>x cs e. (x = finished \<and> e = d) \<and> changes cs = [])"
proof -
  note c = rolling_clusterD [OF assms]
  have pods: "achieves d (wrap w (getPods E)) (\<lambda>x cs e. (x = ps \<and> e = d) \<and> changes cs = [])" for w
    using achieves_list [OF c(2), of "instance_labels d"] unfolding getPods_def all_listed [OF c(3)]
    by (intro achieves_wrap achieves_get_df)
  have each: "achieves d (pod_progress E urev p) (\<lambda>r cs e. (r = None \<and> e = d) \<and> changes cs = [])"
    if "p \<in> set (sort_by_name ps)" for p
  proof -
    have p: "p \<in> set ps" using that by (simp add: sort_by_name_def)
    note h = rollableD(3) [OF c(3) p]
    have "roleExists p" using rollableD(2) [OF c(3)] p by (cases rule: role_cases) (auto simp: pod_simps)
    with h show ?thesis
      unfolding pod_progress_def
      by (auto simp: healthy_def dest!: pod_readyD intro!: achieves_bnd [OF achieves_wrap [OF achieves_ready [OF c(1) h]]]
          achieves_ret)
  qed
  show ?thesis
    unfolding allPodsHealthyAndHaveRole_def
    by (rule achieves_bnd [OF pods], elim conjE, hypsubst, rule achieves_bnd [OF achieves_for_until [OF each]])
      (auto simp: or_finished_def intro: achieves_ret)
qed

lemma achieves_verify:
  assumes c: "rolling_cluster E report repl d urev i ps" and "set qs \<subseteq> set ps"
  shows "achieves d (verifyUpdatedReplicas E qs urev) (\<lambda>x cs e. (x = finished \<and> e = d) \<and> changes cs = [])"
proof -
  note c = rolling_clusterD [OF c]
  have mark: "achieves d (patchReplicationReadyCondition E p b) (\<lambda>x cs e. e = d \<and> changes cs = [])" for p b
    by (rule achieves_quiet, rule achieves_weaken [OF achieves_condition [OF c(1)]]) (auto intro: quiet.condition_kept)
  have gate: "achieves d gate_enabled (\<lambda>x cs e. e = d \<and> changes cs = [])"
    unfolding gate_enabled_def by (intro achieves_get_df achieves_ret) simp
  have "achieves d (verify_replica E urev p) (\<lambda>r cs e. (r = None \<and> e = d) \<and> changes cs = [])"
    if "p \<in> set qs" for p
  proof -
    have h: "healthy report repl d p" using that assms(2) rollableD(3) [OF c(3)] by blast
    show ?thesis
      unfolding verify_replica_def bnd_assoc bnd_if
      by (auto simp: only_if_def bnd_assoc intro!: achieves_ret
          achieves_bnd [OF achieves_wrap [OF achieves_replica_stable [OF c(1,2) h]]] achieves_bnd [OF gate]
          achieves_bnd [OF achieves_wrap [OF mark]])
  qed
  then show ?thesis
    unfolding verifyUpdatedReplicas_def
    by (intro achieves_bnd [OF achieves_for_until]) (auto simp: or_finished_def intro: achieves_ret)
qed

text \<open>The replicas: one that is outdated is deleted, or all are of the new revision.\<close>

lemma achieves_updateReplicas:
  assumes c: "rolling_cluster E report repl d urev i ps" and "set qs \<subseteq> set ps"
  shows "achieves d (updateReplicas E qs urev) (\<lambda>x cs e. e = d \<and> snd x = sort_by_name qs \<and>
    (fst x = finished \<and> outdated urev qs = [] \<and> changes cs = [] \<or>
     fst x = requeue (5 * second) \<and> (\<exists>p. p \<in> set (outdated urev qs) \<and> changes cs = [Delete_pod p (Inr ())])))"
proof -
  note cl = rolling_clusterD [OF c]
  have stay: "find isTerminating (sort_by_name qs) = None"
    using assms(2) rollableD(3) [OF cl(3)]
    by (auto simp: find_None_iff sort_by_name_def healthy_def dest: pod_readyD)
  have delete: "achieves d (wrap w (delete_pod E p)) (\<lambda>x cs e. e = d \<and> cs = [Delete_pod p (Inr ())])" for w p
    using cl(2) unfolding delete_pod_def serves_def by (intro achieves_wrap achieves_perform) auto
  have event: "achieves d (record_event a b m) (\<lambda>x cs e. e = d \<and> changes cs = [])" for a b m
    by (rule achieves_event) simp
  show ?thesis
  proof (cases "find (\<lambda>p. \<not> isPodOnLatestVersion p urev) (sort_by_name qs)")
    case None
    then have "outdated urev qs = []"
      by (auto simp: find_None_iff sort_by_name_def outdated_def filter_empty_conv)
    with None show ?thesis
      unfolding updateReplicas_def Let_def
      by (intro achieves_bnd [OF achieves_wrap [OF achieves_getMaster [OF c]]])
        (auto simp: stay intro!: achieves_ret)
  next
    case (Some p)
    then have "p \<in> set (outdated urev qs)"
      by (auto simp: sort_by_name_def outdated_def dest!: find_SomeD)
    with Some show ?thesis
      unfolding updateReplicas_def Let_def
      by (intro achieves_bnd [OF achieves_wrap [OF achieves_getMaster [OF c]]])
        (auto simp: stay intro!: achieves_ret achieves_bnd [OF event] achieves_bnd [OF delete])
  qed
qed

subsection \<open>The master changes hands\<close>

lemma follow_new_master_kept:
  "keeps (guarded (emits (list_all (follow_call (podName m))))) (follow_new_master E m p)"
  unfolding follow_new_master_def configureReplica_def
  by (rule keeps_if, intro keeps_intro, intro keeps_intro following.replicaOf_kept)

lemma achieves_follow:
  assumes coop: "cooperative E report repl" and "\<And>p. p \<in> set qs \<Longrightarrow> healthy report repl d' p"
    and "\<And>p. p \<in> set qs \<Longrightarrow> podLabels p \<noteq> Nil_map"
  shows "achieves d (for_each (follow_new_master E m) qs)
    (\<lambda>x cs e. e = d \<and> list_all (follow_call (podName m)) cs)"
proof (rule achieves_emits)
  have one: "achieves d (follow_new_master E m p) (\<lambda>x cs e. e = d)" if p: "p \<in> set qs" for p
  proof -
    have follow: "achieves d (map_error w (configureReplica E p ip)) (\<lambda>x cs e. e = d)" for w ip
      unfolding configureReplica_def
      by (rule achieves_wrap, rule achieves_weaken [OF achieves_replicaOf [OF coop assms(3) [OF p]]]) simp
    show ?thesis
      unfolding follow_new_master_def only_if_def
      by (auto intro!: achieves_ret achieves_bnd [OF achieves_wrap [OF achieves_ready [OF coop assms(2) [OF p]]]]
          achieves_bnd [OF follow])
  qed
  show "achieves d (for_each (follow_new_master E m) qs) (\<lambda>x cs e. e = d)"
    by (rule achieves_weaken [OF achieves_for_each [where needed = "\<lambda>_. False"]])
      (auto intro: achieves_weaken [OF one])
qed (intro keeps_intro follow_new_master_kept)

lemma achieves_config_quiet:
  assumes "cooperative E report repl"
  shows "achieves d (if b then wrap w (redis E c (Config_set k v)) else ret x) (\<lambda>_ cs e. e = d \<and> changes cs = [])"
  by (rule achieves_quiet [OF achieves_config [OF assms]]) (intro keeps_intro)

definition promoted_to_master :: "pod \<Rightarrow> pod \<Rightarrow> call list \<Rightarrow> bool" where
  "promoted_to_master n m cs \<longleftrightarrow> (\<exists>new r rest. cs = Patch_pod n new (Inr r) # Delete_pod m (Inr ()) # rest \<and>
     go_lookup (podLabels new) RoleLabelKey = Some Master \<and> list_all (follow_call (podName n)) rest)"

lemma achieves_takeover:
  assumes coop: "cooperative E report repl" and srv: "serves E d' urev ps" and "podLabels n \<noteq> Nil_map"
  shows "achieves d (replTakeover E n m)
    (\<lambda>x cs e. e = d \<and> podName x = podName n \<and> promoted_to_master n m (changes cs))"
proof -
  obtain q where q: "mark_master n = Some q" using marked(2) [OF assms(3)] by blast
  have takeover: "achieves d (map_error w (redis_do E c xs)) (\<lambda>x cs e. x = Str_reply ''OK'' \<and> e = d \<and> changes cs = [])" for w c xs
    using srv unfolding redis_do_def serves_def by (intro achieves_wrap achieves_perform) simp
  have patch: "achieves d (map_error w (patch_marked E n (Some q)))
      (\<lambda>x cs e. e = d \<and> podName x = podName q \<and> podIP x = podIP q \<and> (\<exists>r. cs = [Patch_pod n q (Inr r)]))" for w
    by (simp add: patch_marked_def, rule achieves_wrap,
        rule achieves_patch [OF coop, where Q = "\<lambda>cs. \<exists>r. cs = [Patch_pod n q (Inr r)]"]) simp
  have delete: "achieves d (wrap w (delete_pod E m)) (\<lambda>x cs e. e = d \<and> cs = [Delete_pod m (Inr ())])" for w
    using srv unfolding delete_pod_def serves_def by (intro achieves_wrap achieves_perform) auto
  show ?thesis
    unfolding replTakeover_def
    by (rule achieves_client, rule achieves_bnd [OF takeover], simp, rule achieves_get_df,
        rule achieves_bnd, rule achieves_config_quiet [OF coop])
      (auto simp: q promoted_to_master_def mark_master_labels [OF q] intro!: achieves_bnd [OF patch] achieves_bnd [OF delete] achieves_ret)
qed

lemma promoted_and_followed:
  "promoted_to_master n m (changes cs) \<Longrightarrow> list_all (follow_call (podName n)) ds \<Longrightarrow>
   promoted_to_master n m (changes cs @ changes ds)"
  by (auto simp: promoted_to_master_def changes_def list_all_iff)

lemma achieves_updatedMaster:
  assumes c: "rolling_cluster E report repl d urev i ps" and qs: "set qs \<subseteq> set ps" "qs \<noteq> []" "outdated urev qs = []"
  shows "achieves d (updatedMaster E m qs urev) (\<lambda>x cs e. e = d \<and> (\<exists>n\<in>set qs. promoted_to_master n m (changes cs)))"
proof -
  note cl = rolling_clusterD [OF c]
  have h: "healthy report repl d p" and l: "podLabels p \<noteq> Nil_map" if "p \<in> set qs" for p
  proof -
    have p: "p \<in> set ps" using that qs(1) by blast
    show "healthy report repl d p" by (rule rollableD(3) [OF cl(3) p])
    show "podLabels p \<noteq> Nil_map" using rollableD(2) [OF cl(3)] p by (cases rule: role_cases) auto
  qed
  obtain n where n: "find (\<lambda>r. isPodOnLatestVersion r urev) qs = Some n" "n \<in> set qs"
    using qs(2,3) by (cases qs) (auto simp: outdated_def split: if_splits)
  have pick: "getUpdatedReplica qs urev = ret n" using n(1) by (simp add: getUpdatedReplica_def)
  have picked: "achieves d (map_error w (ret n)) (\<lambda>x cs e. x = n \<and> e = d \<and> changes cs = [])" for w
    by (intro achieves_wrap achieves_ret) simp
  have follow: "achieves d (for_each (follow_new_master E m') qs) (\<lambda>x ds e. e = d \<and> list_all (follow_call (podName n)) ds)"
    if "podName m' = podName n" for m'
    using achieves_follow [OF cl(1) h l, of qs d m'] that by simp
  show ?thesis
    unfolding updatedMaster_def
    by (simp add: qs(2) pick, rule achieves_bnd [OF picked], elim conjE, hypsubst,
        rule achieves_bnd [OF achieves_wrap [OF achieves_takeover [OF cl(1,2) l [OF n(2)]]]])
      (use n(2) in \<open>auto intro!: achieves_weaken [OF follow] bexI [of _ n] intro: promoted_and_followed\<close>)
qed

subsection \<open>One round\<close>

text \<open>
  A round deletes an outdated replica, or hands the mastership over and deletes the outdated
  master, or finds every pod of the new revision and finishes the update.
\<close>

definition round_result ::
  "dragonfly \<Rightarrow> dragonfly_status \<Rightarrow> string \<Rightarrow> nat \<Rightarrow> pod list \<Rightarrow> ctrl_result \<Rightarrow> call list \<Rightarrow> dragonfly \<Rightarrow> bool" where
  "round_result d st urev i ps res cs e \<longleftrightarrow>
     res = requeue (5 * second) \<and> e = d \<and>
       (\<exists>p\<in>set (outdated urev ps). isReplica p \<and> changes cs = [Delete_pod p (Inr ())]) \<or>
     res = requeue (5 * second) \<and> e = d \<and> ps ! i \<in> set (outdated urev ps) \<and>
       (\<exists>n\<in>set ps. isReplica n \<and> promoted_to_master n (ps ! i) (changes cs)) \<or>
     res = finished \<and> outdated urev ps = [] \<and> changes cs = [] \<and>
       dfStatus e = st\<lparr>statusPhase := PhaseReady, statusIsRollingUpdate := False\<rparr>"

lemma achieves_finish:
  assumes "cooperative E report repl"
  shows "achieves d (finish_rollout E st) (\<lambda>x cs e. x = finished \<and> changes cs = [] \<and>
    dfStatus e = st\<lparr>statusPhase := PhaseReady, statusIsRollingUpdate := False\<rparr>)"
  unfolding finish_rollout_def
  by (rule achieves_bnd, rule achieves_wrap, rule achieves_quiet [OF achieves_patchStatus [OF assms] quiet.patchStatus_kept])
    (auto intro!: achieves_bnd [OF achieves_event [where Q = "\<lambda>x cs e. changes cs = [] \<and> e = e'" for e']] achieves_ret)

lemma achieves_no_old_masters:
  assumes c: "rolling_cluster E report repl d urev i ps" and "isPodOnLatestVersion (ps ! i) urev"
  shows "achieves d (detectOldMasters E urev) (\<lambda>x cs e. e = d \<and> changes cs = [])"
proof -
  note cl = rolling_clusterD [OF c]
  have list: "achieves d (wrap w (list_pods E (dfNamespace d) (instance_labels d @ [(RoleLabelKey, Master)])))
      (\<lambda>x cs e. (x = [ps ! i] \<and> e = d) \<and> changes cs = [])" for w
    using achieves_wrap [OF achieves_list [OF cl(2), of "instance_labels d @ [(RoleLabelKey, Master)]"]]
    unfolding masters_listed [OF cl(3)] .
  show ?thesis
    unfolding detectOldMasters_def
    by (rule achieves_get_df, rule achieves_bnd [OF list], elim conjE, hypsubst)
      (use assms(2) in \<open>simp add: only_if_def achieves_ret\<close>)
qed

lemma achieves_roll_master:
  assumes c: "rolling_cluster E report repl d urev i ps" and qs: "mset qs = mset (filter isReplica ps)"
    and new: "outdated urev qs = []"
  shows "achieves d (roll_master E st qs urev) (round_result d st urev i ps)"
proof -
  note cl = rolling_clusterD [OF c]
  have set: "set qs = set (filter isReplica ps)" using qs by (rule mset_eq_setD)
  have "int (length qs) = specReplicas (dfSpec d) - 1"
    using replicas_listed(2) [OF cl(3)] mset_eq_length [OF qs] by simp
  then have "qs \<noteq> []" using rollableD(4,5) [OF cl(3)] by auto
  have master: "achieves d (attempt (getMaster E)) (\<lambda>x cs e. (x = Inr (ps ! i) \<and> e = d) \<and> changes cs = [])"
    by (rule achieves_attempt, rule achieves_weaken [OF achieves_getMaster [OF c]]) simp
  have i: "ps ! i \<in> set ps" using rollableD(2) [OF cl(3)] by (simp add: roles_at_def)
  show ?thesis
  proof (cases "isPodOnLatestVersion (ps ! i) urev")
    case True
    have "isPodOnLatestVersion p urev" if p: "p \<in> set ps" for p
      using rollableD(2) [OF cl(3)] p
    proof (cases rule: role_cases)
      case replica
      with p set new show ?thesis by (auto simp: outdated_def filter_empty_conv)
    qed (use True in simp)
    then have all: "outdated urev ps = []" by (simp add: outdated_def filter_empty_conv)
    from True show ?thesis
      unfolding roll_master_def
      by (intro achieves_bnd [OF master]) (auto simp: round_result_def all
          intro!: achieves_bnd [OF achieves_wrap [OF achieves_no_old_masters [OF c True]]]
          intro: achieves_weaken [OF achieves_finish [OF cl(1)]])
  next
    case False
    with i have "ps ! i \<in> set (outdated urev ps)" by (simp add: outdated_def)
    with False set show ?thesis
      unfolding roll_master_def
      by (intro achieves_bnd [OF master]) (auto simp: round_result_def
          intro!: achieves_bnd [OF achieves_wrap [OF achieves_updatedMaster [OF c _ \<open>qs \<noteq> []\<close> new]]] achieves_ret)
  qed
qed

lemma achieves_round:
  assumes c: "rolling_cluster E report repl d urev i ps"
  shows "achieves d (rollout_round E st) (round_result d st urev i ps)"
proof -
  note cl = rolling_clusterD [OF c]
  let ?rs = "filter isReplica ps"
  have replicas: "achieves d (wrap w (getReplicas E)) (\<lambda>x cs e. (x = ?rs \<and> e = d) \<and> changes cs = [])" for w
    unfolding getReplicas_def
    by (intro achieves_wrap achieves_get_df)
      (use achieves_list [OF cl(2), of "instance_labels d @ [(RoleLabelKey, Replica)]"] in
        \<open>simp add: replicas_listed(1) [OF cl(3)]\<close>)
  have sub: "set ?rs \<subseteq> set ps" by auto
  have later: "round_result d st urev i ps res (as @ cs) e"
    if "round_result d st urev i ps res cs e" "changes as = []" for res as cs e
    using that by (simp add: round_result_def)
  have roll: "achieves d (roll_master E st (sort_by_name ?rs) urev) (round_result d st urev i ps)"
    if "outdated urev ?rs = []"
    using that by (intro achieves_roll_master [OF c]) (auto simp: sort_by_name_def outdated_def filter_empty_conv)
  have deleted: "round_result d st urev i ps (requeue (5 * second)) as d"
    if "p \<in> set (outdated urev ?rs)" "changes as = [Delete_pod p (Inr ())]" for p as
    using that unfolding round_result_def by (auto simp: outdated_def)
  have update: "achieves d (bnd (updateReplicas E ?rs urev) (\<lambda>(result, sorted_replicas).
        if \<not> is_zero_result result then ret result else roll_master E st sorted_replicas urev))
      (round_result d st urev i ps)"
    by (rule achieves_bnd [OF achieves_updateReplicas [OF c sub]])
      (auto split: prod.splits intro!: achieves_ret achieves_weaken [OF roll] intro: deleted [simplified] later)
  have round: "achieves d (rollout_to E st urev) (round_result d st urev i ps)"
    unfolding rollout_to_def unless_requeued_def roll_replicas_def
    by (rule achieves_bnd [OF achieves_all_healthy [OF c]], elim conjE, hypsubst, simp,
        rule achieves_bnd [OF replicas], elim conjE, hypsubst, rule achieves_get_df,
        simp add: replicas_listed(2) [OF cl(3)],
        rule achieves_bnd [OF achieves_verify [OF c sub]], elim conjE, hypsubst, simp)
      (rule achieves_weaken [OF update], simp add: later)
  show ?thesis
    unfolding rollout_round_def
    by (rule achieves_bnd, rule achieves_wrap, rule achieves_statefulset [OF cl(2)], elim conjE, simp)
      (rule achieves_weaken [OF round], simp add: later)
qed

end
