(* ===== verification/Rollout_Completion.thy ===== *)
theory Rollout_Completion
  imports Rollout_Round
begin

section \<open>A rolling update completes when the cluster cooperates\<close>

text \<open>
  The reconciliations of a rolling update end, from the detection of a new revision to the
  status that reports it done. The pods of the instance change between two of them: the
  StatefulSet controller replaces a pod that was deleted by one of the new revision, which the
  pod lifecycle controller attaches as a replica, and a patch of a role label is in the next
  listing. None of that is part of a reconciliation of the Dragonfly controller, so it is a
  function \<open>evolve\<close> from its calls and its pods to the pods of the next one, constrained by
  \<open>succeeds_to\<close>. The custom resource of the next one is the one the last status patch left.
\<close>

subsection \<open>The owned objects\<close>

definition accepts_objects :: "env \<Rightarrow> bool" where
  "accepts_objects E \<longleftrightarrow>
     (\<forall>h x. case envGetObject E h x of Inl err \<Rightarrow> is_not_found err | Inr y \<Rightarrow> True) \<and>
     (\<forall>h x. \<exists>y. envCreateObject E h x = Inr y) \<and>
     (\<forall>h x y. \<exists>z. envPatchObject E h x y = Inr z) \<and>
     (\<forall>d x. \<exists>y. envSetControllerReference E d x = Inr y)"

lemma object_calls_quiet [simp]:
  "\<not> is_change (Get_object y r)" "\<not> is_change (Create_object y r)" "\<not> is_change (Patch_object x y r)"
  "\<not> is_change (Get_dragonfly ns n q)"
  by (simp_all add: is_change_def)

lemma achieves_quiet_event: "achieves d (record_event ty reason msg) (\<lambda>x cs e. e = d \<and> changes cs = [])"
  by (rule achieves_event) simp

lemma achieves_object:
  assumes "accepts_objects E"
  shows "achieves d (reconcile_object E x) (\<lambda>_ cs e. e = d \<and> changes cs = [])"
proof -
  have get: "achieves d (attempt (get_object E x))
      (\<lambda>r cs e. e = d \<and> changes cs = [] \<and> (case r of Inl err \<Rightarrow> is_not_found err | Inr y \<Rightarrow> True))"
    unfolding get_object_def by (rule achieves_attempt_perform) (use assms in \<open>simp add: accepts_objects_def\<close>)
  have owner: "achieves d (set_controller_reference E x) (\<lambda>y cs e. e = d \<and> changes cs = [])"
  proof -
    obtain y where "envSetControllerReference E d x = Inr y" using assms unfolding accepts_objects_def by blast
    then show ?thesis
      unfolding set_controller_reference_def
      by (intro achieves_get_df achieves_wrap) (simp add: achieves_ret)
  qed
  have create: "achieves d (wrap w (create_object E y)) (\<lambda>z cs e. e = d \<and> changes cs = [])" for w y
    unfolding create_object_def by (intro achieves_wrap achieves_perform) (use assms in \<open>auto simp: accepts_objects_def\<close>)
  have patch: "achieves d (wrap w (patch_object E y y')) (\<lambda>z cs e. e = d \<and> changes cs = [])" for w y y'
    unfolding patch_object_def by (intro achieves_wrap achieves_perform) (use assms in \<open>auto simp: accepts_objects_def\<close>)
  have events: "achieves d (immutable_events y y') (\<lambda>_ cs e. e = d \<and> changes cs = [])" for y y'
    unfolding immutable_events_def only_if_def
    by (auto intro!: achieves_ret achieves_bnd [OF achieves_quiet_event] intro: achieves_quiet_event
        split: k8s_object.split)
  show ?thesis
    unfolding reconcile_object_def create_missing_def update_existing_def Let_def
    by (rule achieves_bnd [OF get])
      (auto intro!: achieves_ret achieves_bnd [OF owner] achieves_bnd [OF create] achieves_bnd [OF patch]
        achieves_bnd [OF events] split: sum.splits)
qed

lemma generation_cong:
  assumes "same_instance d e"
  shows "(\<exists>objs. GenerateDragonflyResources e img = Inr objs) \<longleftrightarrow> (\<exists>objs. GenerateDragonflyResources d img = Inr objs)"
  using assms by (simp add: Generate_Inr_iff check_user_labels_def check_snapshot_def same_instance_def)

lemma achieves_resources:
  assumes "accepts_objects E" and "GenerateDragonflyResources d img = Inr objs"
    and "statusPhase (dfStatus d) \<noteq> ''''" and "2 \<le> specReplicas (dfSpec d)"
  shows "achieves d (reconcileResources E img) (\<lambda>_ cs e. e = d \<and> changes cs = [])"
proof -
  have generated: "achieves d (wrap w (case GenerateDragonflyResources d img of Inl e \<Rightarrow> fail e | Inr objs \<Rightarrow> ret objs))
      (\<lambda>x cs e. x = objs \<and> e = d \<and> changes cs = [])" for w
    using assms(2) by (intro achieves_wrap) (simp add: achieves_ret)
  have each: "achieves d (for_each (reconcile_object E) xs) (\<lambda>_ cs e. e = d \<and> changes cs = [])" for xs
    by (induction xs) (auto intro!: achieves_ret achieves_bnd [OF achieves_object [OF assms(1)]] elim: achieves_weaken)
  have budget: "achieves d (remove_budget E) (\<lambda>_ cs e. e = d \<and> changes cs = [])"
    unfolding remove_budget_def only_if_def by (rule achieves_get_df) (use assms(4) in \<open>simp add: achieves_ret\<close>)
  have start: "achieves d (start_phase E) (\<lambda>_ cs e. e = d \<and> changes cs = [])"
    unfolding start_phase_def only_if_def by (rule achieves_status) (use assms(3) in \<open>simp add: achieves_ret\<close>)
  show ?thesis
    unfolding reconcileResources_def
    by (rule achieves_get_df, rule achieves_bnd [OF generated], elim conjE, hypsubst,
        rule achieves_bnd [OF each], elim conjE, hypsubst, rule achieves_bnd [OF budget], elim conjE, hypsubst)
      (auto intro: achieves_weaken [OF start])
qed

subsection \<open>One reconciliation\<close>

lemma same_instance_cong:
  assumes "same_instance d e"
  shows "rollable report repl e i ps = rollable report repl d i ps"
    and "serves E e urev ps = serves E d urev ps" and "instance_labels e = instance_labels d"
proof -
  show labels: "instance_labels e = instance_labels d" using assms by (simp add: same_instance_def instance_labels_def)
  show "rollable report repl e i ps = rollable report repl d i ps"
    using assms by (simp add: same_instance_def rollable_def healthy_def [abs_def] labels)
  show "serves E e urev ps = serves E d urev ps"
    using assms by (simp add: same_instance_def serves_def)
qed

text \<open>The status calls for a rolling update: one is under way, or the pods make the detection start one.\<close>

definition under_way :: "dragonfly_status \<Rightarrow> bool" where
  "under_way st \<longleftrightarrow> rolling st \<and> statusPhase st \<noteq> ''''"

lemma under_way_rolling: "under_way st \<Longrightarrow> rolling st"
  by (simp add: under_way_def)

definition update_due :: "string \<Rightarrow> pod list \<Rightarrow> dragonfly_status \<Rightarrow> bool" where
  "update_due urev ps st \<longleftrightarrow> under_way st \<or>
     (phase_ready st \<or> statusPhase st = PhaseNotReady) \<and> outdated urev ps \<noteq> []"

lemma achieves_detect:
  assumes c: "rolling_cluster E report repl d urev i ps" and due: "update_due urev ps (dfStatus d)"
  shows "achieves d (detectRollingUpdate E) (\<lambda>st cs e. same_instance d e \<and> dfStatus e = st \<and>
    under_way st \<and> changes cs = [])"
proof -
  note cl = rolling_clusterD [OF c]
  have pods: "achieves d (wrap w (getPods E)) (\<lambda>x cs e. (x = ps \<and> e = d) \<and> changes cs = [])" for w
    using achieves_list [OF cl(2), of "instance_labels d"] unfolding getPods_def all_listed [OF cl(3)]
    by (intro achieves_wrap achieves_get_df)
  have patch: "achieves d (wrap w (patchStatus E st)) (\<lambda>_ cs e. (same_instance d e \<and> dfStatus e = st) \<and> changes cs = [])" for w st
    by (rule achieves_wrap, rule achieves_quiet [OF achieves_patchStatus [OF cl(1)] quiet.patchStatus_kept])
  have event: "achieves e (record_event a b t) (\<lambda>_ cs e'. e' = e \<and> changes cs = [])" for e a b t
    by (rule achieves_event) simp
  have roll: "under_way (st\<lparr>statusPhase := PhaseRollingUpdate\<rparr>)" for st by (simp add: under_way_def rolling_def)
  have start: "achieves d (bnd (record_event a b t) (\<lambda>_. bnd (wrap w (patchStatus E st))
        (\<lambda>_. bnd (record_event a' b' t') (\<lambda>_. ret st))))
      (\<lambda>x cs e. same_instance d e \<and> dfStatus e = x \<and> under_way x \<and> changes cs = [])"
    if "under_way st" for a b t w a' b' t' st
    by (rule achieves_bnd [OF event], elim conjE, hypsubst, rule achieves_bnd [OF patch])
      (use that in \<open>auto intro!: achieves_bnd [OF event] achieves_ret\<close>)
  have unneeded: "under_way (dfStatus d)"
    if "\<not> needRollingUpdate ps sts" "stsUpdateRevision sts = urev"
      "outdated urev ps \<noteq> [] \<longrightarrow> stsUpdatedReplicas sts \<noteq> stsStatusReplicas sts" for sts
    using that due by (auto simp: needRollingUpdate_iff update_due_def under_way_def outdated_def filter_empty_conv)
  show ?thesis
    unfolding detectRollingUpdate_def
    by (rule achieves_status, rule achieves_bnd, rule achieves_wrap, rule achieves_statefulset [OF cl(2)],
        elim conjE, hypsubst, rule achieves_bnd [OF pods], elim conjE, hypsubst)
      (auto intro!: achieves_weaken [OF start [OF roll]] achieves_ret dest: unneeded)
qed

lemma achieves_reconcile_instance:
  assumes c: "rolling_cluster E report repl d urev i ps" and due: "update_due urev ps (dfStatus d)"
    and "accepts_objects E" and "GenerateDragonflyResources d img = Inr objs" and "dfDeletionTimestamp d = None"
  shows "achieves d (reconcile_instance E img) (\<lambda>res cs e. \<exists>d'. same_instance d d' \<and> under_way (dfStatus d') \<and>
    round_result d' (dfStatus d') urev i ps res cs e)"
proof -
  note cl = rolling_clusterD [OF c]
  have "statusPhase (dfStatus d) \<noteq> ''''" and "2 \<le> specReplicas (dfSpec d)"
    using due rollableD(4,5) [OF cl(3)] by (auto simp: update_due_def under_way_def phase_ready_def)
  with assms(3,4) have resources: "achieves d (wrap w (reconcileResources E img)) (\<lambda>_ cs e. e = d \<and> changes cs = [])" for w
    by (intro achieves_wrap achieves_resources)
  have alive: "achieves d isInstanceTerminating (\<lambda>x cs e. x = False \<and> e = d \<and> changes cs = [])"
    unfolding isInstanceTerminating_def using assms(5) by (intro achieves_get_df achieves_ret) simp
  have status: "achieves d (if phase_ready (dfStatus d) \<or> statusPhase (dfStatus d) = PhaseNotReady
      then wrap w (detectRollingUpdate E) else ret (dfStatus d))
      (\<lambda>st cs e. same_instance d e \<and> dfStatus e = st \<and> under_way st \<and> changes cs = [])" for w
    using achieves_wrap [OF achieves_detect [OF c due]] due
    by (auto simp: update_due_def under_way_def intro: achieves_ret)
  have round: "achieves e (rollout_round E (dfStatus e)) (\<lambda>res ds e'. \<exists>d'. same_instance d d' \<and> under_way (dfStatus d') \<and>
      round_result d' (dfStatus d') urev i ps res (cs @ ds) e')"
    if "same_instance d e" "under_way (dfStatus e)" "changes cs = []" for e cs
  proof -
    have "rolling_cluster E report repl e urev i ps"
      using c same_instance_cong [OF that(1)] by (simp add: rolling_cluster_def)
    then show ?thesis
      by (intro achieves_weaken [OF achieves_round]) (use that in \<open>auto simp: round_result_def\<close>)
  qed
  show ?thesis
    unfolding reconcile_instance_def
    by (rule achieves_bnd [OF alive], elim conjE, hypsubst, simp only: if_False,
        rule achieves_bnd [OF resources], elim conjE, hypsubst, rule achieves_status,
        rule achieves_bnd [OF status], elim conjE, hypsubst)
      (simp, use round in \<open>simp add: under_way_rolling append_assoc [symmetric] del: append_assoc\<close>)
qed

text \<open>A whole reconciliation, from the custom resource \<open>d\<close> that the API server has.\<close>

lemma reconciliation:
  assumes c: "rolling_cluster E report repl d urev i ps" and due: "update_due urev ps (dfStatus d)"
    and "accepts_objects E" and "GenerateDragonflyResources d img = Inr objs" and "dfDeletionTimestamp d = None"
    and get: "\<And>h. envGetDragonfly E h ns name = Inr d"
  obtains res t cs d' where "DragonflyReconcile E img ns name s = (Ok res, t)" and "history t = history s @ cs"
    and "same_instance d d'" and "under_way (dfStatus d')" and "round_result d' (dfStatus d') urev i ps res cs (df t)"
proof -
  let ?s = "s\<lparr>history := history s @ [Get_dragonfly ns name (Inr d)], redisClients := Nil_map, df := d\<rparr>"
  have "clients_ok ?s" and "df ?s = d" by (simp_all add: clients_ok_def)
  with achieves_reconcile_instance [OF assms(1-5)] obtain res t cs where
    run: "reconcile_instance E img ?s = (Ok res, t)" "history t = history ?s @ cs"
      "\<exists>d'. same_instance d d' \<and> under_way (dfStatus d') \<and> round_result d' (dfStatus d') urev i ps res cs (df t)"
    by (rule achievesD)
  then obtain d' where d': "same_instance d d'" "under_way (dfStatus d')" "round_result d' (dfStatus d') urev i ps res cs (df t)"
    by blast
  have "DragonflyReconcile E img ns name s = (Ok res, t\<lparr>redisClients := Nil_map\<rparr>)"
    using closing_run [where m = "reconcile_instance E img", OF run(1)]
    by (simp add: DragonflyReconcile_def run_simps instance_read [OF get])
  then show thesis
    by (rule that [where cs = "Get_dragonfly ns name (Inr d) # cs"])
      (use run(2) d' in \<open>auto simp: round_result_def\<close>)
qed

subsection \<open>From one round to the next\<close>

lemma deletions_changes: "deletions (changes cs) = deletions cs"
  by (induction cs) (auto simp: deletions_def map_filter_def deleted_pod_def is_change_def split: call.splits)

lemma follow_role:
  assumes "list_all (follow_call m) cs"
  shows "role_after cs n role \<in> {role, Some Replica}" and "role_after cs m role = role"
    and "deletions cs = []"
  using assms by (induction cs arbitrary: role)
    (auto simp: follow_call_def deletions_def map_filter_def deleted_pod_def split: call.splits sum.splits if_splits)

text \<open>The pod \<open>q\<close> of the next round in the place of \<open>p\<close>, after a round that made the calls \<open>cs\<close>.\<close>

definition succeeds_to ::
  "(string \<Rightarrow> string) \<Rightarrow> (string \<Rightarrow> string) \<Rightarrow> dragonfly \<Rightarrow> string \<Rightarrow> call list \<Rightarrow> pod \<Rightarrow> pod \<Rightarrow> bool" where
  "succeeds_to report repl d urev cs p q \<longleftrightarrow> podName q = podName p \<and> healthy report repl d q \<and>
     (if p \<in> set (deletions cs)
      then isPodOnLatestVersion q urev \<and> go_lookup (podLabels q) RoleLabelKey = Some Replica
      else isPodOnLatestVersion q urev = isPodOnLatestVersion p urev \<and>
        go_lookup (podLabels q) RoleLabelKey = role_after cs (podName p) (go_lookup (podLabels p) RoleLabelKey))"

definition evolves ::
  "(string \<Rightarrow> string) \<Rightarrow> (string \<Rightarrow> string) \<Rightarrow> dragonfly \<Rightarrow> string \<Rightarrow>
   (call list \<Rightarrow> pod list \<Rightarrow> pod list) \<Rightarrow> bool" where
  "evolves report repl d urev evolve \<longleftrightarrow>
     (\<forall>i cs ps. rollable report repl d i ps \<longrightarrow>
       list_all2 (succeeds_to report repl d urev cs) ps (evolve cs ps))"

lemma same_names:
  assumes "list_all2 (succeeds_to report repl d urev cs) ps qs"
  shows "map podName qs = map podName ps"
  using assms by (induction rule: list_all2_induct) (auto simp: succeeds_to_def)

lemma next_rollable:
  assumes ps: "rollable report repl d i ps" and qs: "list_all2 (succeeds_to report repl d urev cs) ps qs"
    and roles: "roles_at j qs"
  shows "rollable report repl d j qs"
proof -
  have "list_all (healthy report repl d) qs"
    using qs by (induction rule: list_all2_induct) (auto simp: succeeds_to_def)
  with ps roles same_names [OF qs] list_all2_lengthD [OF qs] show ?thesis by (simp add: rollable_def)
qed

text \<open>Fewer pods are outdated once an outdated one has been deleted.\<close>

lemma fewer_outdated:
  assumes "list_all2 (succeeds_to report repl d urev cs) ps qs" and "p \<in> set (outdated urev ps)"
    and "deletions cs = [p]"
  shows "length (outdated urev qs) < length (outdated urev ps)"
proof -
  have le: "length (outdated urev qs) \<le> length (filter (\<lambda>q. q \<noteq> p) (outdated urev ps))"
    using assms(1) by (induction rule: list_all2_induct)
      (auto simp: succeeds_to_def outdated_def assms(3) split: if_splits)
  also have "\<dots> < length (outdated urev ps)"
    using assms(2) by (rule length_filter_less) simp
  finally show ?thesis .
qed

lemma next_roles:
  assumes ps: "rollable report repl d i ps" and qs: "list_all2 (succeeds_to report repl d urev cs) ps qs"
    and result: "round_result d' st urev i ps (requeue (5 * second)) cs e"
  shows "\<exists>j. roles_at j qs"
proof -
  have len: "length qs = length ps" using qs by (rule list_all2_lengthD [symmetric])
  have i: "i < length ps" and role: "\<And>k. k < length ps \<Longrightarrow>
      go_lookup (podLabels (ps ! k)) RoleLabelKey = Some (if k = i then Master else Replica)"
    using rollableD(2) [OF ps] by (auto simp: roles_at_def)
  have same: "k = l" if "podName (ps ! k) = podName (ps ! l)" "k < length ps" "l < length ps" for k l
    using that rollableD(1) [OF ps] by (metis distinct_conv_nth length_map nth_map)
  have step: "succeeds_to report repl d urev cs (ps ! k) (qs ! k)" if "k < length ps" for k
    using qs that by (rule list_all2_nthD)
  from result consider
    (replica) p where "p \<in> set ps" "isReplica p" "changes cs = [Delete_pod p (Inr ())]"
    | (master) n where "n \<in> set ps" "isReplica n" "promoted_to_master n (ps ! i) (changes cs)"
    by (auto simp: round_result_def outdated_def)
  then show ?thesis
  proof cases
    case replica
    have "deletions cs = [p]" and keep: "role_after cs n r = r" for n r
      using replica(3) deletions_changes [of cs] role_after_changes [of cs n r] by simp_all
    have "p \<noteq> ps ! i" using replica(2) role [OF i] by (auto simp: pod_simps)
    then have "go_lookup (podLabels (qs ! k)) RoleLabelKey = Some (if k = i then Master else Replica)"
      if k: "k < length ps" for k
      using step [OF k] role [OF k] by (cases "k = i") (auto simp: succeeds_to_def \<open>deletions cs = [p]\<close> keep split: if_splits)
    with i have "roles_at i qs" by (simp add: roles_at_def len)
    then show ?thesis ..
  next
    case master
    then obtain j where j: "j < length ps" "n = ps ! j" by (auto simp: in_set_conv_nth)
    obtain new r rest where ch: "changes cs = Patch_pod n new (Inr r) # Delete_pod (ps ! i) (Inr ()) # rest"
      and new: "go_lookup (podLabels new) RoleLabelKey = Some Master" and rest: "list_all (follow_call (podName n)) rest"
      using master(3) by (auto simp: promoted_to_master_def)
    have "j \<noteq> i" using master(2) j role by (auto simp: pod_simps split: if_splits)
    have del: "deletions cs = [ps ! i]"
      using deletions_changes [of cs] follow_role(3) [OF rest] by (simp add: ch)
    have after: "role_after cs m x = role_after rest m (if podName n = m then Some Master else x)" for m x
      using role_after_changes [of cs m x] by (auto simp: ch new)
    have "go_lookup (podLabels (qs ! k)) RoleLabelKey = Some (if k = j then Master else Replica)"
      if k: "k < length ps" for k
    proof (cases "k = i")
      case True
      with step [OF k] del \<open>j \<noteq> i\<close> show ?thesis by (simp add: succeeds_to_def)
    next
      case False
      then have "ps ! k \<noteq> ps ! i" using same [OF _ k i] by auto
      with step [OF k] del False have "go_lookup (podLabels (qs ! k)) RoleLabelKey
          = role_after rest (podName (ps ! k)) (if podName n = podName (ps ! k) then Some Master else Some Replica)"
        using role [OF k] by (simp add: succeeds_to_def after)
      then show ?thesis
        using follow_role(1,2) [OF rest] same [OF _ k j(1)] j(2) by (cases "k = j") auto
    qed
    with j(1) have "roles_at j qs" by (simp add: roles_at_def len)
    then show ?thesis ..
  qed
qed

subsection \<open>All of them\<close>

text \<open>
  Reconciliations of a rolling update, at most \<open>n\<close> of them: \<open>None\<close> when they did not suffice. The
  environment of one depends on the pods and the custom resource at its start.
\<close>

fun reconcile_rounds ::
  "(pod list \<Rightarrow> dragonfly \<Rightarrow> env) \<Rightarrow> (call list \<Rightarrow> pod list \<Rightarrow> pod list) \<Rightarrow> string \<Rightarrow> string \<Rightarrow> string \<Rightarrow>
   nat \<Rightarrow> pod list \<Rightarrow> dragonfly \<Rightarrow> op_state \<Rightarrow> (pod list \<times> op_state) option" where
  "reconcile_rounds E evolve img ns name 0 ps d s = None"
| "reconcile_rounds E evolve img ns name (Suc n) ps d s =
     (case DragonflyReconcile (E ps d) img ns name s of
        (Ok res, t) \<Rightarrow>
          if is_zero_result res then Some (ps, t)
          else reconcile_rounds E evolve img ns name n
                 (evolve (drop (length (history s)) (history t)) ps) (df t) t
      | _ \<Rightarrow> None)"

definition hosts ::
  "(string \<Rightarrow> string) \<Rightarrow> (string \<Rightarrow> string) \<Rightarrow> string \<Rightarrow> string \<Rightarrow> string \<Rightarrow> pod list \<Rightarrow> dragonfly \<Rightarrow> env \<Rightarrow> bool" where
  "hosts report repl urev ns name ps d E \<longleftrightarrow>
     cooperative E report repl \<and> serves E d urev ps \<and> accepts_objects E \<and>
     (\<forall>h. envGetDragonfly E h ns name = Inr d)"

lemma rounds_complete:
  assumes E: "\<And>qs e. same_instance d e \<Longrightarrow> hosts report repl urev ns name qs e (E qs e)"
    and evolve: "evolves report repl d urev evolve"
    and gen: "GenerateDragonflyResources d img = Inr objs" and alive: "dfDeletionTimestamp d = None"
    and "same_instance d e" and "rollable report repl d i ps" and "update_due urev ps (dfStatus e)"
    and "length (outdated urev ps) < n"
  shows "\<exists>qs t cs. reconcile_rounds E evolve img ns name n ps e s = Some (qs, t) \<and> outdated urev qs = [] \<and>
    map podName qs = map podName ps \<and> (\<exists>j. roles_at j qs) \<and> history t = history s @ cs \<and>
    length (deletions cs) \<le> length (outdated urev ps) \<and>
    statusPhase (dfStatus (df t)) = PhaseReady \<and> \<not> statusIsRollingUpdate (dfStatus (df t))"
  using assms(5-8)
proof (induction n arbitrary: i ps e s)
  case (Suc n)
  have host: "hosts report repl urev ns name ps e (E ps e)" by (rule E [OF Suc.prems(1)])
  have c: "rolling_cluster (E ps e) report repl e urev i ps"
    using host Suc.prems(2) same_instance_cong [OF Suc.prems(1)] by (simp add: rolling_cluster_def hosts_def)
  obtain objs' where gen': "GenerateDragonflyResources e img = Inr objs'"
    using generation_cong [OF Suc.prems(1)] gen by blast
  have alive': "dfDeletionTimestamp e = None" using Suc.prems(1) alive by (simp add: same_instance_def)
  have accepts: "accepts_objects (E ps e)" and get: "\<And>h. envGetDragonfly (E ps e) h ns name = Inr e"
    using host by (simp_all add: hosts_def)
  obtain res t cs e' where run: "DragonflyReconcile (E ps e) img ns name s = (Ok res, t)" "history t = history s @ cs"
    and e': "same_instance e e'" "under_way (dfStatus e')"
    and result: "round_result e' (dfStatus e') urev i ps res cs (df t)"
    using reconciliation [OF c Suc.prems(3) accepts gen' alive' get] by metis
  have del: "deletions (changes cs) = deletions cs" by (rule deletions_changes)
  show ?case
  proof (cases "res = requeue (5 * second)")
    case False
    with result have "res = finished" "outdated urev ps = []" "changes cs = []"
      "dfStatus (df t) = (dfStatus e')\<lparr>statusPhase := PhaseReady, statusIsRollingUpdate := False\<rparr>"
      by (auto simp: round_result_def)
    with run del rollableD(2) [OF Suc.prems(2)] show ?thesis by auto
  next
    case True
    let ?qs = "evolve cs ps"
    have next_pods: "list_all2 (succeeds_to report repl d urev cs) ps ?qs"
      using evolve Suc.prems(2) by (simp add: evolves_def)
    obtain j where j: "roles_at j ?qs" using next_roles [OF Suc.prems(2) next_pods] result True by blast
    have df: "df t = e'" using result True by (auto simp: round_result_def)
    have same: "same_instance d (df t)" using same_instance_trans [OF Suc.prems(1) e'(1)] by (simp add: df)
    have due: "update_due urev ?qs (dfStatus (df t))" using e'(2) by (simp add: update_due_def df)
    obtain p where p: "p \<in> set (outdated urev ps)" "deletions cs = [p]"
    proof -
      from result True consider
        (replica) p where "p \<in> set (outdated urev ps)" "changes cs = [Delete_pod p (Inr ())]"
        | (master) m where "ps ! i \<in> set (outdated urev ps)" "promoted_to_master m (ps ! i) (changes cs)"
        by (auto simp: round_result_def)
      then show thesis
      proof cases
        case replica
        with del show thesis by (intro that [of p]) auto
      next
        case master
        with del show thesis by (intro that [of "ps ! i"]) (auto simp: promoted_to_master_def follow_role(3))
      qed
    qed
    have fewer: "length (outdated urev ?qs) < length (outdated urev ps)"
      using next_pods p by (rule fewer_outdated)
    with Suc.prems(4) have "length (outdated urev ?qs) < n" by simp
    from Suc.IH [OF same next_rollable [OF Suc.prems(2) next_pods j] due this] obtain qs u ds where
      "reconcile_rounds E evolve img ns name n ?qs (df t) t = Some (qs, u)" "outdated urev qs = []"
      "map podName qs = map podName ?qs" "\<exists>j. roles_at j qs" "history u = history t @ ds"
      "length (deletions ds) \<le> length (outdated urev ?qs)"
      "statusPhase (dfStatus (df u)) = PhaseReady" "\<not> statusIsRollingUpdate (dfStatus (df u))" by blast
    with run True p(2) fewer same_names [OF next_pods] show ?thesis by auto
  qed
qed simp

subsection \<open>Property\<close>

text \<open>C5: A rolling update completes: in a cluster of at least two ready pods with one master, where
  commands, patches and deletions are accepted, deleted pods come back in the new revision as replicas
  and the links are stable, as many reconciliations of the Dragonfly controller as there are outdated
  pods and one more finish the update, from its detection on. By then every pod is of the new
  revision, under the same names, one of them is the master and the others are replicas, the status
  says Ready and no longer rolling, and no more pods were deleted than were outdated. No
  reconciliation fails on the way.\<close>

theorem rolling_update_completes:
  assumes "\<And>qs e. same_instance d e \<Longrightarrow> hosts report repl urev ns name qs e (E qs e)"
    and "evolves report repl d urev evolve"
    and "GenerateDragonflyResources d img = Inr objs" and "dfDeletionTimestamp d = None"
    and "rollable report repl d i ps" and "update_due urev ps (dfStatus d)"
  shows "\<exists>qs t cs. reconcile_rounds E evolve img ns name (Suc (length (outdated urev ps))) ps d s = Some (qs, t) \<and>
    outdated urev qs = [] \<and> map podName qs = map podName ps \<and> (\<exists>j. roles_at j qs) \<and>
    history t = history s @ cs \<and> length (deletions cs) \<le> length (outdated urev ps) \<and>
    statusPhase (dfStatus (df t)) = PhaseReady \<and> \<not> statusIsRollingUpdate (dfStatus (df t))"
  by (rule rounds_complete [OF assms(1-4) same_instance_refl assms(5,6)]) simp_all

subsection \<open>Witness\<close>

text \<open>The sample cluster: a deleted pod comes back at its address, a stored role label is listed.\<close>

definition sample_host :: "pod list \<Rightarrow> dragonfly \<Rightarrow> env" where
  "sample_host ps d = (sample_env ps)\<lparr>envGetDragonfly := \<lambda>h ns n. Inr d\<rparr>"

definition sample_evolve :: "call list \<Rightarrow> pod list \<Rightarrow> pod list" where
  "sample_evolve cs ps = map (\<lambda>p. p\<lparr>podLabels := Go_map
     (if p \<in> set (deletions cs)
      then (go_lookup (podLabels p))(RoleLabelKey \<mapsto> Replica, StatefulSetRevisionLabel \<mapsto> ''r2'')
      else (go_lookup (podLabels p))
        (RoleLabelKey := role_after cs (podName p) (go_lookup (podLabels p) RoleLabelKey)))\<rparr>) ps"

lemma sample_hosts: "hosts sample_report sample_repl ''r2'' ns name ps d (sample_host ps d)"
  using sample_cooperates [of ps] sample_reports
  by (simp add: hosts_def sample_host_def cooperative_def reports_def serves_def accepts_objects_def
      sample_listed_def matches_def [abs_def] sample_statefulset_def)

lemma sample_links: "link_stable (sample_repl a)"
  by (simp add: link_stable_def sample_info_def parseInfoToMap_def parse_info_line_def Let_def trim_space_def
      trim_by_def is_space_def has_prefix_def trim_suffix_def split_n2_def)

lemma relabelled_ready [simp]: "pod_ready report (p\<lparr>podLabels := ls\<rparr>) = pod_ready report p"
  by (simp add: pod_ready_def isRunningAndReady_def isReady_def isTerminating_def pod_simps split: option.split)

lemma sample_evolves: "evolves sample_report sample_repl (sample_df ph) ''r2'' sample_evolve"
  by (auto simp: evolves_def sample_evolve_def list_all2_map2 rollable_def list_all_iff healthy_def
      succeeds_to_def instance_labels_def matches_def pod_simps intro!: list.rel_refl_strong)

lemma sample_rollable: "rollable sample_report sample_repl (sample_df ph) 0 [sample_master, sample_replica]"
proof -
  have "pod_ready sample_report sample_master" "pod_ready sample_report sample_replica"
    using sample_loaded
    by (simp_all add: pod_ready_def sample_pods pod_simps isRunningAndReady_def isReady_def
        isDragonflyContainerReady_def isTerminating_def)
  then show ?thesis
    by (simp add: rollable_def healthy_def sample_links)
      (auto simp: roles_at_def matches_def instance_labels_def sample_pods sample_df_def sample_spec_def less_Suc_eq)
qed

theorem rolling_update_completes_witness:
  "\<exists>qs t. reconcile_rounds sample_host sample_evolve ''img'' ''ns'' ''df'' 2
       [sample_master, sample_replica] (sample_df PhaseReady) (sample_state PhaseReady) = Some (qs, t) \<and>
     outdated ''r2'' qs = [] \<and> map podName qs = [''df-0'', ''df-1''] \<and> (\<exists>j. roles_at j qs) \<and>
     length (deletions (history t)) \<le> 1 \<and> statusPhase (dfStatus (df t)) = PhaseReady"
proof -
  let ?ps = "[sample_master, sample_replica]"
  have one: "length (outdated ''r2'' ?ps) = 1" by (simp add: outdated_def sample_pods pod_simps)
  then have due: "update_due ''r2'' ?ps (dfStatus (sample_df PhaseReady))"
    by (auto simp: update_due_def phase_ready_def sample_df_def)
  have alive: "dfDeletionTimestamp (sample_df PhaseReady) = None" by (simp add: sample_df_def)
  obtain objs where gen: "GenerateDragonflyResources (sample_df PhaseReady) ''img'' = Inr objs"
    using sample_generated by blast
  obtain qs t cs where "reconcile_rounds sample_host sample_evolve ''img'' ''ns'' ''df''
       (Suc (length (outdated ''r2'' ?ps))) ?ps (sample_df PhaseReady) (sample_state PhaseReady) = Some (qs, t)"
    "outdated ''r2'' qs = []" "map podName qs = map podName ?ps" "\<exists>j. roles_at j qs"
    "history t = history (sample_state PhaseReady) @ cs" "length (deletions cs) \<le> length (outdated ''r2'' ?ps)"
    "statusPhase (dfStatus (df t)) = PhaseReady"
    using rolling_update_completes [OF sample_hosts sample_evolves gen alive sample_rollable due] by blast
  moreover have "map podName ?ps = [''df-0'', ''df-1'']" and "history (sample_state PhaseReady) = []"
    by (simp_all add: sample_pods sample_state_def)
  ultimately show ?thesis
    unfolding one by (simp add: numeral_2_eq_2 del: reconcile_rounds.simps)
qed

end
