(* ===== verification/Election_Liveness.thy ===== *)
theory Election_Liveness
  imports Cooperation Pod_Lifecycle
begin

section \<open>An election succeeds when the cluster cooperates\<close>

text \<open>
  In a cluster that cooperates a reconciliation of the pod lifecycle controller that finds no
  master returns without an error, and by then the best candidate is the master, the phase is
  \<^verbatim>\<open>Ready\<close> and every other ready pod follows it.
\<close>

text \<open>The listings of an instance without a labelled master.\<close>

definition lists_masterless :: "env \<Rightarrow> dragonfly \<Rightarrow> pod list \<Rightarrow> bool" where
  "lists_masterless E d ps \<longleftrightarrow>
     (\<forall>h. envListPods E h (dfNamespace d) (instance_labels d) = Inr ps \<and>
          envListPods E h (dfNamespace d) (instance_labels d @ [(RoleLabelKey, Master)]) = Inr [])"

lemma achieves_getPods:
  "lists_masterless E d ps \<Longrightarrow> achieves d (getPods E) (\<lambda>x cs e. x = ps \<and> e = d)"
  unfolding getPods_def list_pods_def
  by (intro achieves_get_df achieves_perform) (simp add: lists_masterless_def)

subsection \<open>Configuring the elected master\<close>

definition settled_election ::
  "(string \<Rightarrow> string) \<Rightarrow> pod list \<Rightarrow> pod \<Rightarrow> call list \<Rightarrow> bool" where
  "settled_election report ps m cs \<longleftrightarrow> leads m cs \<and>
     (\<forall>p\<in>set ps. podName p \<noteq> podName m \<and> pod_ready report p \<longrightarrow> follows (sanitizeIp (podIP m)) p cs)"

lemma settled_election_append:
  "settled_election report ps m cs \<Longrightarrow> settled_election report ps m (as @ cs @ bs)"
  by (auto simp: settled_election_def intro!: leads_append follows_append)

text \<open>The only labels such an election writes: the leader's is master, any other's is replica.\<close>

definition elect_call :: "string \<Rightarrow> call \<Rightarrow> bool" where
  "elect_call n c \<longleftrightarrow> (case c of
      Patch_pod old new r \<Rightarrow>
        go_lookup (podLabels new) RoleLabelKey = Some (if podName old = n then Master else Replica)
    | Delete_pod _ _ \<Rightarrow> False
    | _ \<Rightarrow> True)"

interpretation electing: attaching_trace "elect_call n" n for n
  by unfold_locales (simp_all add: elect_call_def is_change_def split: call.splits)

text \<open>One step of a program that achieves something by such calls only.\<close>

lemma electing_step:
  assumes "achieves d m U" and "keeps (guarded (emits (list_all (elect_call n)))) m"
    and "\<And>x cs e. U x cs e \<Longrightarrow> achieves e (k x) (\<lambda>y ds e'. Q y (cs @ ds) e' \<and> list_all (elect_call n) ds)"
  shows "achieves d (bnd m k) (\<lambda>y ds e'. Q y ds e' \<and> list_all (elect_call n) ds)"
  by (rule achieves_bnd [OF achieves_emits [OF assms(1,2)]])
    (use assms(3) in \<open>auto intro: achieves_weaken\<close>)

lemma replicaOfNoOne_elects: "keeps (guarded (emits (list_all (elect_call (podName m))))) (replicaOfNoOne E m)"
  unfolding replicaOfNoOne_def patch_marked_def patch_pod_def
  by (intro electing.client_intro keeps_intro electing.call_kept) (simp add: elect_call_def mark_master_labels)

lemma configure_other_elects:
  "podName m' = n \<Longrightarrow> keeps (guarded (emits (list_all (elect_call n)))) (configure_other_pod E m' p)"
  unfolding configure_other_pod_def configureReplica_def stable_or_false_def
  by (rule keeps_if, intro keeps_intro, intro keeps_intro electing.replicaOf_kept) simp

lemma achieves_configureReplication:
  assumes coop: "cooperative E report repl" and lists: "lists_masterless E d ps"
    and labels: "\<forall>p\<in>set ps. podLabels p \<noteq> Nil_map" and m: "podLabels m \<noteq> Nil_map"
  shows "achieves d (configureReplication E m) (\<lambda>x cs e.
    (statusPhase (dfStatus e) = PhaseReady \<and> settled_election report ps m cs) \<and>
    list_all (elect_call (podName m)) cs)"
proof -
  have others: "achieves e (for_each (configure_other_pod E m') ps)
      (\<lambda>x cs e'. (statusPhase (dfStatus e') = PhaseReady \<and> settled_election report ps m (as @ cs)) \<and>
        list_all (elect_call (podName m)) cs)"
    if "podName m' = podName m" "podIP m' = podIP m" "statusPhase (dfStatus e) = PhaseReady" "leads m as"
    for e m' as
    by (rule achieves_emits, rule achieves_weaken [OF achieves_others [OF coop labels, where master = m']])
      (use that leads_append [of m as "[]"] in
        \<open>auto simp: settled_election_def intro: follows_behind intro!: electing.guard.for_each_ok configure_other_elects\<close>)
  have gated: "achieves e (if g then patchReplicationReadyCondition E m' True else ret m')
      (\<lambda>x cs e'. e' = e \<and> podName x = podName m' \<and> podIP x = podIP m')" for e g m'
    by (auto intro: achieves_condition [OF coop] achieves_ret)
  show ?thesis
    unfolding configureReplication_def
    by (rule electing_step [OF achieves_getPods [OF lists]], intro keeps_intro, elim conjE, hypsubst,
        rule achieves_status,
        rule electing_step [OF achieves_patchStatus [OF coop]], intro keeps_intro,
        rule electing_step [OF achieves_replicaOfNoOne [OF coop m] replicaOfNoOne_elects], elim conjE, hypsubst,
        rule electing_step [OF achieves_patchStatus [OF coop]], intro keeps_intro,
        rule electing_step [OF achieves_recorded], intro keeps_intro, hypsubst,
        rule electing_step [OF achieves_gate], intro keeps_intro, hypsubst,
        rule electing_step [OF gated], intro keeps_intro, elim conjE, hypsubst,
        simp only: append_assoc [symmetric], rule others)
      (auto intro: leads_around)
qed

subsection \<open>The election\<close>

lemma achieves_candidate_ready:
  assumes "cooperative E report repl"
  shows "achieves d (candidate_ready E p) (\<lambda>x cs e. x = pod_ready report p \<and> e = d)"
proof -
  have "achieves d (attempt (isPodReady E p)) (\<lambda>x cs e. x = Inr (pod_ready report p) \<and> e = d)"
    by (rule achieves_attempt, rule achieves_weaken [OF achieves_isPodReady [OF assms]]) simp
  then show ?thesis
    unfolding candidate_ready_def by (rule achieves_bnd) (simp add: achieves_ret)
qed

definition candidates :: "(string \<Rightarrow> string) \<Rightarrow> (string \<Rightarrow> string) \<Rightarrow> pod list \<Rightarrow> master_candidate list" where
  "candidates report repl ps = map (candidate_of repl) (filter (pod_ready report) ps)"

lemma achieves_collect:
  assumes coop: "cooperative E report repl"
  shows "achieves d (collect_candidates (candidate_ready E) (getMasterCandidate E) ps)
    (\<lambda>x cs e. x = candidates report repl ps \<and> e = d)"
proof (induction ps)
  case Nil
  show ?case by (simp add: candidates_def achieves_ret)
next
  case (Cons p ps)
  show ?case
    unfolding collect_candidates.simps
  proof (rule achieves_bnd [OF achieves_candidate_ready [OF coop]], elim conjE, hypsubst)
    fix cs :: "call list"
    show "achieves d (if \<not> pod_ready report p then collect_candidates (candidate_ready E) (getMasterCandidate E) ps
        else bnd (getMasterCandidate E p) (\<lambda>c.
          bnd (collect_candidates (candidate_ready E) (getMasterCandidate E) ps) (\<lambda>cs. ret (c # cs))))
        (\<lambda>y ds e. y = candidates report repl (p # ps) \<and> e = d)"
    proof (cases "pod_ready report p")
      case True
      have "achieves d (bnd (collect_candidates (candidate_ready E) (getMasterCandidate E) ps)
          (\<lambda>cs. ret (candidate_of repl p # cs))) (\<lambda>y ds e. y = candidates report repl (p # ps) \<and> e = d)"
        by (rule achieves_bnd [OF Cons.IH]) (use True in \<open>simp add: candidates_def achieves_ret\<close>)
      with True show ?thesis by (auto intro: achieves_bnd [OF achieves_candidate [OF coop]])
    next
      case False
      with Cons.IH show ?thesis by (simp add: candidates_def)
    qed
  qed
qed

lemma achieves_select:
  assumes "cooperative E report repl"
  shows "achieves d (selectMasterCandidate ps (candidate_ready E) (getMasterCandidate E))
    (\<lambda>x cs e. x = map_option mcPod (elect (candidates report repl ps)) \<and> e = d)"
  unfolding selectMasterCandidate_collect
  by (rule achieves_bnd [OF achieves_collect [OF assms]]) (simp add: achieves_ret)

lemma no_master_found:
  assumes "lists_masterless E d ps" and "\<not> rolling (dfStatus d)"
  shows "achieves d (attempt (getMaster E)) (\<lambda>x cs e. x = Inl ErrNoMaster \<and> e = d)"
  using assms unfolding achieves_def
  by (auto simp: getMaster_def list_masters_def lists_masterless_def run_simps list_pods_def perform_def
      Let_def clients_ok_def)

lemma elected_pod:
  "elect (candidates report repl ps) = Some c \<Longrightarrow> mcPod c \<in> set ps \<and> pod_ready report (mcPod c)"
  using elect_in [of "candidates report repl ps" c] by (auto simp: candidates_def candidate_of_def)

text \<open>The queries before the election write no label at all.\<close>

lemma candidate_ready_elects [keeps_intro]: "keeps (guarded (emits (list_all (elect_call n)))) (candidate_ready E p)"
  unfolding candidate_ready_def by (intro keeps_intro)

lemma select_elects:
  "keeps (guarded (emits (list_all (elect_call n)))) (selectMasterCandidate ps (candidate_ready E) (getMasterCandidate E))"
  by (intro keeps_intro)

definition elected_by ::
  "(string \<Rightarrow> string) \<Rightarrow> pod list \<Rightarrow> pod \<Rightarrow> call list \<Rightarrow> dragonfly \<Rightarrow> bool" where
  "elected_by report ps m cs e \<longleftrightarrow> statusPhase (dfStatus e) = PhaseReady \<and> settled_election report ps m cs"

lemma elected_by_append: "elected_by report ps m cs e \<Longrightarrow> elected_by report ps m (as @ cs @ bs) e"
  by (simp add: elected_by_def settled_election_append)

lemma elected_by_behind: "elected_by report ps m cs e \<Longrightarrow> elected_by report ps m (as @ cs) e"
  using elected_by_append [of report ps m cs e as "[]"] by simp

lemma achieves_elect_master:
  assumes coop: "cooperative E report repl" and lists: "lists_masterless E d ps"
    and labels: "\<forall>p\<in>set ps. podLabels p \<noteq> Nil_map" and elected: "elect (candidates report repl ps) = Some c"
  shows "achieves d (elect_master E ready ErrNoMaster) (\<lambda>x cs e.
    elected_by report ps (mcPod c) cs e \<and> list_all (elect_call (podName (mcPod c))) cs)"
proof -
  let ?n = "podName (mcPod c)"
  have m: "podLabels (mcPod c) \<noteq> Nil_map" using labels elected_pod [OF elected] by blast
  have configured: "achieves d (attempt (configureReplication E (mcPod c))) (\<lambda>x cs e. x = Inr () \<and>
      elected_by report ps (mcPod c) cs e \<and> list_all (elect_call ?n) cs)"
    by (rule achieves_attempt, rule achieves_weaken [OF achieves_configureReplication [OF coop lists labels m]])
      (simp add: elected_by_def)
  have event: "achieves e (record_event a b t) (\<lambda>x cs e'. e' = e \<and> list_all (elect_call ?n) cs)" for e a b t
    by (rule achieves_event) (simp add: elect_call_def)
  have promote: "achieves d (promote_candidate E ready (mcPod c)) (\<lambda>x cs e.
      elected_by report ps (mcPod c) (as @ cs) e \<and> list_all (elect_call ?n) cs)" for as
    unfolding promote_candidate_def
    by (rule achieves_bnd [OF configured])
      (auto intro!: achieves_bnd [OF event] achieves_ret elected_by_append)
  show ?thesis
    unfolding elect_master_def only_if_def
    by (simp, rule electing_step, rule achieves_wrap, rule achieves_getPods [OF lists], intro keeps_intro,
        elim conjE, hypsubst, rule electing_step [OF achieves_select [OF coop] select_elects])
      (use promote [of "_ @ _"] in \<open>simp add: elected\<close>)
qed

text \<open>The reconciliation after the pod and the custom resource are read.\<close>

lemma achieves_reconcile_pod:
  assumes coop: "cooperative E report repl" and lists: "lists_masterless E d ps" and "\<not> rolling (dfStatus d)"
    and labels: "\<forall>q\<in>set ps. podLabels q \<noteq> Nil_map" and elected: "elect (candidates report repl ps) = Some c"
  shows "achieves d (reconcile_pod E p) (\<lambda>x cs e.
    elected_by report ps (mcPod c) cs e \<and> list_all (elect_call (podName (mcPod c))) cs)"
proof -
  have elect: "achieves d (elect_master E ready ErrNoMaster) (\<lambda>x cs e.
      elected_by report ps (mcPod c) (as @ cs) e \<and> list_all (elect_call (podName (mcPod c))) cs)" for ready as
    by (rule achieves_weaken [OF achieves_elect_master [OF coop lists labels elected]]) (simp add: elected_by_behind)
  show ?thesis
    unfolding reconcile_pod_def
    by (rule electing_step, rule achieves_wrap, rule achieves_isPodReady [OF coop], intro keeps_intro,
        elim conjE, hypsubst, rule electing_step [OF no_master_found [OF lists assms(3)]], intro keeps_intro,
        elim conjE, hypsubst)
      (use elect in \<open>simp add: isMasterError_def append_assoc [symmetric] del: append_assoc\<close>)
qed

subsection \<open>The labels afterwards\<close>

lemma elected_role:
  assumes "list_all (elect_call n) cs"
  shows "role_after cs k role \<in> {role, Some (if k = n then Master else Replica)}"
  using assms
proof (induction cs arbitrary: role)
  case (Cons c cs)
  define new where "new = (case c of
      Patch_pod old new (Inr r) \<Rightarrow> if podName old = k then go_lookup (podLabels new) RoleLabelKey else role
    | _ \<Rightarrow> role)"
  have "elect_call n c" and "list_all (elect_call n) cs" using Cons.prems by simp_all
  then have "new \<in> {role, Some (if k = n then Master else Replica)}"
    by (cases c) (auto simp: new_def elect_call_def split: sum.split)
  moreover have "role_after cs k new \<in> {new, Some (if k = n then Master else Replica)}"
    using \<open>list_all (elect_call n) cs\<close> by (rule Cons.IH)
  ultimately show ?case by (auto simp: new_def [symmetric] split: if_splits)
qed simp

lemma labelled_role:
  assumes "list_all (elect_call n) cs"
    and "list_ex (\<lambda>c. case c of Patch_pod old new (Inr r) \<Rightarrow> podName old = k | _ \<Rightarrow> False) cs"
  shows "role_after cs k role = Some (if k = n then Master else Replica)"
  using assms
proof (induction cs arbitrary: role)
  case (Cons c cs)
  show ?case
  proof (cases "case c of Patch_pod old new (Inr r) \<Rightarrow> podName old = k | _ \<Rightarrow> False")
    case True
    then obtain old new r where "c = Patch_pod old new (Inr r)" "podName old = k"
      by (cases c) (auto split: sum.splits)
    moreover have "elect_call n c" and cs: "list_all (elect_call n) cs" using Cons.prems(1) by simp_all
    moreover have "role_after cs k (Some (if k = n then Master else Replica))
        = Some (if k = n then Master else Replica)" using elected_role [OF cs] by blast
    ultimately show ?thesis by (simp add: elect_call_def)
  next
    case False
    with Cons show ?thesis by simp
  qed
qed simp

lemma in_order_ex: "in_order c P cs \<Longrightarrow> list_ex P cs"
  by (induction cs) auto

lemma list_ex_weaken: "list_ex P cs \<Longrightarrow> (\<And>c. P c \<Longrightarrow> P' c) \<Longrightarrow> list_ex P' cs"
  by (auto simp: list_ex_iff)

lemma followed_role:
  assumes "follows ip p cs" and "list_all (elect_call n) cs" and "podName p \<noteq> n"
  shows "role_after cs (podName p) role = Some Replica"
proof -
  have "list_ex (\<lambda>c. case c of Patch_pod old new (Inr r) \<Rightarrow> podName old = podName p | _ \<Rightarrow> False) cs"
    using assms(1) unfolding follows_def by (rule list_ex_weaken [OF in_order_ex]) (auto split: call.splits sum.splits)
  from labelled_role [OF assms(2) this] assms(3) show ?thesis by simp
qed

lemma elected_labels:
  assumes "settled_election report ps m cs" and "list_all (elect_call (podName m)) cs"
  shows "role_after cs (podName m) role = Some Master"
    and "p \<in> set ps \<Longrightarrow> podName p \<noteq> podName m \<Longrightarrow> pod_ready report p \<Longrightarrow>
      role_after cs (podName p) role = Some Replica"
proof -
  have "leads m cs" using assms(1) by (simp add: settled_election_def)
  then have "list_ex (\<lambda>c. case c of Patch_pod old new (Inr r) \<Rightarrow> podName old = podName m | _ \<Rightarrow> False) cs"
    unfolding leads_def by (rule list_ex_weaken [OF in_order_ex]) (auto split: call.splits sum.splits)
  from labelled_role [OF assms(2) this] show "role_after cs (podName m) role = Some Master" by simp
qed (use assms in \<open>auto simp: settled_election_def intro: followed_role\<close>)

text \<open>The calls of \<^verbatim>\<open>Reconcile\<close> before \<open>reconcile_pod\<close>.\<close>

definition first_calls :: "string \<Rightarrow> string \<Rightarrow> pod \<Rightarrow> string \<Rightarrow> dragonfly \<Rightarrow> call list" where
  "first_calls ns name p instance_name d =
     [Get_pod ns name (Inr p), Get_dragonfly (podNamespace p) instance_name (Inr d)]"

lemma PodReconcile_reaches:
  assumes "\<And>h. envGetPod E h ns name = Inr p" and "go_lookup (podLabels p) DragonflyNameLabelKey = Some instance_name"
    and "\<And>h. envGetDragonfly E h (podNamespace p) instance_name = Inr d"
  obtains s' cs where "PodReconcile E ns name s = closing (reconcile_pod E p) s'" and "clients_ok s'"
    and "df s' = d" and "history s' = history s @ cs" and "cs = first_calls ns name p instance_name d"
proof -
  have "getDragonflyName p = ret instance_name"
    using assms(2) by (simp add: getDragonflyName_def)
  then have "PodReconcile E ns name s = closing (reconcile_pod E p)
      (s\<lparr>history := history s @ first_calls ns name p instance_name d, redisClients := Nil_map, df := d\<rparr>)"
    using assms(1,3)
    by (simp add: PodReconcile_def instance_read run_simps get_pod_def perform_def first_calls_def)
  then show thesis by (rule that) (simp_all add: clients_ok_def)
qed

subsection \<open>Property\<close>

text \<open>C14: An election succeeds: when no pod is labelled as master outside a rolling update, some pod is
  ready, and the cluster accepts commands and patches, one reconciliation of any pod of the instance
  returns without an error. It has promoted the best candidate and then patched the role master onto
  it, and it has made every other ready pod follow the address of the new master and then patched the
  role replica and that address onto it; no later patch of the reconciliation takes a role back, and
  it leaves the phase Ready.\<close>

theorem election_succeeds:
  assumes "cooperative E report repl" and "lists_masterless E d ps"
    and "\<not> rolling (dfStatus d)" and "\<forall>q\<in>set ps. podLabels q \<noteq> Nil_map"
    and "\<exists>q\<in>set ps. pod_ready report q"
    and "\<And>h. envGetPod E h ns name = Inr p" and "go_lookup (podLabels p) DragonflyNameLabelKey = Some instance_name"
    and "\<And>h. envGetDragonfly E h (podNamespace p) instance_name = Inr d"
  shows "\<exists>c res t cs. elect (candidates report repl ps) = Some c \<and>
    PodReconcile E ns name s = (Ok res, t) \<and> history t = history s @ cs \<and>
    settled_election report ps (mcPod c) cs \<and>
    (\<forall>role. role_after cs (podName (mcPod c)) role = Some Master) \<and>
    (\<forall>q\<in>set ps. \<forall>role. podName q \<noteq> podName (mcPod c) \<and> pod_ready report q \<longrightarrow>
      role_after cs (podName q) role = Some Replica) \<and>
    statusPhase (dfStatus (df t)) = PhaseReady"
proof -
  have "candidates report repl ps \<noteq> []"
    using assms(5) by (auto simp: candidates_def filter_empty_conv)
  then obtain c where c: "elect (candidates report repl ps) = Some c"
    by (metis elect_None_iff not_None_eq)
  obtain s' as where s': "PodReconcile E ns name s = closing (reconcile_pod E p) s'" "clients_ok s'"
    "df s' = d" "history s' = history s @ as" "as = first_calls ns name p instance_name d"
    using assms(6-8) by (rule PodReconcile_reaches)
  obtain x t cs where run: "reconcile_pod E p s' = (Ok x, t)" "history t = history s' @ cs"
    "statusPhase (dfStatus (df t)) = PhaseReady" "settled_election report ps (mcPod c) cs"
    "list_all (elect_call (podName (mcPod c))) cs"
    using achieves_reconcile_pod [OF assms(1-4) c] s'(2,3) unfolding elected_by_def by (rule achievesD) blast
  have "closing (reconcile_pod E p) s' = (Ok x, t\<lparr>redisClients := Nil_map\<rparr>)" using run(1) by (rule closing_run)
  moreover have "settled_election report ps (mcPod c) (as @ cs)"
    using settled_election_append [OF run(4), of as "[]"] by simp
  moreover have "list_all (elect_call (podName (mcPod c))) (as @ cs)"
    using run(5) by (simp add: s'(5) first_calls_def elect_call_def)
  ultimately show ?thesis
    using run(2,3) s'(1,4) c elected_labels [of report ps "mcPod c" "as @ cs"] by auto
qed

subsection \<open>Witness\<close>

text \<open>Two replicas that lost their master; one of them reports an offset.\<close>

definition sample_orphan :: pod where
  "sample_orphan = sample_pod ''df-0'' ''10.0.0.1'' Replica ''r1''"

abbreviation sample_orphans :: "pod list" where
  "sample_orphans \<equiv> [sample_orphan, sample_replica]"

lemma sample_masterless: "lists_masterless (sample_env sample_orphans) (sample_df PhaseReady) sample_orphans"
  by (simp add: lists_masterless_def sample_listed_def instance_labels_def sample_pods sample_df_def
      sample_orphan_def)

lemma sample_orphans_ready: "pod_ready sample_report sample_orphan" "pod_ready sample_report sample_replica"
  using sample_loaded
  by (simp_all add: pod_ready_def sample_orphan_def sample_pods pod_simps isRunningAndReady_def isReady_def
      isDragonflyContainerReady_def isTerminating_def)

lemma sample_digits: "nat_digits 9999 = ''9999''"
  by (simp add: nat_digits.simps char_of_def bit_0)

lemma sample_offsets: "mcOffset (candidate_of sample_repl sample_orphan) = 0"
    "mcOffset (candidate_of sample_repl sample_replica) = 7"
proof -
  have "parseInfoToMap (sample_repl (admin_addr ''10.0.0.1'')) ''slave_repl_offset'' = None"
    by (simp add: newRedisClient_def join_host_port_def itoa_def sample_digits sample_info_def parseInfoToMap_def
        parse_info_line_def Let_def trim_space_def trim_by_def is_space_def has_prefix_def trim_suffix_def
        split_n2_def)
  then show "mcOffset (candidate_of sample_repl sample_orphan) = 0"
    by (simp add: candidate_of_def sample_orphan_def sample_pods)
  have "parseInfoToMap (sample_repl (admin_addr ''10.0.0.2'')) ''slave_repl_offset'' = Some ''7''"
    by (simp add: newRedisClient_def join_host_port_def itoa_def sample_digits sample_info_def parseInfoToMap_def
        parse_info_line_def Let_def trim_space_def trim_by_def is_space_def has_prefix_def trim_suffix_def
        split_n2_def)
  moreover have "parse_int64 ''7'' = Some 7" by code_simp
  ultimately show "mcOffset (candidate_of sample_repl sample_replica) = 7"
    by (simp add: candidate_of_def sample_pods)
qed

lemma sample_both_replicas: "mcIsReplica (candidate_of sample_repl sample_orphan)"
    "mcIsReplica (candidate_of sample_repl sample_replica)"
  by (simp_all add: candidate_of_def sample_orphan_def sample_pods pod_simps)

theorem election_succeeds_witness:
  "\<exists>res t. PodReconcile (sample_env sample_orphans) ''ns'' ''df-1'' (sample_state PhaseReady) = (Ok res, t) \<and>
     settled_election sample_report sample_orphans sample_replica (history t) \<and>
     role_after (history t) ''df-1'' None = Some Master \<and>
     role_after (history t) ''df-0'' None = Some Replica \<and> statusPhase (dfStatus (df t)) = PhaseReady"
proof -
  have elected: "elect (candidates sample_report sample_repl sample_orphans) = Some (candidate_of sample_repl sample_replica)"
    using sample_offsets sample_both_replicas
    by (simp add: candidates_def sample_orphans_ready elect_def rank_of_def less_eq_rank_def)
  have names: "podName sample_replica = ''df-1''" "podName sample_orphan = ''df-0''"
    by (simp_all add: sample_pods sample_orphan_def)
  have "\<exists>c res t cs. elect (candidates sample_report sample_repl sample_orphans) = Some c \<and>
    PodReconcile (sample_env sample_orphans) ''ns'' ''df-1'' (sample_state PhaseReady) = (Ok res, t) \<and>
    history t = history (sample_state PhaseReady) @ cs \<and>
    settled_election sample_report sample_orphans (mcPod c) cs \<and>
    (\<forall>role. role_after cs (podName (mcPod c)) role = Some Master) \<and>
    (\<forall>q\<in>set sample_orphans. \<forall>role. podName q \<noteq> podName (mcPod c) \<and> pod_ready sample_report q \<longrightarrow>
      role_after cs (podName q) role = Some Replica) \<and>
    statusPhase (dfStatus (df t)) = PhaseReady"
    by (rule election_succeeds [OF sample_cooperates sample_masterless, where p = sample_replica and instance_name = "''df''"])
      (simp_all add: sample_orphans_ready, simp_all add: sample_defs sample_orphan_def rolling_def)
  moreover have "mcPod (candidate_of sample_repl sample_replica) = sample_replica" by (simp add: candidate_of_def)
  moreover have "history (sample_state PhaseReady) = []" by (simp add: sample_state_def)
  ultimately show ?thesis using elected by (auto simp: names sample_orphans_ready)
qed

end
