(* ===== verification/Joining_Liveness.thy ===== *)
theory Joining_Liveness
  imports Election_Liveness
begin

section \<open>A new pod joins when the cluster cooperates\<close>

text \<open>
  A pod that the StatefulSet controller created has no role yet. In a cluster that cooperates,
  with a usable master that the data store confirms, one reconciliation of such a pod attaches
  it as a replica, during a rolling update too. This is what the theorem on rolling
  updates asks of the pod lifecycle controller between two rounds.
\<close>

lemma achieves_getMaster_spec:
  assumes "cooperative E report repl" and "lists_masters E d updated masters"
    and "the_master report (considered (dfStatus d) updated masters) = Ok m"
  shows "achieves d (getMaster E) (\<lambda>x cs e. x = m \<and> e = d)"
proof (rule achievesI)
  fix s
  assume s: "clients_ok s" "df s = d"
  obtain u where "list_masters E s = (Ok (considered (dfStatus d) updated masters), u)" "clients_ok u"
    using list_masters_run [OF s(1)] assms(2) s(2) by blast
  from getMaster_of_listed [OF this cooperativeD(1) [OF assms(1)]] assms(3)
  obtain t where run: "getMaster E s = (Ok m, t)" by (metis prod.collapse)
  have "keeps (guarded (emits (list_all (\<lambda>c. \<not> is_change c)))) (getMaster E)" by (intro keeps_intro)
  from guardedD [OF this s(1) run] guardedD [OF same_df.getMaster_ok s(1) run] s(2) run
  show "\<exists>x t cs. getMaster E s = (Ok x, t) \<and> clients_ok t \<and> history t = history s @ cs \<and> x = m \<and> df t = d"
    by (auto simp: emits_def same_df_def)
qed

lemma achieves_role:
  assumes "cooperative E report repl" and "podIP m \<noteq> ''''"
    and "redis_role (repl (admin_addr (podIP m))) = Some r"
  shows "achieves d (attempt (getRedisRole E m)) (\<lambda>x cs e. x = Inr r \<and> e = d)"
proof -
  have info: "achieves d (redis E (newRedisClient (podIP m)) (Info ''replication''))
      (\<lambda>x cs e. x = repl (admin_addr (podIP m)) \<and> e = d)"
    unfolding redis_def by (rule achieves_perform) (simp add: cooperativeD(2) [OF assms(1)])
  show ?thesis
    unfolding getRedisRole_def using assms(2,3)
    by (auto intro!: achieves_attempt achieves_client achieves_bnd [OF info] achieves_ret)
qed

lemma achieves_gate_pod:
  assumes "cooperative E report repl"
  shows "achieves d (gate_pod E p) (\<lambda>x cs e. e = d)"
proof -
  have mark: "achieves d (wrap w (patchReplicationReadyCondition E p b)) (\<lambda>x cs e. e = d)" for w b
    by (rule achieves_wrap, rule achieves_weaken [OF achieves_condition [OF assms]]) simp
  show ?thesis
    unfolding gate_pod_def
    by (auto intro!: achieves_ret achieves_bnd [OF achieves_gate] achieves_bnd [OF mark]
        achieves_bnd [OF achieves_stable])
qed

lemma gate_pod_elects: "keeps (guarded (emits (list_all (elect_call n)))) (gate_pod E p)"
  unfolding gate_pod_def stable_or_false_def by (intro keeps_intro)

lemma follows_around: "follows ip p cs \<Longrightarrow> follows ip p (cs @ bs)" "follows ip p cs \<Longrightarrow> follows ip p (as @ cs)"
  using follows_append [of ip p cs "[]" bs] by (simp_all add: follows_behind)

lemma achieves_attach:
  assumes coop: "cooperative E report repl" and "podLabels p \<noteq> Nil_map" and "\<not> roleExists p"
    and "podName p \<noteq> n"
  shows "achieves d (attach_pod E m p) (\<lambda>x cs e. (isl x = False \<and> e = d \<and>
    follows (sanitizeIp (podIP m)) p cs) \<and> list_all (elect_call n) cs)"
proof -
  have attach: "achieves d (attempt (configureReplica E p (podIP m))) (\<lambda>x cs e. ((\<exists>q. x = Inr q) \<and> e = d \<and>
      follows (sanitizeIp (podIP m)) p cs) \<and> list_all (elect_call n) cs)"
    unfolding configureReplica_def
    by (rule achieves_emits, rule achieves_attempt, rule achieves_weaken [OF achieves_replicaOf [OF coop assms(2)]], simp,
        intro keeps_intro electing.replicaOf_kept assms(4))
  have event: "achieves d (record_event a b t) (\<lambda>x cs e. e = d \<and> list_all (elect_call n) cs)" for a b t
    by (rule achieves_event) (simp add: elect_call_def)
  show ?thesis
    unfolding attach_pod_def using assms(3)
    by (auto intro!: achieves_bnd [OF attach] achieves_bnd [OF event] achieves_ret intro: follows_around)
qed

lemma achieves_join:
  assumes coop: "cooperative E report repl" and lists: "lists_masters E d updated masters"
    and master: "the_master report (considered (dfStatus d) updated masters) = Ok m"
    and role: "podIP m \<noteq> ''''" "redis_role (repl (admin_addr (podIP m))) = Some Master"
    and p: "podLabels p \<noteq> Nil_map" "\<not> roleExists p" "pod_ready report p" "podName p \<noteq> podName m"
  shows "achieves d (reconcile_pod E p) (\<lambda>x cs e. (e = d \<and> follows (sanitizeIp (podIP m)) p cs) \<and>
    list_all (elect_call (podName m)) cs)"
proof -
  have found: "achieves d (attempt (getMaster E)) (\<lambda>x cs e. x = Inr m \<and> e = d)"
    by (rule achieves_attempt, rule achieves_weaken [OF achieves_getMaster_spec [OF coop lists master]]) simp
  have gate: "achieves d (gate_pod E q) (\<lambda>x cs e. e = d \<and> list_all (elect_call (podName m)) cs)" for q
    by (rule achieves_emits [OF achieves_gate_pod [OF coop] gate_pod_elects])
  have follow: "achieves d (follow_master E True m p) (\<lambda>x cs e. (e = d \<and> follows (sanitizeIp (podIP m)) p (as @ cs)) \<and>
      list_all (elect_call (podName m)) cs)" for as
    unfolding follow_master_def
    by (rule electing_step [OF achieves_role [OF coop role]], intro keeps_intro, elim conjE, hypsubst, simp)
      (rule achieves_bnd [OF achieves_attach [OF coop p(1,2,4)]],
        auto split: sum.split intro!: achieves_weaken [OF gate] intro: follows_around)
  show ?thesis
    unfolding reconcile_pod_def
    by (rule electing_step, rule achieves_wrap, rule achieves_isPodReady [OF coop], intro keeps_intro,
        elim conjE, hypsubst, rule electing_step [OF found], intro keeps_intro, elim conjE, hypsubst)
      (use follow p(3) in \<open>simp add: append_assoc [symmetric] del: append_assoc\<close>)
qed

subsection \<open>Property\<close>

text \<open>C15: A new pod joins: when a usable master is listed and its data store says it is one, and the
  cluster accepts commands and patches, one reconciliation of a ready pod without a role returns
  without an error. It has made the pod follow the address of the master in its data store and then
  patched the role replica and that address onto it, no later patch takes the role back, and the
  custom resource is left alone.\<close>

theorem new_pod_joins:
  assumes "cooperative E report repl" and "lists_masters E d updated masters"
    and "the_master report (considered (dfStatus d) updated masters) = Ok m"
    and "podIP m \<noteq> ''''" and "redis_role (repl (admin_addr (podIP m))) = Some Master"
    and "\<not> roleExists p" and "pod_ready report p" and "podName p \<noteq> podName m"
    and "\<And>h. envGetPod E h ns name = Inr p" and "go_lookup (podLabels p) DragonflyNameLabelKey = Some instance_name"
    and "\<And>h. envGetDragonfly E h (podNamespace p) instance_name = Inr d"
  shows "\<exists>res t cs. PodReconcile E ns name s = (Ok res, t) \<and> history t = history s @ cs \<and> df t = d \<and>
    follows (sanitizeIp (podIP m)) p cs \<and> (\<forall>role. role_after cs (podName p) role = Some Replica)"
proof -
  obtain s' as where s': "PodReconcile E ns name s = closing (reconcile_pod E p) s'" "clients_ok s'"
    "df s' = d" "history s' = history s @ as" "as = first_calls ns name p instance_name d"
    using assms(9-11) by (rule PodReconcile_reaches)
  have "podLabels p \<noteq> Nil_map" using assms(10) by auto
  from achieves_join [OF assms(1-5) this assms(6-8)] s'(2,3) obtain x t cs where
    run: "reconcile_pod E p s' = (Ok x, t)" "history t = history s' @ cs"
      "(df t = d \<and> follows (sanitizeIp (podIP m)) p cs) \<and> list_all (elect_call (podName m)) cs"
    by (rule achievesD)
  have f: "follows (sanitizeIp (podIP m)) p (as @ cs)" using run(3) by (simp add: follows_behind)
  have "list_all (elect_call (podName m)) (as @ cs)"
    using run(3) by (simp add: s'(5) first_calls_def elect_call_def)
  then have "role_after (as @ cs) (podName p) role = Some Replica" for role
    using followed_role [OF f _ assms(8)] by blast
  moreover have "closing (reconcile_pod E p) s' = (Ok x, t\<lparr>redisClients := Nil_map\<rparr>)"
    using run(1) by (rule closing_run)
  ultimately show ?thesis using run(2,3) s'(1,4) f by auto
qed

text \<open>In the sample cluster a pod without a role meets the master.\<close>

definition sample_newcomer :: pod where
  "sample_newcomer = sample_replica\<lparr>podLabels := Go_map ((go_lookup (podLabels sample_replica))(RoleLabelKey := None))\<rparr>"

theorem new_pod_joins_witness:
  "\<exists>res t. PodReconcile (sample_env [sample_master, sample_newcomer]) ''ns'' ''df-1'' (sample_state PhaseReady) = (Ok res, t) \<and>
     follows ''10.0.0.1'' sample_newcomer (history t) \<and> role_after (history t) ''df-1'' None = Some Replica"
proof -
  let ?E = "sample_env [sample_master, sample_newcomer]"
  have lists: "lists_masters ?E (sample_df PhaseReady) [] [sample_master]"
    by (simp add: lists_masters_def sample_listed_def instance_labels_def sample_pods sample_df_def
        sample_statefulset_def sample_newcomer_def)
  have master: "the_master sample_report (considered (dfStatus (sample_df PhaseReady)) [] [sample_master]) = Ok sample_master"
    by (simp add: considered_def sample_the_master)
  have "redis_role ''role:master'' = Some Master"
    by (simp add: redis_role_def line_field_def split_on.simps has_prefix_def trim_space_def trim_by_def is_space_def trim_chars_def)
  then have role: "redis_role (sample_repl (admin_addr (podIP sample_master))) = Some Master"
    by (simp add: sample_pods newRedisClient_def join_host_port_def itoa_def sample_digits sample_info_def)
  have p: "\<not> roleExists sample_newcomer" "podName sample_newcomer \<noteq> podName sample_master"
      "pod_ready sample_report sample_newcomer" "podIP sample_master \<noteq> ''''"
      "go_lookup (podLabels sample_newcomer) DragonflyNameLabelKey = Some ''df''"
    using sample_loaded
    by (simp_all add: sample_newcomer_def sample_pods pod_simps pod_ready_def isRunningAndReady_def isReady_def
        isDragonflyContainerReady_def isTerminating_def)
  have "envGetPod ?E h ''ns'' ''df-1'' = Inr sample_newcomer" for h
    by (simp add: sample_env_def sample_newcomer_def sample_pods)
  moreover have "envGetDragonfly ?E h (podNamespace sample_newcomer) ''df'' = Inr (sample_df PhaseReady)" for h
    by (simp add: sample_env_def)
  ultimately obtain res t cs where
    "PodReconcile ?E ''ns'' ''df-1'' (sample_state PhaseReady) = (Ok res, t)"
    "history t = history (sample_state PhaseReady) @ cs" "follows (sanitizeIp (podIP sample_master)) sample_newcomer cs"
    "\<forall>role. role_after cs (podName sample_newcomer) role = Some Replica"
    using new_pod_joins [OF sample_cooperates lists master p(4) role p(1,3,2), of "''ns''" "''df-1''" "''df''"
        "sample_state PhaseReady"] p(5) by blast
  moreover have "sanitizeIp (podIP sample_master) = ''10.0.0.1''" "podName sample_newcomer = ''df-1''"
    by (simp_all add: sample_newcomer_def sample_pods sanitizeIp_def trim_chars_def trim_by_def)
  ultimately show ?thesis by (auto simp: sample_state_def)
qed

end
