(* ===== verification/Phase_Safety.thy ===== *)
theory Phase_Safety
  imports Operator_Safety
begin

section \<open>The phase of an instance\<close>

text \<open>
  What a reconciliation reports in the status of the custom resource, and when. The pod
  lifecycle controller writes \<^verbatim>\<open>Ready\<close> only behind an accepted promotion. In return a promotion
  whose last status patch failed leaves \<^verbatim>\<open>Configuring\<close> behind, which no later step corrects as
  long as the master stays healthy.
\<close>

subsection \<open>Calls that leave the phase and the pods alone\<close>

definition steady_call :: "call \<Rightarrow> bool" where
  "steady_call c \<longleftrightarrow> (case c of
      Patch_dragonfly_status _ _ _ \<Rightarrow> False
    | Delete_pod _ _ \<Rightarrow> False
    | _ \<Rightarrow> True)"

interpretation steady: call_contract steady_call .

interpretation steady: all_roles_trace "list_all steady_call"
  by unfold_locales (simp_all add: steady_call_def)

subsection \<open>Ready is reported behind a promotion\<close>

definition promotion :: "call \<Rightarrow> bool" where
  "promotion c \<longleftrightarrow> (case c of
      Patch_pod _ new (Inr _) \<Rightarrow> go_lookup (podLabels new) RoleLabelKey = Some Master
    | _ \<Rightarrow> False)"

definition ready_justified :: "call list \<Rightarrow> call \<Rightarrow> bool" where
  "ready_justified before c \<longleftrightarrow> (case c of
      Patch_dragonfly_status _ new _ \<Rightarrow>
        statusPhase (dfStatus new) = PhaseReady \<longrightarrow> list_ex promotion before
    | _ \<Rightarrow> True)"

interpretation ready: causal ready_justified
  by unfold_locales (auto simp: ready_justified_def list_ex_append split: call.splits)

lemma steady_ready: "list_all steady_call cs \<Longrightarrow> caused ready_justified before cs"
proof (induction cs arbitrary: before)
  case (Cons c cs)
  then have "ready_justified before c"
    by (auto simp: steady_call_def ready_justified_def split: call.splits)
  with Cons show ?case by simp
qed simp

lemma emits_steady_ready:
  "keeps (guarded (emits (list_all steady_call))) m \<Longrightarrow> keeps (guarded (emits (caused ready_justified []))) m"
  unfolding keeps_def guarded_def emits_def by (metis steady_ready)

interpretation ready: all_roles_trace "caused ready_justified []"
  by unfold_locales (simp_all add: ready_justified_def)

text \<open>A run of \<^verbatim>\<open>replicaOfNoOne\<close> that returns has patched the role label.\<close>

lemma perform_OkD:
  "perform ask call_of s = (Ok x, t) \<Longrightarrow>
   ask (history s) = Inr x \<and> t = s\<lparr>history := history s @ [call_of (Inr x)]\<rparr>"
  by (cases "ask (history s)") (auto simp: perform_def)

lemma promotes_last:
  assumes "patch_pod E p q u = (Ok m, t)" and "mark_master p = Some q"
    and "\<exists>cs. history u = history s @ cs \<and> list_all steady_call cs"
  shows "\<exists>cs. history t = history s @ cs \<and> list_all steady_call cs \<and> list_ex promotion cs"
proof -
  from assms(1) have "history t = history u @ [Patch_pod p q (Inr m)]"
    by (auto simp: patch_pod_def dest!: perform_OkD)
  with assms(3) mark_master_labels(1) [OF assms(2)] show ?thesis
    by (force simp: promotion_def steady_call_def)
qed

lemma replicaOfNoOne_promotes:
  assumes "clients_ok s" and "replicaOfNoOne E p s = (Ok m, t)"
  shows "\<exists>cs. history t = history s @ cs \<and> list_all steady_call cs \<and> list_ex promotion cs"
proof -
  obtain r where r: "getRedisClient (podIP p) s = (Ok (newRedisClient (podIP p)), s\<lparr>redisClients := r\<rparr>)"
    using assms(1) by (rule getRedisClient_ok)
  from assms(2) show ?thesis
    by (auto simp: replicaOfNoOne_def r get_df_def ret_def fail_def panic_def redis_def patch_marked_def
        elim!: bnd_OkE dest!: map_error_OkD perform_OkD split: if_splits option.splits)
      (erule promotes_last; simp add: steady_call_def)+
qed

lemma patchStatus_emits:
  "patchStatus E st s = (r, t) \<Longrightarrow>
   \<exists>old res. history t = history s @ [Patch_dragonfly_status old (old\<lparr>dfStatus := st\<rparr>) res]"
  by (cases "envPatchDragonflyStatus E (history s) (df s) ((df s)\<lparr>dfStatus := st\<rparr>)")
    (auto simp: patchStatus_def patch_dragonfly_status_def run_simps perform_def)

lemma patchStatus_clients: "patchStatus E st s = (r, t) \<Longrightarrow> redisClients t = redisClients s"
  by (cases "envPatchDragonflyStatus E (history s) (df s) ((df s)\<lparr>dfStatus := st\<rparr>)")
    (auto simp: patchStatus_def patch_dragonfly_status_def run_simps perform_def)

lemma ready_status:
  assumes "statusPhase st \<noteq> PhaseReady"
  shows "keeps (guarded (emits (caused ready_justified []))) (patchStatus E st)"
proof (rule keepsI)
  fix s r t
  assume run: "patchStatus E st s = (r, t)"
  from patchStatus_emits [OF run] patchStatus_clients [OF run] assms
  show "guarded (emits (caused ready_justified [])) s t"
    by (auto simp: guarded_def emits_def ready_justified_def clients_ok_def)
qed

lemma ready_promoted:
  "keeps (guarded (emits (caused ready_justified []))) (bnd (replicaOfNoOne E p) (\<lambda>m.
     bnd (patchStatus E (st\<lparr>statusPhase := PhaseReady\<rparr>)) (\<lambda>_. ret m)))"
proof (rule keepsI)
  fix s r t
  assume run: "bnd (replicaOfNoOne E p) (\<lambda>m.
     bnd (patchStatus E (st\<lparr>statusPhase := PhaseReady\<rparr>)) (\<lambda>_. ret m)) s = (r, t)"
  show "guarded (emits (caused ready_justified [])) s t"
  proof (cases "clients_ok s")
    case ok: True
    obtain q u where u: "replicaOfNoOne E p s = (q, u)" by fastforce
    from guardedD [OF steady.replicaOfNoOne_kept ok u] obtain cs where
      "clients_ok u" and cs: "history u = history s @ cs" "list_all steady_call cs"
      by (auto simp: emits_def)
    show ?thesis
    proof (cases q)
      case (Ok m)
      obtain v w where v: "patchStatus E (st\<lparr>statusPhase := PhaseReady\<rparr>) u = (w, v)" by fastforce
      with run u Ok have t: "t = v"
        by (auto simp: run_simps split: result.splits)
      from replicaOfNoOne_promotes [OF ok, of E p m u] u Ok cs have "list_ex promotion cs" by auto
      with patchStatus_emits [OF v] patchStatus_clients [OF v] cs \<open>clients_ok u\<close> steady_ready [OF cs(2)]
      show ?thesis
        by (auto simp: t guarded_def emits_def caused_append ready_justified_def clients_ok_def list_ex_iff)
    qed (use run u cs \<open>clients_ok u\<close> steady_ready in \<open>auto simp: run_simps guarded_def emits_def\<close>)
  qed (simp add: guarded_def)
qed

interpretation ready: lifecycle_contract "emits (caused ready_justified [])"
  by unfold_locales (rule ready_status ready_promoted; simp)+

lemma ready_follows: "keeps (emits (caused ready_justified [])) (PodReconcile E ns name)"
  by (rule ready.PodReconcile_ok)
    (auto simp: get_pod_def get_dragonfly_def emits_def ready_justified_def intro!: ready.perform_ok)

subsection \<open>The Dragonfly controller in the phase Configuring\<close>








subsection \<open>What a reconciliation leaves behind\<close>

lemma closing_closes: "redisClients (snd (closing m s)) = Nil_map"
  by (cases "m s") (simp add: closing_def Close_def)

lemma run_closing:
  assumes "redisClients s = Nil_map" and "\<And>e u. redisClients u = redisClients s \<Longrightarrow> redisClients (snd (h e u)) = redisClients s"
  shows "redisClients (snd (bnd (attempt (getDragonflyInstance E ns n)) (\<lambda>got.
     case got of Inl e \<Rightarrow> h e | Inr _ \<Rightarrow> closing m) s)) = Nil_map"
  using assms
  by (cases "envGetDragonfly E (history s) ns n")
    (simp_all add: getDragonflyInstance_def run_simps get_dragonfly_def perform_def Close_def closing_closes)

lemma ignore_not_found_state: "snd (ignore_not_found e u) = u"
  by (simp add: ignore_not_found_def run_simps)

definition released :: "op_state \<Rightarrow> op_state \<Rightarrow> bool" where
  "released s t \<longleftrightarrow> (redisClients s = Nil_map \<longrightarrow> redisClients t = Nil_map)"

interpretation released: step_contract released
  by unfold_locales (simp_all add: released_def)

lemma released_instance: "keeps released (DragonflyReconcile E img ns name)"
  unfolding keeps_def released_def DragonflyReconcile_def
  by (auto intro!: run_closing simp: ignore_not_found_state)

lemma released_pod: "keeps released (PodReconcile E ns name)"
  unfolding keeps_def released_def
proof (intro allI impI)
  fix s :: op_state
  assume assms: "redisClients s = Nil_map"
  show "redisClients (snd (PodReconcile E ns name s)) = Nil_map"
  proof (cases "envGetPod E (history s) ns name")
    case (Inl e)
    with assms show ?thesis
      by (simp add: PodReconcile_def run_simps get_pod_def perform_def ignore_not_found_state)
  next
    case (Inr p)
    let ?u = "s\<lparr>history := history s @ [Get_pod ns name (Inr p)]\<rparr>"
    have closed: "redisClients (snd (bnd (attempt (getDragonflyInstance E (podNamespace p) n))
        (\<lambda>got. case got of Inl err \<Rightarrow> ignore_not_found (Wrapped ''failed to get dragonfly instance'' err)
         | Inr _ \<Rightarrow> closing (reconcile_pod E p)) ?u)) = Nil_map" for n
      by (rule run_closing) (simp_all add: assms ignore_not_found_state)
    from Inr show ?thesis
      by (cases "go_lookup (podLabels p) DragonflyNameLabelKey")
        (use closed assms in \<open>simp_all add: PodReconcile_def getDragonflyName_def run_simps get_pod_def perform_def\<close>)
  qed
qed

text \<open>An instance that is being deleted is left alone: the Dragonfly controller reads it, sends
  nothing else and asks for no further run.\<close>

lemma terminating_instance_untouched:
  assumes "envGetDragonfly E (history s) ns name = Inr d" and "dfDeletionTimestamp d = Some deleted_at"
  shows "\<exists>t. DragonflyReconcile E img ns name s = (Ok finished, t) \<and>
    history t = history s @ [Get_dragonfly ns name (Inr d)]"
  using assms
  by (simp add: DragonflyReconcile_def getDragonflyInstance_def run_simps get_dragonfly_def perform_def
      Close_def closing_def reconcile_instance_def isInstanceTerminating_def)

subsection \<open>Properties\<close>

text \<open>C8: The pod lifecycle controller reports the phase Ready only behind a promotion that went
  through: ahead of each status patch with that phase the same reconciliation patched a pod to
  the role label master, and the API server accepted it.\<close>

theorem ready_follows_promotion:
  "\<exists>cs. history (snd (PodReconcile E ns name s)) = history s @ cs \<and> caused ready_justified [] cs"
  using ready_follows [of E ns name] unfolding keeps_def emits_def by blast


subsection \<open>Witnesses\<close>


end
