(* ===== verification/Status_Machine.thy ===== *)
theory Status_Machine
  imports Phase_Safety
begin

section \<open>The status as a state machine\<close>

text \<open>
  Six places of the two controllers patch the status of the custom resource, each in its own
  corner of the code. Together they run one state machine, \<open>status_step\<close>. A trace is
  \<open>lawful\<close> when each of its status patches starts from the custom resource last seen in
  it (read, or answered to the patch before), changes the status only and makes a step of the
  machine; both
  reconcilers only make lawful traces.
\<close>

subsection \<open>The machine and its traces\<close>

inductive status_step :: "dragonfly_status \<Rightarrow> dragonfly_status \<Rightarrow> bool" where
  created: "statusPhase st = '''' \<Longrightarrow> status_step st (st\<lparr>statusPhase := PhaseResourcesCreated\<rparr>)"
| elected: "status_step st (st\<lparr>statusPhase := PhaseConfiguring\<rparr>)"
| configured: "statusPhase st = PhaseConfiguring \<Longrightarrow> status_step st (st\<lparr>statusPhase := PhaseReady\<rparr>)"
| master_lost: "phase_ready st \<Longrightarrow> status_step st (st\<lparr>statusPhase := PhaseNotReady\<rparr>)"
| outdated: "phase_ready st \<or> statusPhase st = PhaseNotReady \<Longrightarrow>
    status_step st (st\<lparr>statusPhase := PhaseRollingUpdate\<rparr>)"
| rolled_out: "rolling st \<Longrightarrow>
    status_step st (st\<lparr>statusPhase := PhaseReady, statusIsRollingUpdate := False\<rparr>)"

inductive_cases status_stepE: "status_step st st'"

text \<open>
  The argument is the custom resource last seen, if there is one. An API server that accepts a
  patch of the status and stores another status ends the obligation.
\<close>

fun lawful :: "dragonfly option \<Rightarrow> call list \<Rightarrow> bool" where
  "lawful seen [] = True"
| "lawful seen (Get_dragonfly ns n (Inl e) # cs) = lawful None cs"
| "lawful seen (Get_dragonfly ns n (Inr d) # cs) = lawful (Some d) cs"
| "lawful seen (Patch_dragonfly_status old new (Inl e) # cs) =
     (seen = Some old \<and> new = old\<lparr>dfStatus := dfStatus new\<rparr> \<and>
      status_step (dfStatus old) (dfStatus new) \<and> lawful None cs)"
| "lawful seen (Patch_dragonfly_status old new (Inr d) # cs) =
     (seen = Some old \<and> new = old\<lparr>dfStatus := dfStatus new\<rparr> \<and>
      status_step (dfStatus old) (dfStatus new) \<and>
      (dfStatus d = dfStatus new \<longrightarrow> lawful (Some d) cs))"
| "lawful seen (c # cs) = lawful seen cs"

subsection \<open>Methods that leave the status alone\<close>

definition quiet_call :: "call \<Rightarrow> bool" where
  "quiet_call c \<longleftrightarrow> (case c of
      Patch_dragonfly_status _ _ _ \<Rightarrow> False
    | Get_dragonfly _ _ _ \<Rightarrow> False
    | _ \<Rightarrow> True)"

lemma lawful_quiet: "quiet_call c \<Longrightarrow> lawful seen (c # cs) = lawful seen cs"
  by (cases c) (auto simp: quiet_call_def)

lemma lawful_quiet_append: "list_all quiet_call cs \<Longrightarrow> lawful seen (cs @ ds) = lawful seen ds"
  by (induction cs) (simp_all add: lawful_quiet)

lemma lawful_append_quiet: "list_all quiet_call ds \<Longrightarrow> lawful seen (cs @ ds) = lawful seen cs"
proof (induction seen cs rule: lawful.induct)
  case (1 seen)
  then show ?case using lawful_quiet_append [of ds seen "[]"] by simp
qed simp_all

definition quiet :: "op_state \<Rightarrow> op_state \<Rightarrow> bool" where
  "quiet s t \<longleftrightarrow> df t = df s \<and> (\<exists>cs. history t = history s @ cs \<and> list_all quiet_call cs)"

interpretation quiet: cached_contract quiet
proof unfold_locales
  show "quiet s u" if "quiet s t" and "quiet t u" for s t u
    using that by (force simp: quiet_def)
qed (simp_all add: quiet_def)

lemma quiet_perform: "(\<And>r. quiet_call (call_of r)) \<Longrightarrow> keeps (guarded quiet) (perform ask call_of)"
  by (rule guarded_perform) (simp add: keeps_def perform_def quiet_def)

lemma quiet_event [keeps_intro]: "keeps (guarded quiet) (record_event ty reason msg)"
  by (rule guarded_record_event) (simp add: keeps_def record_event_def quiet_def quiet_call_def)

lemma quiet_clock [keeps_intro]: "keeps (guarded quiet) (read_clock E)"
  by (rule guarded_read_clock) (simp add: keeps_def read_clock_def quiet_def quiet_call_def)

lemma quiet_calls [keeps_intro]:
  "keeps (guarded quiet) (redis E c cmd)" "keeps (guarded quiet) (redis_do E c args)"
  "keeps (guarded quiet) (get_pod E ns n)" "keeps (guarded quiet) (list_pods E ns sel)"
  "keeps (guarded quiet) (patch_pod E p q)" "keeps (guarded quiet) (patch_pod_status E p q)"
  "keeps (guarded quiet) (delete_pod E p)" "keeps (guarded quiet) (get_statefulset E ns n)"
  "keeps (guarded quiet) (get_object E x)" "keeps (guarded quiet) (create_object E x)"
  "keeps (guarded quiet) (patch_object E x y)" "keeps (guarded quiet) (delete_pdb E ns n)"
  by (simp_all add: call_defs quiet_perform quiet_call_def)

interpretation quiet: query_contract quiet
  by unfold_locales (rule quiet_calls)+

lemma quiet_disconnect [keeps_intro]: "keeps (guarded quiet) (disconnectClients E c)"
  unfolding disconnectClients_def disconnect_client_def by (intro keeps_intro)

lemma quiet_marked [keeps_intro]: "keeps (guarded quiet) (patch_marked E p q)"
  unfolding patch_marked_def by (intro keeps_intro)

lemma quiet_become_replica [keeps_intro]: "keeps (guarded quiet) (become_replica E c p m)"
  unfolding become_replica_def by (intro keeps_intro)

lemma quiet_replicaOf: "keeps (guarded quiet) (replicaOf E p ip)"
  unfolding replicaOf_def by (intro quiet.client_intro; intro keeps_intro)

lemma quiet_replicaOfNoOne: "keeps (guarded quiet) (replicaOfNoOne E p)"
  unfolding replicaOfNoOne_def by (intro quiet.client_intro; intro keeps_intro)

lemma quiet_replTakeover: "keeps (guarded quiet) (replTakeover E new old)"
  unfolding replTakeover_def by (intro quiet.client_intro; intro keeps_intro)

interpretation quiet: rollout_steps quiet urev for urev
  by unfold_locales
    (rule quiet_replicaOf quiet_replicaOfNoOne quiet_replTakeover quiet_calls quiet_clock quiet_event)+

interpretation quiet: object_contract quiet
  by unfold_locales (rule quiet_calls)+


subsection \<open>Methods that patch the status\<close>

text \<open>A method that runs on the custom resource \<open>d\<close> makes a lawful trace.\<close>

definition lawful_from :: "dragonfly \<Rightarrow> 'a prog \<Rightarrow> bool" where
  "lawful_from d = keeps (\<lambda>s t. clients_ok s \<and> df s = d \<longrightarrow>
     clients_ok t \<and> (\<exists>cs. history t = history s @ cs \<and> lawful (Some d) cs))"

interpretation grows: all_calls_trace "\<lambda>_. True"
  by unfold_locales simp_all

lemma lawful_fromI:
  assumes "\<And>s r t. clients_ok s \<Longrightarrow> df s = d \<Longrightarrow> m s = (r, t) \<Longrightarrow>
    clients_ok t \<and> (\<exists>cs. history t = history s @ cs \<and> lawful (Some d) cs)"
  shows "lawful_from d m"
  unfolding lawful_from_def by (rule keepsI) (use assms in blast)

lemma lawful_fromD:
  assumes "lawful_from d m" and "clients_ok s" and "df s = d" and "m s = (r, t)"
  shows "clients_ok t \<and> (\<exists>cs. history t = history s @ cs \<and> lawful (Some d) cs)"
  using keepsD [OF assms(1) [unfolded lawful_from_def] assms(4)] assms(2,3) by blast

lemma lawful_quiet_prog: "keeps (guarded quiet) m \<Longrightarrow> lawful_from d m"
  by (rule lawful_fromI) (use lawful_quiet_append [of _ _ "[]"] in \<open>fastforce dest!: guardedD simp: quiet_def\<close>)

lemma lawful_bnd:
  assumes "keeps (guarded quiet) m" and "\<And>x. lawful_from d (k x)"
  shows "lawful_from d (bnd m k)"
proof (rule lawful_fromI)
  fix s r t
  assume s: "clients_ok s" "df s = d" and run: "bnd m k s = (r, t)"
  obtain q u where m: "m s = (q, u)" by fastforce
  from guardedD [OF assms(1) s(1) m] obtain cs where u: "clients_ok u" "df u = d"
    and cs: "history u = history s @ cs" "list_all quiet_call cs" using s by (auto simp: quiet_def)
  show "clients_ok t \<and> (\<exists>cs. history t = history s @ cs \<and> lawful (Some d) cs)"
  proof (cases q)
    case (Ok x)
    with run m have "k x u = (r, t)" by (simp add: bnd_def)
    from lawful_fromD [OF assms(2) u this] cs show ?thesis by (auto simp: lawful_quiet_append)
  qed (use run m u cs lawful_quiet_append [OF cs(2), of "Some d" "[]"] in \<open>auto simp: bnd_def\<close>)
qed

lemma lawful_then_quiet:
  assumes "lawful_from d m" and "\<And>x. keeps (guarded quiet) (k x)"
  shows "lawful_from d (bnd m k)"
proof (rule lawful_fromI)
  fix s r t
  assume s: "clients_ok s" "df s = d" and run: "bnd m k s = (r, t)"
  obtain q u where m: "m s = (q, u)" by fastforce
  from lawful_fromD [OF assms(1) s m] obtain cs where u: "clients_ok u"
    and cs: "history u = history s @ cs" "lawful (Some d) cs" by auto
  show "clients_ok t \<and> (\<exists>cs. history t = history s @ cs \<and> lawful (Some d) cs)"
  proof (cases q)
    case (Ok x)
    with run m have "k x u = (r, t)" by (simp add: bnd_def)
    from guardedD [OF assms(2) u this] cs show ?thesis by (auto simp: quiet_def lawful_append_quiet)
  qed (use run m u cs in \<open>auto simp: bnd_def\<close>)
qed

lemma lawful_attempt: "lawful_from d m \<Longrightarrow> lawful_from d (attempt m)"
  unfolding lawful_from_def keeps_def attempt_def
  by (auto split: prod.splits result.splits)

lemma lawful_map_error: "lawful_from d m \<Longrightarrow> lawful_from d (map_error f m)"
  unfolding lawful_from_def keeps_def map_error_def
  by (auto split: prod.splits result.splits)

lemma lawful_if:
  "(b \<Longrightarrow> lawful_from d m) \<Longrightarrow> (\<not> b \<Longrightarrow> lawful_from d k) \<Longrightarrow> lawful_from d (if b then m else k)"
  by simp

lemma lawful_case_prod:
  "(\<And>a b. lawful_from d (k a b)) \<Longrightarrow> lawful_from d (case x of (a, b) \<Rightarrow> k a b)"
  by (cases x) simp

lemma lawful_only_if: "(b \<Longrightarrow> lawful_from d m) \<Longrightarrow> lawful_from d (only_if b m)"
  by (cases b) (simp_all add: only_if_def lawful_quiet_prog quiet.guard.ret_ok)

lemma lawful_bnd_map_error: "lawful_from d (bnd m k) \<Longrightarrow> lawful_from d (bnd (map_error f m) k)"
  unfolding lawful_from_def keeps_def map_error_def bnd_def
  by (auto split: prod.splits result.splits) (metis snd_conv)+

lemma lawful_get_df: "lawful_from d (k d) \<Longrightarrow> lawful_from d (bnd get_df k)"
  unfolding lawful_from_def keeps_def by (simp add: run_simps)

lemma lawful_status: "lawful_from d (k (dfStatus d)) \<Longrightarrow> lawful_from d (bnd getStatus k)"
  unfolding lawful_from_def keeps_def getStatus_def by (simp add: run_simps)

lemma lawful_patch_then:
  assumes step: "status_step (dfStatus d) st" and "\<And>d'. dfStatus d' = st \<Longrightarrow> lawful_from d' (k ())"
    and grow: "keeps (guarded (emits (\<lambda>_. True))) (k ())"
  shows "lawful_from d (bnd (patchStatus E st) k)"
proof (rule lawful_fromI)
  fix s r t
  assume s: "clients_ok s" "df s = d" and run: "bnd (patchStatus E st) k s = (r, t)"
  let ?new = "d\<lparr>dfStatus := st\<rparr>"
  show "clients_ok t \<and> (\<exists>cs. history t = history s @ cs \<and> lawful (Some d) cs)"
  proof (cases "envPatchDragonflyStatus E (history s) d ?new")
    case (Inl e)
    with run s have "history t = history s @ [Patch_dragonfly_status d ?new (Inl e)]"
      and same: "redisClients t = redisClients s"
      by (auto simp: patchStatus_def patch_dragonfly_status_def run_simps perform_def)
    with step clients_ok_cong [OF same] s(1) show ?thesis by simp
  next
    case (Inr d')
    let ?u = "s\<lparr>history := history s @ [Patch_dragonfly_status d ?new (Inr d')], df := d'\<rparr>"
    from Inr run s have k: "k () ?u = (r, t)"
      by (simp add: patchStatus_def patch_dragonfly_status_def run_simps perform_def)
    have u: "clients_ok ?u" using s clients_ok_cong [of ?u s] by simp
    from guardedD [OF grow u k] obtain cs where "clients_ok t" and "history t = history ?u @ cs"
      by (auto simp: emits_def)
    moreover from lawful_fromD [OF assms(2) u _ k] have "lawful (Some d') cs" if "dfStatus d' = st"
      using that \<open>history t = history ?u @ cs\<close> by auto
    ultimately show ?thesis using step by auto
  qed
qed

lemma lawful_patch: "status_step (dfStatus d) st \<Longrightarrow> lawful_from d (patchStatus E st)"
  using lawful_patch_then [of d st ret E] by (simp add: lawful_quiet_prog quiet.guard.ret_ok grows.guard.ret_ok)

subsection \<open>The pod lifecycle controller\<close>

lemma configured_next:
  "st' = st\<lparr>statusPhase := PhaseConfiguring\<rparr> \<Longrightarrow> status_step st' (st\<lparr>statusPhase := PhaseReady\<rparr>)"
  using configured [of st'] by simp

lemma lawful_configureReplication: "lawful_from d (configureReplication E p)"
  unfolding configureReplication_def
  by (rule lawful_bnd, intro keeps_intro, rule lawful_status, rule lawful_patch_then, rule elected,
      rule lawful_bnd, rule quiet_replicaOfNoOne, rule lawful_patch_then, erule configured_next,
      rule lawful_quiet_prog, intro keeps_intro, intro keeps_intro, intro keeps_intro grows.patchStatus_kept)

lemma lawful_no_candidate: "lawful_from d (no_candidate E)"
  unfolding no_candidate_def
  by (rule lawful_status, rule lawful_then_quiet, rule lawful_only_if, rule lawful_map_error,
      rule lawful_patch, erule master_lost, intro keeps_intro)

lemma lawful_promote_candidate: "lawful_from d (promote_candidate E b p)"
  unfolding promote_candidate_def
  by (rule lawful_then_quiet, rule lawful_attempt, rule lawful_configureReplication, intro keeps_intro)

lemma lawful_elect_master: "lawful_from d (elect_master E b err)"
  unfolding elect_master_def
  by (rule lawful_bnd, intro keeps_intro, rule lawful_bnd, intro keeps_intro, rule lawful_bnd,
      intro keeps_intro, auto intro: lawful_no_candidate lawful_promote_candidate split: option.split)

lemma lawful_reconcile_pod: "lawful_from d (reconcile_pod E p)"
  unfolding reconcile_pod_def
  by (rule lawful_bnd, intro keeps_intro, rule lawful_bnd, intro keeps_intro)
    (auto intro: lawful_elect_master lawful_quiet_prog quiet.guard.fail_ok quiet.follow_master_ok
      split: sum.split)

subsection \<open>The Dragonfly controller\<close>

lemma lawful_start_phase_then:
  assumes "\<And>d. lawful_from d (k ())" and "keeps (guarded (emits (\<lambda>_. True))) (k ())"
  shows "lawful_from d (bnd (start_phase E) k)"
proof (cases "statusPhase (dfStatus d) = []")
  case True
  then show ?thesis
    unfolding start_phase_def bnd_assoc
    by (intro lawful_status)
      (simp add: only_if_def bnd_assoc, intro lawful_bnd_map_error lawful_patch_then created lawful_bnd
        quiet_event assms grows.guard.bnd_ok, simp_all add: assms grows.primitive_writes)
next
  case False
  with assms show ?thesis
    unfolding start_phase_def bnd_assoc
    by (intro lawful_status) (simp add: only_if_def)
qed

lemma lawful_detect_then:
  assumes "phase_ready (dfStatus d) \<or> statusPhase (dfStatus d) = PhaseNotReady"
    and "\<And>d. lawful_from d (k (dfStatus d))" and "\<And>st. keeps (guarded (emits (\<lambda>_. True))) (k st)"
  shows "lawful_from d (bnd (detectRollingUpdate E) k)"
proof -
  let ?st = "(dfStatus d)\<lparr>statusPhase := PhaseRollingUpdate\<rparr>"
  have "lawful_from d' (k ?st)" if "dfStatus d' = ?st" for d'
    using assms(2) [of d'] that by simp
  then have patched: "lawful_from d (bnd (patchStatus E ?st) (\<lambda>_. bnd (record_event x y z) (\<lambda>_. k ?st)))"
    for x y z
    by (intro lawful_patch_then outdated assms(1) lawful_bnd quiet_event grows.guard.bnd_ok assms(3))
      (simp_all add: grows.primitive_writes)
  show ?thesis
    unfolding detectRollingUpdate_def bnd_assoc bnd_if bnd_ret
    by (rule lawful_status, rule lawful_bnd, intro keeps_intro, rule lawful_bnd, intro keeps_intro,
        rule lawful_if, rule lawful_bnd, rule quiet_event, rule lawful_bnd_map_error, rule patched,
        rule assms(2))
qed

lemma lawful_finish_rollout: "rolling (dfStatus d) \<Longrightarrow> lawful_from d (finish_rollout E (dfStatus d))"
  unfolding finish_rollout_def
  by (intro lawful_then_quiet lawful_map_error lawful_patch rolled_out keeps_intro)

lemma lawful_roll_master:
  "rolling (dfStatus d) \<Longrightarrow> lawful_from d (roll_master E (dfStatus d) ps urev)"
  unfolding roll_master_def
  by (rule lawful_bnd, intro keeps_intro)
    (auto split: sum.split intro!: lawful_bnd [OF quiet.guard.map_error_ok [OF quiet.detectOldMasters_ok]]
      lawful_finish_rollout intro: lawful_quiet_prog keeps_intro quiet.updatedMaster_ok)

lemma lawful_unless_requeued:
  "keeps (guarded quiet) m \<Longrightarrow> lawful_from d k \<Longrightarrow> lawful_from d (unless_requeued m k)"
  unfolding unless_requeued_def
  by (erule lawful_bnd, rule lawful_if, rule lawful_quiet_prog, intro keeps_intro)

lemma lawful_rollout_round:
  assumes "rolling (dfStatus d)"
  shows "lawful_from d (rollout_round E (dfStatus d))"
proof -
  have replicas: "lawful_from d (roll_replicas E ps urev (\<lambda>qs. roll_master E (dfStatus d) qs urev))"
    for ps urev
    unfolding roll_replicas_def
    by (rule lawful_unless_requeued, intro keeps_intro, rule lawful_bnd, intro keeps_intro,
        rule lawful_case_prod, rule lawful_if, rule lawful_quiet_prog, intro keeps_intro,
        rule lawful_roll_master, rule assms)
  show ?thesis
    unfolding rollout_round_def rollout_to_def
    by (rule lawful_bnd, intro keeps_intro, rule lawful_unless_requeued, intro keeps_intro,
        rule lawful_bnd, intro keeps_intro, rule lawful_get_df, rule lawful_if, rule lawful_quiet_prog,
        intro keeps_intro, rule replicas)
qed

lemma lawful_reconcile_instance: "lawful_from d (reconcile_instance E img)"
proof -
  let ?go = "\<lambda>st. if rolling st then rollout_round E st else ret finished"
  let ?roll = "\<lambda>_. bnd getStatus (\<lambda>st0.
       bnd (if phase_ready st0 \<or> statusPhase st0 = PhaseNotReady
            then wrap ''failed to detect rolling update'' (detectRollingUpdate E) else ret st0) ?go)"
  have go: "lawful_from d (?go (dfStatus d))" for d
    by (simp add: lawful_rollout_round lawful_quiet_prog quiet.guard.ret_ok)
  have grow: "keeps (guarded (emits (\<lambda>_. True))) (?go st)" for st
    by (intro keeps_intro grows.rollout_round_kept)
  have roll: "lawful_from d (?roll ())" for d
    unfolding bnd_if
    by (rule lawful_status, rule lawful_if, rule lawful_bnd_map_error, erule lawful_detect_then,
        rule go, rule grow, simp only: bnd_ret, rule go)
  have all: "lawful_from d (bnd (reconcileResources E img) ?roll)"
    unfolding reconcileResources_def bnd_assoc
    by (rule lawful_get_df, rule lawful_bnd, intro keeps_intro, rule lawful_bnd, intro keeps_intro,
        rule lawful_bnd, intro keeps_intro, rule lawful_start_phase_then, rule roll,
        intro keeps_intro grow)
  show ?thesis
    unfolding reconcile_instance_def
    by (rule lawful_bnd, intro keeps_intro, rule lawful_if, rule lawful_quiet_prog, intro keeps_intro,
        rule lawful_bnd_map_error, rule all)
qed

subsection \<open>A whole reconciliation\<close>

abbreviation always_lawful :: "call list \<Rightarrow> bool" where
  "always_lawful cs \<equiv> (\<forall>seen. lawful seen cs)"

lemma lawful_instance:
  assumes "\<And>d. lawful_from d m"
  shows "keeps (emits always_lawful) (bnd (attempt (getDragonflyInstance E ns n)) (\<lambda>got.
     case got of Inl err \<Rightarrow> ignore_not_found (h err) | Inr _ \<Rightarrow> closing m))" (is "keeps _ ?m")
proof (rule keepsI)
  fix s r t
  assume run: "?m s = (r, t)"
  show "emits always_lawful s t"
  proof (cases "envGetDragonfly E (history s) ns n")
    case (Inl e)
    with run have "t = s\<lparr>history := history s @ [Get_dragonfly ns n (Inl e)]\<rparr>"
      by (auto simp: getDragonflyInstance_def get_dragonfly_def perform_def run_simps ignore_not_found_def
          split: if_splits)
    then show ?thesis by (simp add: emits_def)
  next
    case (Inr d)
    let ?u = "s\<lparr>history := history s @ [Get_dragonfly ns n (Inr d)], redisClients := Nil_map, df := d\<rparr>"
    from Inr run have "closing m ?u = (r, t)"
      by (simp add: getDragonflyInstance_def get_dragonfly_def perform_def run_simps Close_def)
    moreover obtain q v where v: "m ?u = (q, v)" by fastforce
    ultimately have t: "history t = history v" by (auto simp: closing_def Close_def)
    have "clients_ok ?u" by (simp add: clients_ok_def)
    from lawful_fromD [OF assms this _ v] t show ?thesis by (auto simp: emits_def)
  qed
qed

lemma lawful_reconcile:
  "keeps (emits always_lawful) (DragonflyReconcile E img ns name)"
  unfolding DragonflyReconcile_def by (rule lawful_instance, rule lawful_reconcile_instance)

interpretation lawful: trace_contract always_lawful
proof unfold_locales
  show "always_lawful (xs @ ys)" if "always_lawful xs" and ys: "always_lawful ys" for xs ys
  proof
    fix seen
    from that(1) have "lawful seen xs" ..
    with ys show "lawful seen (xs @ ys)" by (induction seen xs rule: lawful.induct) simp_all
  qed
qed simp

lemma lawful_PodReconcile: "keeps (emits always_lawful) (PodReconcile E ns name)"
  unfolding PodReconcile_def
  by (rule lawful.bnd_ok [OF lawful.attempt_ok], simp add: get_pod_def lawful.perform_ok,
      rule keeps_case_sum, unfold ignore_not_found_def getDragonflyName_def, intro keeps_intro,
      rule lawful.bnd_ok, intro keeps_intro, rule keeps_case_sum, intro keeps_intro)
    (rule lawful_instance [unfolded ignore_not_found_def], rule lawful_reconcile_pod)

subsection \<open>Properties\<close>

text \<open>C13: The status patches of all six places run one state machine. In any reconciliation of
  either controller, whatever was seen before and whatever the environment answers, each status
  patch starts from the custom resource last read or last answered, changes nothing but the
  status, and makes a step of the machine: ResourcesCreated only on an empty phase, Ready
  only from Configuring or at the end of a rollout, NotReady only from a ready phase,
  RollingUpdate only from a ready phase or NotReady.\<close>

theorem status_patches_make_steps:
  "(\<exists>cs. history (snd (PodReconcile E ns name s)) = history s @ cs \<and> (\<forall>seen. lawful seen cs)) \<and>
   (\<exists>ds. history (snd (DragonflyReconcile E img ns name s)) = history s @ ds \<and> (\<forall>seen. lawful seen ds))"
  using lawful_PodReconcile [of E ns name] lawful_reconcile [of E img ns name]
  unfolding keeps_def emits_def by blast

end
