(* ===== verification/Operator_Life.thy ===== *)
theory Operator_Life
  imports Status_Machine Rollout_Safety
begin

section \<open>The operator over time\<close>

text \<open>
  The manager calls \<^verbatim>\<open>Reconcile\<close> again and again, on events of pods and of custom resources. Here
  the calls run one after the other, in any number and order; between two of them, and
  between any two calls inside, the environment may change whatever it answers. A step contract
  that both reconcilers keep then holds over a whole life of the operator.
\<close>

subsection \<open>Reachable states\<close>

datatype request =
  Pod_request string string
| Dragonfly_request string string

fun serve :: "env \<Rightarrow> string \<Rightarrow> request \<Rightarrow> ctrl_result prog" where
  "serve E img (Pod_request ns name) = PodReconcile E ns name"
| "serve E img (Dragonfly_request ns name) = DragonflyReconcile E img ns name"

inductive operates :: "env \<Rightarrow> string \<Rightarrow> op_state \<Rightarrow> op_state \<Rightarrow> bool" for E img s where
  started: "operates E img s s"
| served: "operates E img s t \<Longrightarrow> serve E img req t = (r, u) \<Longrightarrow> operates E img s u"

lemma serve_keeps:
  assumes "\<And>ns name. keeps R (PodReconcile E ns name)"
    and "\<And>ns name. keeps R (DragonflyReconcile E img ns name)"
  shows "keeps R (serve E img req)"
  by (cases req) (simp_all add: assms)

context step_contract
begin

lemma operates_ok:
  assumes "operates E img s t" and "\<And>req. keeps R (serve E img req)"
  shows "R s t"
  using assms(1)
proof (induction rule: operates.induct)
  case (served t req r u)
  from keepsD [OF assms(2) served.hyps(2)] served.IH show ?case by (blast intro: trans)
qed (rule refl)

end

lemma operates_labels: "operates E img s t \<Longrightarrow> emits (caused label_justified []) s t"
  by (erule labels.operates_ok) (intro serve_keeps labels_follow)

lemma operates_admin: "operates E img s t \<Longrightarrow> emits (list_all admin_call) s t"
  by (erule admin_only.operates_ok) (intro serve_keeps admin_calls)

lemma operates_lawful: "operates E img s t \<Longrightarrow> emits always_lawful s t"
  by (erule lawful.operates_ok) (intro serve_keeps lawful_PodReconcile lawful_reconcile)

lemma operates_released: "operates E img s t \<Longrightarrow> released s t"
  by (erule released.operates_ok) (intro serve_keeps released_pod released_instance)

lemma emits_same: "emits P s t \<Longrightarrow> emits Q s t \<Longrightarrow> emits (\<lambda>cs. P cs \<and> Q cs) s t"
  by (auto simp: emits_def)

subsection \<open>The statuses stored in the cluster\<close>

text \<open>
  The statuses of the custom resources, by namespace and name, after the patches that were
  accepted. An honest API server answers a read with what it stores, under the name asked for,
  and an accepted patch with the custom resource as sent; nobody else writes the status.
\<close>

type_synonym statuses = "string \<times> string \<Rightarrow> dragonfly_status"

definition df_key :: "dragonfly \<Rightarrow> string \<times> string" where
  "df_key d = (dfNamespace d, dfName d)"

lemma df_key_status [simp]: "df_key (d\<lparr>dfStatus := st\<rparr>) = df_key d"
  by (simp add: df_key_def)

fun stored_after :: "statuses \<Rightarrow> call list \<Rightarrow> statuses" where
  "stored_after \<sigma> [] = \<sigma>"
| "stored_after \<sigma> (Patch_dragonfly_status old new (Inr d) # cs) =
     stored_after (\<sigma>(df_key new := dfStatus new)) cs"
| "stored_after \<sigma> (c # cs) = stored_after \<sigma> cs"

fun honest :: "statuses \<Rightarrow> call list \<Rightarrow> bool" where
  "honest \<sigma> [] = True"
| "honest \<sigma> (Get_dragonfly ns n (Inr d) # cs) =
     (df_key d = (ns, n) \<and> dfStatus d = \<sigma> (ns, n) \<and> honest \<sigma> cs)"
| "honest \<sigma> (Patch_dragonfly_status old new (Inr d) # cs) =
     (df_key d = df_key new \<and> dfStatus d = dfStatus new \<and> honest (\<sigma>(df_key new := dfStatus new)) cs)"
| "honest \<sigma> (c # cs) = honest \<sigma> cs"

lemma lawful_path:
  assumes "lawful seen cs" and "honest \<sigma> cs" and "\<And>d. seen = Some d \<Longrightarrow> dfStatus d = \<sigma> (df_key d)"
  shows "status_step\<^sup>*\<^sup>* (\<sigma> k) (stored_after \<sigma> cs k)"
  using assms
proof (induction seen cs arbitrary: \<sigma> rule: lawful.induct)
  case (5 seen old new d cs)
  let ?\<sigma> = "\<sigma>(df_key new := dfStatus new)"
  from 5 have new: "new = old\<lparr>dfStatus := dfStatus new\<rparr>" and step: "status_step (dfStatus old) (dfStatus new)"
    and old: "dfStatus old = \<sigma> (df_key old)" by simp_all
  have "df_key new = df_key old" by (subst new) simp
  with step old have "status_step\<^sup>*\<^sup>* (\<sigma> k) (?\<sigma> k)" by auto
  moreover have "status_step\<^sup>*\<^sup>* (?\<sigma> k) (stored_after ?\<sigma> cs k)"
  proof (rule 5)
    show "honest ?\<sigma> cs" using 5 by simp
    show "dfStatus d' = ?\<sigma> (df_key d')" if "Some d = Some d'" for d'
      using that 5 by simp
  qed (use 5 in simp_all)
  ultimately show ?case by simp
qed auto

subsection \<open>What the machine allows\<close>

definition operator_phases :: "string set" where
  "operator_phases =
     {PhaseResourcesCreated, PhaseConfiguring, PhaseReady, PhaseNotReady, PhaseRollingUpdate}"

lemma step_phase: "status_step st st' \<Longrightarrow> statusPhase st' \<in> operator_phases"
  by (auto simp: operator_phases_def elim: status_stepE)

lemma path_phase:
  "status_step\<^sup>*\<^sup>* st st' \<Longrightarrow> st' = st \<or> statusPhase st' \<in> operator_phases"
  by (induction rule: rtranclp_induct) (auto intro: step_phase)

lemma path_flag:
  "status_step\<^sup>*\<^sup>* st st' \<Longrightarrow> statusIsRollingUpdate st' \<Longrightarrow> statusIsRollingUpdate st"
  by (induction rule: rtranclp_induct) (auto elim: status_stepE)

text \<open>How a phase is entered.\<close>

lemma into_ready:
  "status_step st st' \<Longrightarrow> statusPhase st' = PhaseReady \<Longrightarrow> statusPhase st = PhaseConfiguring \<or> rolling st"
  by (auto elim: status_stepE)

lemma into_rolling:
  "status_step st st' \<Longrightarrow> statusPhase st' = PhaseRollingUpdate \<Longrightarrow>
   phase_ready st \<or> statusPhase st = PhaseNotReady"
  by (auto elim: status_stepE)

lemma into_not_ready: "status_step st st' \<Longrightarrow> statusPhase st' = PhaseNotReady \<Longrightarrow> phase_ready st"
  by (auto elim: status_stepE)

subsection \<open>Properties\<close>

text \<open>C18: Over a life of the operator, any sequence of reconciliations of both controllers, with an
  API server that answers with what it stores, the stored status of every custom resource moves
  along the machine: it stays as it was or ends in one of the five phases of the
  operator, and the flag of a rolling update is never raised.\<close>

theorem stored_status_follows_machine:
  assumes "operates E img s t" and "history t = history s @ cs" and "honest \<sigma> cs"
  shows "status_step\<^sup>*\<^sup>* (\<sigma> k) (stored_after \<sigma> cs k) \<and>
    (stored_after \<sigma> cs k = \<sigma> k \<or> statusPhase (stored_after \<sigma> cs k) \<in> operator_phases) \<and>
    (statusIsRollingUpdate (stored_after \<sigma> cs k) \<longrightarrow> statusIsRollingUpdate (\<sigma> k))"
proof -
  from operates_lawful [OF assms(1)] assms(2) have "lawful None cs" by (auto simp: emits_def)
  from lawful_path [OF this assms(3)] have path: "status_step\<^sup>*\<^sup>* (\<sigma> k) (stored_after \<sigma> cs k)" by simp
  from path path_phase [OF path] path_flag [OF path] show ?thesis by auto
qed

text \<open>C19: Over a life of the operator, every role label on any pod follows the data store at
  that pod's address (as in one reconciliation, but now also across the two controllers), every
  Redis command goes to an admin port, and no Redis client outlives its reconciliation.\<close>

theorem life_keeps_labels:
  assumes "operates E img s t" and "redisClients s = Nil_map"
  shows "(\<exists>cs. history t = history s @ cs \<and> caused label_justified [] cs \<and> list_all admin_call cs) \<and>
    redisClients t = Nil_map"
proof
  show "\<exists>cs. history t = history s @ cs \<and> caused label_justified [] cs \<and> list_all admin_call cs"
    using emits_same [OF operates_labels operates_admin] assms(1) unfolding emits_def by blast
  show "redisClients t = Nil_map"
    using operates_released [OF assms(1)] assms(2) by (simp add: released_def)
qed


subsection \<open>Witnesses\<close>

text \<open>The only pod does not get to run: no candidate for a master, and the phase becomes NotReady.\<close>

abbreviation masterless :: env where
  "masterless \<equiv> sample_env [sample_stuck]"

definition masterless_end :: op_state where
  "masterless_end = snd (PodReconcile masterless ''ns'' ''df-1'' (sample_state PhaseReady))"

lemma masterless_life: "operates masterless ''img'' (sample_state PhaseReady) masterless_end"
  unfolding masterless_end_def
  by (rule served [OF started, where req = "Pod_request ''ns'' ''df-1''"]) (simp add: prod_eq_iff)

lemma stuck_pod:
  "podName sample_stuck = ''df-1''" "podNamespace sample_stuck = ''ns''" "\<not> isRunningAndReady sample_stuck"
  "go_lookup (podLabels sample_stuck) DragonflyNameLabelKey = Some ''df''"
  "sample_listed [sample_stuck] (instance_labels (sample_df ph)) = [sample_stuck]"
  "sample_listed [sample_stuck] (instance_labels (sample_df ph) @ [(RoleLabelKey, Master)]) = []"
  by (simp_all add: sample_pods isRunningAndReady_def)
    (simp_all add: sample_listed_def instance_labels_def sample_pods sample_df_def)

lemma ready_df:
  "dfName (sample_df ph) = ''df''" "dfNamespace (sample_df ph) = ''ns''"
  "dfStatus (sample_df ph) = \<lparr>statusPhase = ph, statusIsRollingUpdate = False\<rparr>"
  by (simp_all add: sample_df_def)

definition not_ready_df :: dragonfly where
  "not_ready_df = (sample_df PhaseReady)\<lparr>dfStatus := \<lparr>statusPhase = PhaseNotReady, statusIsRollingUpdate = False\<rparr>\<rparr>"

lemma masterless_history:
  "history masterless_end =
    [Get_pod ''ns'' ''df-1'' (Inr sample_stuck), Get_dragonfly ''ns'' ''df'' (Inr (sample_df PhaseReady)),
     List_pods ''ns'' (instance_labels (sample_df PhaseReady) @ [(RoleLabelKey, Master)]) (Inr []),
     List_pods ''ns'' (instance_labels (sample_df PhaseReady)) (Inr [sample_stuck]),
     Patch_dragonfly_status (sample_df PhaseReady) not_ready_df (Inr not_ready_df)]"
  unfolding masterless_end_def not_ready_df_def
  by (simp add: PodReconcile_def get_pod_def getDragonflyName_def getDragonflyInstance_def get_dragonfly_def
      reconcile_pod_def run_simps perform_def stuck_pod ready_df sample_env_def sample_state_def Close_def
      closing_def isPodReady_def getMaster_def list_masters_def Let_def phase_ready_def rolling_def
      list_pods_def elect_master_def getPods_def selectMasterCandidate_def candidate_ready_def no_candidate_def
      getStatus_def patchStatus_def patch_dragonfly_status_def isMasterError_def)

theorem stored_status_follows_machine_witness:
  "operates masterless ''img'' (sample_state PhaseReady) masterless_end \<and>
   status_step\<^sup>*\<^sup>* \<lparr>statusPhase = PhaseReady, statusIsRollingUpdate = False\<rparr>
     (stored_after (\<lambda>k. \<lparr>statusPhase = PhaseReady, statusIsRollingUpdate = False\<rparr>) (history masterless_end) (''ns'', ''df'')) \<and>
   statusPhase (stored_after (\<lambda>k. \<lparr>statusPhase = PhaseReady, statusIsRollingUpdate = False\<rparr>)
     (history masterless_end) (''ns'', ''df'')) = PhaseNotReady"
proof -
  let ?\<sigma> = "\<lambda>k :: string \<times> string. \<lparr>statusPhase = PhaseReady, statusIsRollingUpdate = False\<rparr>"
  have "honest ?\<sigma> (history masterless_end)"
    by (simp add: masterless_history ready_df df_key_def)
  moreover have "statusPhase (stored_after ?\<sigma> (history masterless_end) (''ns'', ''df'')) = PhaseNotReady"
    by (simp add: masterless_history not_ready_df_def df_key_def ready_df)
  ultimately show ?thesis
    using stored_status_follows_machine [OF masterless_life, of "history masterless_end" ?\<sigma> "(''ns'', ''df'')"]
      masterless_life by (simp add: sample_state_def)
qed

theorem life_keeps_labels_witness:
  "\<exists>cs. history masterless_end = cs \<and> caused label_justified [] cs \<and> list_all admin_call cs"
  using life_keeps_labels [OF masterless_life] by (simp add: sample_state_def)

end
