(* ===== verification/Operator_Overlap.thy ===== *)
theory Operator_Overlap
  imports Operator_Life
begin

section \<open>Reconciliations that overlap in time\<close>

text \<open>
  The manager runs the two controllers at once, so the calls of their reconciliations interleave.
  Each run has an environment of its own here: what it is answered may depend on all that the
  others do. An overlap is any interleaving of any number of runs. A justification of a call by
  some earlier call of its own run (\<open>persistent\<close>) survives the interleaving; one that speaks of
  the latest earlier call, such as \<open>label_justified\<close>, need not, and is weakened here.
\<close>

inductive run_of :: "call list \<Rightarrow> bool" where
  lifecycle_run: "history (snd (PodReconcile E ns name s)) = history s @ cs \<Longrightarrow> run_of cs"
| instance_run: "history (snd (DragonflyReconcile E img ns name s)) = history s @ cs \<Longrightarrow> run_of cs"

inductive overlap :: "call list \<Rightarrow> bool" where
  idle: "overlap []"
| joined: "run_of xs \<Longrightarrow> overlap ys \<Longrightarrow> zs \<in> shuffles xs ys \<Longrightarrow> overlap zs"

inductive_cases run_ofE: "run_of cs"

subsection \<open>Justifications that survive\<close>

locale persistent =
  fixes ok :: "call list \<Rightarrow> call \<Rightarrow> bool"
  assumes persist: "ok before c \<Longrightarrow> set before \<subseteq> set longer \<Longrightarrow> ok longer c"
begin

lemma caused_shuffles:
  assumes "caused ok xb xs" and "caused ok yb ys" and "zs \<in> shuffles xs ys"
    and "set xb \<subseteq> set zb" and "set yb \<subseteq> set zb"
  shows "caused ok zb zs"
  using assms
proof (induction zs arbitrary: xs ys xb yb zb)
  case (Cons z zs)
  from Cons.prems(3) consider
    (left) xs' where "xs = z # xs'" "zs \<in> shuffles xs' ys"
    | (right) ys' where "ys = z # ys'" "zs \<in> shuffles xs ys'"
    by (auto simp: Cons_in_shuffles_iff neq_Nil_conv)
  then show ?case
  proof cases
    case left
    with Cons.prems persist [of xb z zb] show ?thesis
      by (auto intro!: Cons.IH [of "z # xb" xs' yb ys])
  next
    case right
    with Cons.prems persist [of yb z zb] show ?thesis
      by (auto intro!: Cons.IH [of xb xs "z # yb" ys'])
  qed
qed simp

lemma overlap_caused:
  assumes "overlap zs" and "\<And>cs. run_of cs \<Longrightarrow> caused ok [] cs"
  shows "caused ok [] zs"
  using assms(1)
proof (induction rule: overlap.induct)
  case (joined xs ys zs)
  then show ?case by (auto intro: caused_shuffles assms(2))
qed simp

end

text \<open>
  A role label comes behind some accepted role change of that pod to that role, and a deletion
  behind an answer that shows the pod as outdated. What is lost against a single run is that the
  role change is the latest one: the other controller may have sent its own in between.
\<close>

definition label_caused :: "call list \<Rightarrow> call \<Rightarrow> bool" where
  "label_caused before c \<longleftrightarrow> (case c of
      Patch_pod old new _ \<Rightarrow>
        (case go_lookup (podLabels new) RoleLabelKey of
           None \<Rightarrow> True
         | Some role \<Rightarrow>
             list_ex (\<lambda>b. changes_role (admin_addr (podIP new)) b \<and>
               (if role = Master then made_master (Some b)
                else role = Replica \<and>
                  made_replica_of (go_lookup (podAnnotations new) MasterIpAnnotationKey) (Some b))) before)
    | _ \<Rightarrow> True)"

interpretation persistent_label: persistent label_caused
  by unfold_locales (fastforce simp: label_caused_def list_ex_iff split: call.splits option.splits if_splits)

interpretation persistent_deletion: persistent delete_justified
  by unfold_locales (auto simp: delete_justified_def list_ex_iff split: call.splits)

lemma find_witness: "P (find Q xs) \<Longrightarrow> \<not> P None \<Longrightarrow> \<exists>x\<in>set xs. Q x \<and> P (Some x)"
  by (cases "find Q xs") (auto dest: find_SomeD)

lemma label_justified_caused: "label_justified before c \<Longrightarrow> label_caused before c"
proof -
  have "\<not> made_master None" and "\<not> made_replica_of ip None" for ip
    by (simp_all add: made_master_def made_replica_of_def)
  then show "label_justified before c \<Longrightarrow> label_caused before c"
    using find_witness [of made_master] find_witness [of "made_replica_of ip" for ip]
    by (fastforce simp: label_justified_def label_caused_def Let_def list_ex_iff split: call.splits option.splits if_splits)
qed

lemma caused_weaken: "caused ok before cs \<Longrightarrow> (\<And>b c. ok b c \<Longrightarrow> ok' b c) \<Longrightarrow> caused ok' before cs"
  by (induction cs arbitrary: before) auto

subsection \<open>What every run keeps\<close>

lemma run_emits:
  assumes "run_of cs" and "\<And>E ns name. keeps (emits P) (PodReconcile E ns name)"
    and "\<And>E img ns name. keeps (emits P) (DragonflyReconcile E img ns name)"
  shows "P cs"
proof -
  have lifecycle: "P cs" if "history (snd (PodReconcile E ns name s)) = history s @ cs" for E ns name s
    using that assms(2) [of E ns name] by (metis keeps_def emits_def same_append_eq)
  have inst: "P cs" if "history (snd (DragonflyReconcile E img ns name s)) = history s @ cs" for E img ns name s
    using that assms(3) [of E img ns name] by (metis keeps_def emits_def same_append_eq)
  from assms(1) lifecycle inst show ?thesis by (auto elim: run_ofE)
qed

lemma lifecycle_deletes_nothing: "list_all lifecycle_call cs \<Longrightarrow> caused delete_justified before cs"
  by (induction cs arbitrary: before) (auto simp: lifecycle_call_def delete_justified_def split: call.splits)

lemma keeps_emits_weaken: "keeps (emits P) m \<Longrightarrow> (\<And>cs. P cs \<Longrightarrow> Q cs) \<Longrightarrow> keeps (emits Q) m"
  by (auto simp: keeps_def emits_def)

lemma run_labels: "run_of cs \<Longrightarrow> caused label_caused [] cs"
  by (rule caused_weaken [OF run_emits [OF _ labels_follow]]) (auto intro: label_justified_caused)

lemma run_deletes: "run_of cs \<Longrightarrow> caused delete_justified [] cs"
  by (erule run_emits)
    (auto intro: keeps_emits_weaken [OF lifecycle_calls] lifecycle_deletes_nothing deletes_outdated)

lemma run_admin: "run_of cs \<Longrightarrow> list_all admin_call cs"
  by (erule run_emits) (rule admin_calls)+

lemma overlap_admin: "overlap zs \<Longrightarrow> list_all admin_call zs"
proof (induction rule: overlap.induct)
  case (joined xs ys zs)
  then show ?case using run_admin [of xs] by (auto simp: list_all_iff set_shuffles)
qed simp

subsection \<open>Property\<close>

text \<open>C16: In any overlap of reconciliations of the two controllers, of any instances and pods, every
  patch that sets a role label comes behind an accepted role change of that pod to that role, every
  deletion of a pod behind an answer that shows it as outdated, and every Redis command goes to an
  admin port.\<close>

theorem overlap_keeps_order:
  assumes "overlap zs"
  shows "caused label_caused [] zs \<and> caused delete_justified [] zs \<and> list_all admin_call zs"
proof (intro conjI)
  show "caused label_caused [] zs" by (rule persistent_label.overlap_caused [OF assms run_labels])
  show "caused delete_justified [] zs" by (rule persistent_deletion.overlap_caused [OF assms run_deletes])
  show "list_all admin_call zs" by (rule overlap_admin [OF assms])
qed

subsection \<open>Witness\<close>

fun alternate :: "'a list \<Rightarrow> 'a list \<Rightarrow> 'a list" where
  "alternate [] ys = ys"
| "alternate (x # xs) ys = (case ys of [] \<Rightarrow> x # xs | y # ys' \<Rightarrow> x # y # alternate xs ys')"

lemma alternate_shuffles: "alternate xs ys \<in> shuffles xs ys"
  by (induction xs ys rule: alternate.induct) (auto split: list.split simp: Cons_in_shuffles_iff)

text \<open>Both controllers at work on the sample cluster, call by call in turn.\<close>

definition sample_runs :: "call list" where
  "sample_runs = alternate
     (history (snd (PodReconcile (sample_env [sample_master, sample_replica]) ''ns'' ''df-1'' (sample_state PhaseReady))))
     (history (snd (DragonflyReconcile (sample_env [sample_master, sample_replica]) ''img'' ''ns'' ''df'' (sample_state PhaseReady))))"

lemma sample_overlap: "overlap sample_runs"
proof -
  have start: "history (sample_state PhaseReady) = []" by (simp add: sample_state_def)
  have "run_of (history (snd (DragonflyReconcile E img ns name (sample_state PhaseReady))))" for E img ns name
    by (rule instance_run [where E = E and img = img and ns = ns and name = name and s = "sample_state PhaseReady"]) (simp add: start)
  then have "overlap (history (snd (DragonflyReconcile E img ns name (sample_state PhaseReady))))" for E img ns name
    by (rule overlap.joined [OF _ overlap.idle]) simp
  moreover have "run_of (history (snd (PodReconcile E ns name (sample_state PhaseReady))))" for E ns name
    by (rule lifecycle_run [where E = E and ns = ns and name = name and s = "sample_state PhaseReady"]) (simp add: start)
  ultimately show ?thesis
    unfolding sample_runs_def by (blast intro: overlap.joined alternate_shuffles)
qed

theorem overlap_keeps_order_witness:
  "caused label_caused [] sample_runs \<and> caused delete_justified [] sample_runs \<and> list_all admin_call sample_runs"
  by (rule overlap_keeps_order [OF sample_overlap])

end
