(* ===== verification/Manager_Config.thy ===== *)
theory Manager_Config
  imports Reconcile_Resources Pod_Lifecycle
begin

section \<open>Starting the manager\<close>

text \<open>
  \<^verbatim>\<open>cmd/main.go\<close> and \<^verbatim>\<open>api/v1alpha1/groupversion_info.go\<close>: the scheme, the flags, the namespaces the manager watches, the options of its cache,
  and the order of the steps from the flags to the running manager. The process around it
  (environment variables, the namespace file of the service account, the kubeconfig) is an
  argument; whether a call into the controller runtime succeeds is a parameter of \<open>main\<close>.
\<close>

subsection \<open>The process the operator runs in\<close>

record kube_config =
  kcCurrentContext :: string
  kcContexts :: "string \<Rightarrow> string option option"

text \<open>
  A context of the kubeconfig is a pointer, \<open>None\<close> when nil, otherwise its namespace.
  \<open>peFile\<close> is \<open>None\<close> for a read error, \<open>peKubeConfig\<close> an error or a pointer.
\<close>

record process =
  peEnv :: "string \<Rightarrow> string option"
  peFile :: "string \<Rightarrow> string option"
  peKubeConfig :: "gerror + kube_config option"

definition getenv :: "process \<Rightarrow> string \<Rightarrow> string" where
  "getenv pe name = (case peEnv pe name of None \<Rightarrow> '''' | Some v \<Rightarrow> v)"

subsection \<open>Namespaces\<close>

definition getWatchNamespaceFromEnvVariable :: "process \<Rightarrow> string" where
  "getWatchNamespaceFromEnvVariable pe =
     (case peEnv pe ''WATCH_NAMESPACE'' of None \<Rightarrow> '''' | Some ns \<Rightarrow> ns)"

definition defaultNamespace :: string where "defaultNamespace = ''default''"

definition serviceAccountNamespaceFile :: string where
  "serviceAccountNamespaceFile = ''/var/run/secrets/kubernetes.io/serviceaccount/namespace''"

definition getPodNamespace :: "process \<Rightarrow> string" where
  "getPodNamespace pe =
     (let ns = trim_space (getenv pe ''POD_NAMESPACE'') in
      if ns \<noteq> '''' then ns
      else case peFile pe serviceAccountNamespaceFile of
             None \<Rightarrow> ''''
           | Some data \<Rightarrow> trim_space data)"

definition resolveCurrentNamespace :: "kube_config option \<Rightarrow> string" where
  "resolveCurrentNamespace clientCfg =
     (case clientCfg of
        None \<Rightarrow> defaultNamespace
      | Some cfg \<Rightarrow>
          (case kcContexts cfg (kcCurrentContext cfg) of
             None \<Rightarrow> defaultNamespace
           | Some None \<Rightarrow> defaultNamespace
           | Some (Some ns) \<Rightarrow> if ns = '''' then defaultNamespace else ns))"

definition getCurrentNamespace :: "process \<Rightarrow> string" where
  "getCurrentNamespace pe =
     (let ns = getPodNamespace pe in
      if ns \<noteq> '''' then ns
      else case peKubeConfig pe of
             Inl err \<Rightarrow> defaultNamespace
           | Inr clientCfg \<Rightarrow> resolveCurrentNamespace clientCfg)"

text \<open>
  The keys of \<^verbatim>\<open>opts.DefaultNamespaces\<close>, \<open>None\<close> when the options are left alone and the
  cache watches all namespaces.
\<close>

definition addNamespacesToOpts :: "string \<Rightarrow> (string \<Rightarrow> unit option) option" where
  "addNamespacesToOpts namespaces =
     (if namespaces \<noteq> ''''
      then Some (fold (\<lambda>value nsList. nsList(value \<mapsto> ())) (split_on CHR '','' namespaces) Map.empty)
      else None)"

subsection \<open>Options of the manager\<close>

record cache_options =
  coStripManagedFields :: bool
  coPodLabel :: selector

definition cacheOptions :: cache_options where
  "cacheOptions =
     \<lparr>coStripManagedFields = True, coPodLabel = [(KubernetesAppNameLabelKey, KubernetesAppName)]\<rparr>"

record flags =
  flMetricsAddr :: string
  flProbeAddr :: string
  flDragonflyImage :: string
  flLeaderElection :: bool
  flVersion :: bool
  flWatchCurrentNamespace :: bool

definition default_flags :: flags where
  "default_flags =
     \<lparr>flMetricsAddr = '':8080'', flProbeAddr = '':8081'', flDragonflyImage = '''',
      flLeaderElection = False, flVersion = False, flWatchCurrentNamespace = False\<rparr>"

record ctrl_options =
  moCache :: cache_options
  moMetricsAddr :: string
  moWebhookPort :: int
  moProbeAddr :: string
  moLeaderElection :: bool
  moLeaderElectionID :: string
  moReleaseOnCancel :: bool
  moNamespaces :: "(string \<Rightarrow> unit option) option"

definition watch_namespaces :: "flags \<Rightarrow> process \<Rightarrow> string" where
  "watch_namespaces fl pe =
     (if flWatchCurrentNamespace fl then getCurrentNamespace pe
      else getWatchNamespaceFromEnvVariable pe)"

definition manager_options :: "flags \<Rightarrow> process \<Rightarrow> ctrl_options" where
  "manager_options fl pe =
     \<lparr>moCache = cacheOptions, moMetricsAddr = flMetricsAddr fl, moWebhookPort = 9443,
      moProbeAddr = flProbeAddr fl, moLeaderElection = flLeaderElection fl,
      moLeaderElectionID = ''31079dea.dragonflydb.io'', moReleaseOnCancel = True,
      moNamespaces = addNamespacesToOpts (watch_namespaces fl pe)\<rparr>"

subsection \<open>The scheme\<close>

text \<open>
  \<^verbatim>\<open>groupversion_info.go\<close> and the two \<^verbatim>\<open>init\<close> functions: the types of the group are
  registered with the builder, and the package of \<^verbatim>\<open>main\<close> adds the types of the client library
  and those of the builder to its scheme. A scheme and what the libraries do to it are parameters:
  \<open>clientgo\<close> is \<^verbatim>\<open>clientgoscheme.AddToScheme\<close>, \<open>add_known\<close> the builder's \<^verbatim>\<open>AddToScheme\<close>.
\<close>

record group_version =
  gvGroup :: string
  gvVersion :: string

definition GroupVersion :: group_version where
  "GroupVersion = \<lparr>gvGroup = ''dragonflydb.io'', gvVersion = ''v1alpha1''\<rparr>"

text \<open>The types that \<^verbatim>\<open>init\<close> of \<^verbatim>\<open>dragonfly_types.go\<close> registers with \<^verbatim>\<open>SchemeBuilder\<close>.\<close>

definition registered_types :: "string list" where
  "registered_types = [''Dragonfly'', ''DragonflyList'']"

definition AddToScheme :: "(group_version \<Rightarrow> string list \<Rightarrow> 'sch \<Rightarrow> gerror + 'sch) \<Rightarrow> 'sch \<Rightarrow> gerror + 'sch" where
  "AddToScheme add_known sch = add_known GroupVersion registered_types sch"

text \<open>\<open>None\<close> is the panic of \<^verbatim>\<open>utilruntime.Must\<close>.\<close>

definition must :: "gerror + 'a \<Rightarrow> 'a option" where
  "must r = (case r of Inl err \<Rightarrow> None | Inr x \<Rightarrow> Some x)"

definition main_init ::
  "('sch \<Rightarrow> gerror + 'sch) \<Rightarrow> (group_version \<Rightarrow> string list \<Rightarrow> 'sch \<Rightarrow> gerror + 'sch) \<Rightarrow> 'sch \<Rightarrow> 'sch option" where
  "main_init clientgo add_known scheme =
     (case must (clientgo scheme) of
        None \<Rightarrow> None
      | Some scheme' \<Rightarrow> must (AddToScheme add_known scheme'))"

subsection \<open>The steps of main\<close>

datatype setup_step =
  New_manager ctrl_options
| New_clientset
| New_broadcaster
| Start_structured_logging int
| Start_recording_to_sink string
| New_recorder string
| Setup_dragonfly_controller string
| Setup_pod_lifecycle_controller string
| Add_healthz_check
| Add_readyz_check
| Log_info string
| Start_manager
| Shutdown_broadcaster

definition start_message :: "string \<Rightarrow> string" where
  "start_message watchNamespaces =
     (if watchNamespaces \<noteq> '''' then ''Watch namespaces: '' @ watchNamespaces else ''Watch all namespaces.'')"

text \<open>The last step is the deferred one: it runs when \<^verbatim>\<open>main\<close> returns, not on \<^verbatim>\<open>os.Exit\<close>.\<close>

definition main_steps :: "flags \<Rightarrow> process \<Rightarrow> setup_step list" where
  "main_steps fl pe =
     [New_manager (manager_options fl pe), New_clientset,
      New_broadcaster, Start_structured_logging 4, Start_recording_to_sink '''',
      New_recorder ''dragonfly-operator'',
      Setup_dragonfly_controller (flDragonflyImage fl),
      Setup_pod_lifecycle_controller (flDragonflyImage fl),
      Add_healthz_check, Add_readyz_check,
      Log_info ''starting manager'', Log_info (start_message (watch_namespaces fl pe)),
      Start_manager, Shutdown_broadcaster]"

text \<open>The steps that return an error.\<close>

definition can_fail :: "setup_step \<Rightarrow> bool" where
  "can_fail x = (case x of
      New_manager _ \<Rightarrow> True
    | New_clientset \<Rightarrow> True
    | Setup_dragonfly_controller _ \<Rightarrow> True
    | Setup_pod_lifecycle_controller _ \<Rightarrow> True
    | Add_healthz_check \<Rightarrow> True
    | Add_readyz_check \<Rightarrow> True
    | Start_manager \<Rightarrow> True
    | _ \<Rightarrow> False)"

text \<open>Each step that fails is logged and exits with 1: the steps taken, and the exit code.\<close>

fun run_steps :: "(setup_step \<Rightarrow> bool) \<Rightarrow> setup_step list \<Rightarrow> setup_step list \<times> int" where
  "run_steps succeeds [] = ([], 0)"
| "run_steps succeeds (x # xs) =
     (if can_fail x \<and> \<not> succeeds x then ([x], 1)
      else (let (done, code) = run_steps succeeds xs in (x # done, code)))"

definition main_Version :: string where "main_Version = ''source''"

text \<open>What is printed, the steps taken, and the exit code.\<close>

definition main_function :: "(setup_step \<Rightarrow> bool) \<Rightarrow> flags \<Rightarrow> process \<Rightarrow> string option \<times> setup_step list \<times> int" where
  "main_function succeeds fl pe =
     (if flVersion fl then (Some main_Version, [], 0)
      else (None, run_steps succeeds (main_steps fl pe)))"

text \<open>The whole process: \<open>None\<close> when an \<^verbatim>\<open>init\<close> panics, before \<^verbatim>\<open>main\<close> begins.\<close>

definition operator_process ::
  "('sch \<Rightarrow> gerror + 'sch) \<Rightarrow> (group_version \<Rightarrow> string list \<Rightarrow> 'sch \<Rightarrow> gerror + 'sch) \<Rightarrow> 'sch \<Rightarrow>
   (setup_step \<Rightarrow> bool) \<Rightarrow> flags \<Rightarrow> process \<Rightarrow> ('sch \<times> string option \<times> setup_step list \<times> int) option" where
  "operator_process clientgo add_known scheme succeeds fl pe =
     map_option (\<lambda>sch. (sch, main_function succeeds fl pe)) (main_init clientgo add_known scheme)"

text \<open>The steps taken are a first part of those of \<^verbatim>\<open>main\<close>, and only the last one may have failed.\<close>

lemma run_steps_prefix: "\<exists>rest. xs = fst (run_steps succeeds xs) @ rest"
  by (induction xs) (auto split: prod.split)

lemma run_steps_code:
  "snd (run_steps succeeds xs) = (if \<forall>x\<in>set xs. can_fail x \<longrightarrow> succeeds x then 0 else 1)"
  by (induction xs) (auto split: prod.split)

lemma run_steps_before:
  "fst (run_steps succeeds xs) = done @ [y] \<Longrightarrow> x \<in> set done \<Longrightarrow> can_fail x \<Longrightarrow> succeeds x"
  by (induction xs arbitrary: "done") (auto simp: Cons_eq_append_conv split: if_splits prod.splits)

text \<open>So the manager starts only when both controllers are set up, and releases its recorder after.\<close>

lemma manager_starts_last:
  assumes "Start_manager \<in> set (fst (run_steps succeeds (main_steps fl pe)))"
  shows "succeeds (Setup_dragonfly_controller (flDragonflyImage fl))"
    and "succeeds (Setup_pod_lifecycle_controller (flDragonflyImage fl))"
  using assms by (auto simp: main_steps_def can_fail_def split: if_splits)

subsection \<open>The watched namespaces\<close>

lemma dom_fold_keys: "dom (fold (\<lambda>v m. m(v \<mapsto> ())) vs m) = set vs \<union> dom m"
  by (induction vs arbitrary: m) auto

lemma watched_keys:
  assumes "ns \<noteq> []"
  shows "\<exists>m. addNamespacesToOpts ns = Some m \<and> dom m = set (split_on CHR '','' ns)"
  using assms dom_fold_keys [of "split_on CHR '','' ns" Map.empty]
  by (simp add: addNamespacesToOpts_def)

lemma current_namespace_nonempty: "getCurrentNamespace pe \<noteq> ''''"
  by (simp add: getCurrentNamespace_def resolveCurrentNamespace_def defaultNamespace_def Let_def
      split: sum.split option.split)

fun join_with :: "char \<Rightarrow> string list \<Rightarrow> string" where
  "join_with c [] = []"
| "join_with c [x] = x"
| "join_with c (x # y # ys) = x @ c # join_with c (y # ys)"

lemma split_join:
  "xs \<noteq> [] \<Longrightarrow> list_all (\<lambda>x. c \<notin> set x) xs \<Longrightarrow> split_on c (join_with c xs) = xs"
  by (induction c xs rule: join_with.induct)
    (auto simp: split_on_no_sep split_on_append_sep)


lemma join_nonempty: "xs \<noteq> [] \<Longrightarrow> '''' \<notin> set xs \<Longrightarrow> join_with c xs \<noteq> ''''"
  by (cases "(c, xs)" rule: join_with.cases) auto

lemma split_trailing: "split_on c (ns @ [c]) = split_on c ns @ [[]]"
  by (induction ns) (auto split: list.split)

text \<open>A piece is empty when a separator comes first or last or two come in a row.\<close>

lemma empty_first_piece: "hd (split_on c s) = [] \<longleftrightarrow> s = [] \<or> prefix [c] s"
  by (cases s) (auto split: list.split)

lemma empty_later_piece: "[] \<in> set (tl (split_on c s)) \<longleftrightarrow> suffix [c] s \<or> sublist [c, c] s"
proof (induction s)
  case (Cons x s)
  obtain y ys where s: "split_on c s = y # ys" by (cases "split_on c s") auto
  with Cons empty_first_piece [of c s] show ?case
    by (auto simp: suffix_Cons sublist_Cons_right)
qed simp

lemma empty_piece_iff:
  assumes "s \<noteq> []"
  shows "[] \<in> set (split_on c s) \<longleftrightarrow> prefix [c] s \<or> suffix [c] s \<or> sublist [c, c] s"
  using assms empty_first_piece [of c s] empty_later_piece [of c s] by (cases "split_on c s") auto

subsection \<open>Properties\<close>

text \<open>C37: With \<^verbatim>\<open>--watch-current-namespace\<close> the manager always restricts its cache, whatever
  WATCH_NAMESPACE says. When the current namespace, as the environment, the namespace file or the
  kubeconfig give it, holds no comma (as no name of a namespace does), the cache watches it and
  nothing else. The empty name, which the cache takes for all namespaces, is among the watched
  ones only when it begins or ends with a comma or has two in a row.\<close>

theorem current_namespace_watched:
  assumes "flWatchCurrentNamespace fl"
  shows "\<exists>m. moNamespaces (manager_options fl pe) = Some m \<and>
    (CHR '','' \<notin> set (getCurrentNamespace pe) \<longrightarrow> dom m = {getCurrentNamespace pe}) \<and>
    ('''' \<in> dom m \<longleftrightarrow> prefix '','' (getCurrentNamespace pe) \<or> suffix '','' (getCurrentNamespace pe) \<or>
       sublist '',,'' (getCurrentNamespace pe))"
  using assms watched_keys [OF current_namespace_nonempty, of pe]
    empty_piece_iff [OF current_namespace_nonempty, of "CHR '',''" pe]
  by (auto simp: manager_options_def watch_namespaces_def split_on_no_sep)

text \<open>C39: Without that flag the cache watches exactly the namespaces that WATCH_NAMESPACE lists,
  separated by commas, when it lists at least one and each has a name, without a comma in it.\<close>

theorem listed_namespaces_watched:
  assumes "\<not> flWatchCurrentNamespace fl" and "names \<noteq> []"
    and "list_all (\<lambda>n. n \<noteq> '''' \<and> CHR '','' \<notin> set n) names"
    and "peEnv pe ''WATCH_NAMESPACE'' = Some (join_with CHR '','' names)"
  shows "\<exists>m. moNamespaces (manager_options fl pe) = Some m \<and> dom m = set names"
proof -
  have "'''' \<notin> set names" and free: "list_all (\<lambda>n. CHR '','' \<notin> set n) names"
    using assms(3) by (auto simp: list_all_iff)
  with assms(2) have "join_with CHR '','' names \<noteq> []" by (simp add: join_nonempty)
  from watched_keys [OF this] assms(1,2,4) free show ?thesis
    by (simp add: manager_options_def watch_namespaces_def getWatchNamespaceFromEnvVariable_def split_join)
qed

text \<open>A trailing comma in WATCH_NAMESPACE adds the empty name to the watched namespaces, which
  the cache of the controller runtime takes for all namespaces.\<close>

lemma trailing_comma_watches_all:
  "\<exists>m. addNamespacesToOpts (ns @ '','') = Some m \<and> '''' \<in> dom m"
  using watched_keys [of "ns @ '',''"] split_trailing [of "CHR '',''" ns] by simp (metis insertI1)

subsection \<open>Witnesses\<close>

definition sample_process :: process where
  "sample_process =
     \<lparr>peEnv = [''POD_NAMESPACE'' \<mapsto> '' team-a '', ''WATCH_NAMESPACE'' \<mapsto> ''team-b,team-c''],
      peFile = Map.empty, peKubeConfig = Inr None\<rparr>"

lemma sample_current_namespace: "getCurrentNamespace sample_process = ''team-a''"
  by (simp add: getCurrentNamespace_def getPodNamespace_def getenv_def sample_process_def
      trim_space_def trim_by_def is_space_def)

theorem current_namespace_watched_witness:
  "\<exists>m. moNamespaces (manager_options (default_flags\<lparr>flWatchCurrentNamespace := True\<rparr>) sample_process) = Some m \<and>
     dom m = {''team-a''}"
  using current_namespace_watched [of "default_flags\<lparr>flWatchCurrentNamespace := True\<rparr>" sample_process]
  by (auto simp: sample_current_namespace)

theorem listed_namespaces_watched_witness:
  "\<exists>m. moNamespaces (manager_options default_flags sample_process) = Some m \<and>
     dom m = {''team-b'', ''team-c''}"
  using listed_namespaces_watched [of default_flags "[''team-b'', ''team-c'']" sample_process]
  by (simp add: default_flags_def sample_process_def)
end
