(* ===== verification/Operator_Composition.thy ===== *)
theory Operator_Composition
  imports Manager_Config Dragonfly_Controller
begin

section \<open>How the parts fit together\<close>

text \<open>
  The labels are the interface between the parts of the operator: the generated StatefulSet
  puts them on the pods, the cache of the manager and the event filter select by them, the
  methods list by them, and the generated service routes by the role that the replication
  methods write.
\<close>

definition selects :: "selector \<Rightarrow> string gomap \<Rightarrow> bool" where
  "selects sel labels = list_all (\<lambda>(k, v). go_lookup labels k = Some v) sel"

text \<open>A pod that the StatefulSet controller created carries the labels of the template.\<close>

definition created_from :: "statefulset \<Rightarrow> pod \<Rightarrow> bool" where
  "created_from sts p \<longleftrightarrow>
     (\<forall>k v. go_lookup (ptLabels (ssTemplate (stsSpec sts))) k = Some v \<longrightarrow> go_lookup (podLabels p) k = Some v)"

definition service_selects :: "service \<Rightarrow> pod \<Rightarrow> bool" where
  "service_selects svc p \<longleftrightarrow>
     (\<forall>k v. go_lookup (svSelector (svcSpec svc)) k = Some v \<longrightarrow> go_lookup (podLabels p) k = Some v)"

lemma template_selected:
  assumes "GenerateDragonflyResources d img = Inr objs" and "O_StatefulSet sts \<in> set objs"
    and "created_from sts p" and "selector_labels d k = Some v"
  shows "go_lookup (podLabels p) k = Some v"
proof -
  from assms(1,2) have sts: "sts = generate_statefulset d img" and ok: "check_user_labels d = None"
    by (simp_all add: generated_statefulset Generate_Inr_iff)
  from generate_selected [OF ok, of img] assms(3,4) show ?thesis
    by (simp add: sts selected_template_def sts_labels_def created_from_def)
qed

lemma generated_service:
  "GenerateDragonflyResources d img = Inr objs \<Longrightarrow> O_Service svc \<in> set objs \<Longrightarrow> svc = generate_service d"
  by (auto simp: Generate_Inr_iff probe_config_maps_def split: if_splits)

lemma service_selector:
  "svSelector (svcSpec (generate_service d)) = Go_map
     [DragonflyNameLabelKey \<mapsto> dfName d, KubernetesAppNameLabelKey \<mapsto> KubernetesAppName, RoleLabelKey \<mapsto> Master]"
  by (simp add: generate_service_def base_service_def apply_service_spec_def upd_service_spec_def Let_def
      split: option.split)

lemma marked_other_labels:
  "mark_master p = Some m \<Longrightarrow> k \<noteq> RoleLabelKey \<Longrightarrow> k \<noteq> MasterIpLabelKey \<Longrightarrow>
   go_lookup (podLabels m) k = go_lookup (podLabels p) k"
  by (auto simp: mark_master_def go_lookup_store split: option.splits)

subsection \<open>Properties\<close>

text \<open>C20: The generated service routes to a pod of the instance exactly by its role: a pod that was
  created from the generated StatefulSet is selected once it is marked master, and is not
  selected once it is marked replica, whatever labels the user added.\<close>

theorem service_routes_to_master:
  assumes "GenerateDragonflyResources d img = Inr objs" and "O_StatefulSet sts \<in> set objs"
    and "O_Service svc \<in> set objs" and "created_from sts p"
    and "mark_master p = Some m" and "mark_replica p ip = Some r"
  shows "service_selects svc m \<and> \<not> service_selects svc r"
proof
  have name: "go_lookup (podLabels p) DragonflyNameLabelKey = Some (dfName d)"
    and app: "go_lookup (podLabels p) KubernetesAppNameLabelKey = Some KubernetesAppName"
    using template_selected [OF assms(1,2,4)] by (simp_all add: selector_labels_def)
  from name app mark_master_labels(1) [OF assms(5)] marked_other_labels [OF assms(5)]
  show "service_selects svc m"
    by (auto simp: service_selects_def generated_service [OF assms(1,3)] service_selector split: if_splits)
  from mark_replica_labels(1) [OF assms(6)] show "\<not> service_selects svc r"
    by (auto simp: service_selects_def generated_service [OF assms(1,3)] service_selector
        intro!: exI [of _ RoleLabelKey])
qed

text \<open>C31: The filters of the manager never hide a pod of an instance: a pod created from the generated
  StatefulSet matches the selector with which the methods list the pods, the selector of the
  cache, and the event filter of the pod lifecycle controller.\<close>

theorem own_pods_never_hidden:
  assumes "GenerateDragonflyResources d img = Inr objs" and "O_StatefulSet sts \<in> set objs"
    and "created_from sts p"
  shows "selects (instance_labels d) (podLabels p) \<and> selects (coPodLabel cacheOptions) (podLabels p) \<and>
    pod_event_filter (podLabels p)"
  using template_selected [OF assms]
  by (simp add: selects_def instance_labels_def cacheOptions_def pod_event_filter_def selector_labels_def
      go_index_def)

text \<open>Of the generated objects exactly the disruption budgets are of a kind whose events do not
  start a reconciliation: a budget that is deleted or changed by hand is put back only when
  something else changes.\<close>

theorem only_budget_unwatched:
  assumes "GenerateDragonflyResources d img = Inr objs" and "x \<in> set objs"
  shows "obj_kind x \<notin> set owned_kinds \<longleftrightarrow> x = O_PDB (generate_pdb d)"
  using assms
  by (auto simp: Generate_Inr_iff probe_config_maps_def generateProbeConfigMap_def owned_kinds_def
      split: if_splits)

subsection \<open>Witnesses\<close>

definition template_pod :: pod where
  "template_pod = sample_replica\<lparr>podLabels :=
     ptLabels (ssTemplate (stsSpec (generate_statefulset (sample_df PhaseReady) ''img'')))\<rparr>"

lemma template_pod_created: "created_from (generate_statefulset (sample_df PhaseReady) ''img'') template_pod"
  by (simp add: created_from_def template_pod_def)

lemma template_pod_labelled: "go_lookup (podLabels template_pod) DragonflyNameLabelKey = Some ''df''"
  by (rule template_selected [OF sample_generated [of PhaseReady "''img''"] _ template_pod_created])
    (simp_all add: selector_labels_def sample_df_def)

theorem service_routes_to_master_witness:
  "\<exists>m r. mark_master template_pod = Some m \<and> mark_replica template_pod ''10.0.0.1'' = Some r \<and>
     service_selects (generate_service (sample_df PhaseReady)) m \<and>
     \<not> service_selects (generate_service (sample_df PhaseReady)) r"
proof -
  obtain m r where m: "mark_master template_pod = Some m" and r: "mark_replica template_pod ''10.0.0.1'' = Some r"
    using mark_total [OF template_pod_labelled] by blast
  from service_routes_to_master [OF sample_generated [of PhaseReady "''img''"] _ _ template_pod_created m r] m r
  show ?thesis by auto
qed

theorem only_budget_unwatched_witness:
  "obj_kind (O_PDB (generate_pdb (sample_df PhaseReady))) \<notin> set owned_kinds"
  using only_budget_unwatched [OF sample_generated [of PhaseReady "''img''"],
      of "O_PDB (generate_pdb (sample_df PhaseReady))"] by simp

theorem own_pods_never_hidden_witness:
  "selects (instance_labels (sample_df PhaseReady)) (podLabels template_pod) \<and>
   selects (coPodLabel cacheOptions) (podLabels template_pod)"
  using own_pods_never_hidden [OF sample_generated [of PhaseReady "''img''"] _ template_pod_created] by simp

end
