(* ===== verification/Deep_Copy.thy ===== *)
theory Deep_Copy
  imports Api_Types "HOL-Library.State_Monad"
begin

section \<open>Deep copies of the custom resource\<close>

text \<open>
  \<^verbatim>\<open>api/v1alpha1/zz_generated.deepcopy.go\<close>. The other theories take the custom resource as a
  value; in memory it is a tree of pointers, slices and maps, and \<^verbatim>\<open>patchStatus\<close> relies on a
  deep copy that shares nothing with the object it goes on to change. Here each
  reference has an address. A copy allocates its cells from a counter, the state of a
  \<^verbatim>\<open>State_Monad\<close>. A value of a Kubernetes library type comes with the addresses of the cells
  it owns; its own \<^verbatim>\<open>DeepCopyInto\<close> is code of the library, the parameter \<open>L\<close>, of which
  \<open>library_copies\<close> says what it promises: the same value, in cells of its own.
\<close>

subsection \<open>Cells and how they are copied\<close>

datatype 'a cell = Null | Cell nat 'a

datatype 'a held = Held (held_value: 'a) (held_cells: "nat list")

type_synonym library_copy = "nat list \<Rightarrow> (nat, nat list) state"

definition allocate :: "(nat, nat) state" where
  "allocate = State (\<lambda>n. (n, Suc n))"

text \<open>\<^verbatim>\<open>*out = new(T)\<close> and then the copy of the content; a nil reference stays nil.\<close>

fun copy_pointer :: "('a \<Rightarrow> (nat, 'a) state) \<Rightarrow> 'a cell \<Rightarrow> (nat, 'a cell) state" where
  "copy_pointer f Null = State_Monad.return Null"
| "copy_pointer f (Cell a x) = do {
     b \<leftarrow> allocate;
     y \<leftarrow> f x;
     State_Monad.return (Cell b y) }"

text \<open>\<^verbatim>\<open>make([]T, len(*in))\<close> and the loop over the elements; \<^verbatim>\<open>copy\<close> copies them as they are.\<close>

definition copy_slice :: "('a \<Rightarrow> (nat, 'a) state) \<Rightarrow> 'a list cell \<Rightarrow> (nat, 'a list cell) state" where
  "copy_slice f = copy_pointer (State_Monad.traverse_list f)"

text \<open>\<^verbatim>\<open>make(map[string]string, len(*in))\<close> and the loop that stores every entry.\<close>

definition copy_map :: "(string \<Rightarrow> string option) cell \<Rightarrow> (nat, (string \<Rightarrow> string option) cell) state" where
  "copy_map = copy_pointer State_Monad.return"

fun copy_held :: "library_copy \<Rightarrow> 'a held \<Rightarrow> (nat, 'a held) state" where
  "copy_held L (Held x as) = do {
     bs \<leftarrow> L as;
     State_Monad.return (Held x bs) }"

subsection \<open>The types in memory\<close>

text \<open>The types of \<^verbatim>\<open>dragonfly_types.go\<close> again, now with their references.\<close>

type_synonym string_map = "string \<Rightarrow> string option"

record metadata_mem =
  mmAnnotations :: "string_map cell"
  mmLabels :: "string_map cell"

record service_spec_mem =
  mvType :: string
  mvName :: string
  mvNodePort :: int
  mvAnnotations :: "string_map cell"
  mvLabels :: "string_map cell"

record tiering_mem =
  mtPvcSpec :: "pvc_spec held cell"

record snapshot_mem =
  msDir :: string
  msCron :: string
  msEnableOnMasterOnly :: bool
  msPvcSpec :: "pvc_spec held cell"
  msExistingPvcName :: string

record authentication_mem =
  maPasswordFromSecret :: "secret_key_selector held cell"
  maClientCaCertSecret :: "secret_key_selector held cell"

record pdb_spec_mem =
  mpMinAvailable :: "int_or_string cell"
  mpMaxUnavailable :: "int_or_string cell"

text \<open>The specification in two parts: up to the authentication, and the rest.\<close>

record dragonfly_spec_mem_head =
  mReplicas :: int
  mPodManagementPolicy :: string
  mImage :: string
  mImagePullPolicy :: string
  mImagePullSecrets :: "string list cell"
  mArgs :: "string list cell"
  mAclFromSecret :: "secret_key_selector held cell"
  mAnnotations :: "string_map cell"
  mLabels :: "string_map cell"
  mPodMetadata :: "metadata_mem cell"
  mEnv :: "env_var held list cell"
  mAdditionalContainers :: "container held list cell"
  mAdditionalVolumes :: "volume held list cell"
  mAdditionalVolumeMounts :: "volume_mount held list cell"
  mPvcRetentionPolicy :: "opaque cell"
  mResources :: "opaque held cell"
  mAffinity :: "opaque held cell"
  mNodeSelector :: "string_map cell"
  mMemcachedPort :: int
  mTolerations :: "opaque held list cell"
  mTopologySpreadConstraints :: "opaque held list cell"
  mAuthentication :: "authentication_mem cell"

record dragonfly_spec_mem = dragonfly_spec_mem_head +
  mContainerSecurityContext :: "opaque held cell"
  mPodSecurityContext :: "pod_security_context held cell"
  mServiceAccountName :: string
  mPriorityClassName :: string
  mTLSSecretRef :: "secret_reference cell"
  mTiering :: "tiering_mem cell"
  mSnapshot :: "snapshot_mem cell"
  mSkipFSGroup :: bool
  mServiceSpec :: "service_spec_mem cell"
  mInitContainers :: "container held list cell"
  mOwnedObjectsMetadata :: "metadata_mem cell"
  mEnableReplicationReadinessGate :: bool
  mPdb :: "pdb_spec_mem cell"
  mCustomLivenessProbeConfigMap :: "string cell"
  mCustomReadinessProbeConfigMap :: "string cell"
  mCustomStartupProbeConfigMap :: "string cell"

definition MetadataSpec_DeepCopyInto :: "library_copy \<Rightarrow> metadata_mem \<Rightarrow> (nat, metadata_mem) state" where
  "MetadataSpec_DeepCopyInto L this = do {
     newAnnotations \<leftarrow> copy_map (mmAnnotations this);
     newLabels \<leftarrow> copy_map (mmLabels this);
     State_Monad.return (this\<lparr>
       mmAnnotations := newAnnotations, mmLabels := newLabels\<rparr>) }"

definition MetadataSpec_DeepCopy :: "library_copy \<Rightarrow> metadata_mem cell \<Rightarrow> (nat, metadata_mem cell) state" where
  "MetadataSpec_DeepCopy L = copy_pointer (MetadataSpec_DeepCopyInto L)"

definition ServiceSpec_DeepCopyInto :: "library_copy \<Rightarrow> service_spec_mem \<Rightarrow> (nat, service_spec_mem) state" where
  "ServiceSpec_DeepCopyInto L this = do {
     newAnnotations \<leftarrow> copy_map (mvAnnotations this);
     newLabels \<leftarrow> copy_map (mvLabels this);
     State_Monad.return (this\<lparr>
       mvAnnotations := newAnnotations, mvLabels := newLabels\<rparr>) }"

definition ServiceSpec_DeepCopy :: "library_copy \<Rightarrow> service_spec_mem cell \<Rightarrow> (nat, service_spec_mem cell) state" where
  "ServiceSpec_DeepCopy L = copy_pointer (ServiceSpec_DeepCopyInto L)"

definition Tiering_DeepCopyInto :: "library_copy \<Rightarrow> tiering_mem \<Rightarrow> (nat, tiering_mem) state" where
  "Tiering_DeepCopyInto L this = do {
     newPvcSpec \<leftarrow> copy_pointer (copy_held L) (mtPvcSpec this);
     State_Monad.return (this\<lparr>
       mtPvcSpec := newPvcSpec\<rparr>) }"

definition Tiering_DeepCopy :: "library_copy \<Rightarrow> tiering_mem cell \<Rightarrow> (nat, tiering_mem cell) state" where
  "Tiering_DeepCopy L = copy_pointer (Tiering_DeepCopyInto L)"

definition Snapshot_DeepCopyInto :: "library_copy \<Rightarrow> snapshot_mem \<Rightarrow> (nat, snapshot_mem) state" where
  "Snapshot_DeepCopyInto L this = do {
     newPvcSpec \<leftarrow> copy_pointer (copy_held L) (msPvcSpec this);
     State_Monad.return (this\<lparr>
       msPvcSpec := newPvcSpec\<rparr>) }"

definition Snapshot_DeepCopy :: "library_copy \<Rightarrow> snapshot_mem cell \<Rightarrow> (nat, snapshot_mem cell) state" where
  "Snapshot_DeepCopy L = copy_pointer (Snapshot_DeepCopyInto L)"

definition Authentication_DeepCopyInto :: "library_copy \<Rightarrow> authentication_mem \<Rightarrow> (nat, authentication_mem) state" where
  "Authentication_DeepCopyInto L this = do {
     newPasswordFromSecret \<leftarrow> copy_pointer (copy_held L) (maPasswordFromSecret this);
     newClientCaCertSecret \<leftarrow> copy_pointer (copy_held L) (maClientCaCertSecret this);
     State_Monad.return (this\<lparr>
       maPasswordFromSecret := newPasswordFromSecret,
       maClientCaCertSecret := newClientCaCertSecret\<rparr>) }"

definition Authentication_DeepCopy :: "library_copy \<Rightarrow> authentication_mem cell \<Rightarrow> (nat, authentication_mem cell) state" where
  "Authentication_DeepCopy L = copy_pointer (Authentication_DeepCopyInto L)"

definition PdbSpec_DeepCopyInto :: "library_copy \<Rightarrow> pdb_spec_mem \<Rightarrow> (nat, pdb_spec_mem) state" where
  "PdbSpec_DeepCopyInto L this = do {
     newMinAvailable \<leftarrow> copy_pointer State_Monad.return (mpMinAvailable this);
     newMaxUnavailable \<leftarrow> copy_pointer State_Monad.return (mpMaxUnavailable this);
     State_Monad.return (this\<lparr>
       mpMinAvailable := newMinAvailable, mpMaxUnavailable := newMaxUnavailable\<rparr>) }"

definition PdbSpec_DeepCopy :: "library_copy \<Rightarrow> pdb_spec_mem cell \<Rightarrow> (nat, pdb_spec_mem cell) state" where
  "PdbSpec_DeepCopy L = copy_pointer (PdbSpec_DeepCopyInto L)"

text \<open>The steps of the specification, in two parts: up to the node selector, and the rest.\<close>

definition DragonflySpec_copy_first :: "library_copy \<Rightarrow> dragonfly_spec_mem \<Rightarrow> (nat, dragonfly_spec_mem) state" where
  "DragonflySpec_copy_first L this = do {
     newImagePullSecrets \<leftarrow> copy_slice State_Monad.return (mImagePullSecrets this);
     newArgs \<leftarrow> copy_slice State_Monad.return (mArgs this);
     newAclFromSecret \<leftarrow> copy_pointer (copy_held L) (mAclFromSecret this);
     newAnnotations \<leftarrow> copy_map (mAnnotations this);
     newLabels \<leftarrow> copy_map (mLabels this);
     newPodMetadata \<leftarrow> copy_pointer (MetadataSpec_DeepCopyInto L) (mPodMetadata this);
     newEnv \<leftarrow> copy_slice (copy_held L) (mEnv this);
     newAdditionalContainers \<leftarrow> copy_slice (copy_held L) (mAdditionalContainers this);
     newAdditionalVolumes \<leftarrow> copy_slice (copy_held L) (mAdditionalVolumes this);
     newAdditionalVolumeMounts \<leftarrow> copy_slice (copy_held L) (mAdditionalVolumeMounts this);
     newPvcRetentionPolicy \<leftarrow> copy_pointer State_Monad.return (mPvcRetentionPolicy this);
     newResources \<leftarrow> copy_pointer (copy_held L) (mResources this);
     newAffinity \<leftarrow> copy_pointer (copy_held L) (mAffinity this);
     newNodeSelector \<leftarrow> copy_map (mNodeSelector this);
     State_Monad.return (this\<lparr>
       mImagePullSecrets := newImagePullSecrets, mArgs := newArgs,
       mAclFromSecret := newAclFromSecret, mAnnotations := newAnnotations, mLabels := newLabels,
       mPodMetadata := newPodMetadata, mEnv := newEnv,
       mAdditionalContainers := newAdditionalContainers,
       mAdditionalVolumes := newAdditionalVolumes,
       mAdditionalVolumeMounts := newAdditionalVolumeMounts,
       mPvcRetentionPolicy := newPvcRetentionPolicy, mResources := newResources,
       mAffinity := newAffinity, mNodeSelector := newNodeSelector\<rparr>) }"

definition DragonflySpec_copy_rest :: "library_copy \<Rightarrow> dragonfly_spec_mem \<Rightarrow> (nat, dragonfly_spec_mem) state" where
  "DragonflySpec_copy_rest L this = do {
     newTolerations \<leftarrow> copy_slice (copy_held L) (mTolerations this);
     newTopologySpreadConstraints \<leftarrow> copy_slice (copy_held L) (mTopologySpreadConstraints this);
     newAuthentication \<leftarrow> copy_pointer (Authentication_DeepCopyInto L) (mAuthentication this);
     newContainerSecurityContext \<leftarrow> copy_pointer (copy_held L) (mContainerSecurityContext this);
     newPodSecurityContext \<leftarrow> copy_pointer (copy_held L) (mPodSecurityContext this);
     newTLSSecretRef \<leftarrow> copy_pointer State_Monad.return (mTLSSecretRef this);
     newTiering \<leftarrow> copy_pointer (Tiering_DeepCopyInto L) (mTiering this);
     newSnapshot \<leftarrow> copy_pointer (Snapshot_DeepCopyInto L) (mSnapshot this);
     newServiceSpec \<leftarrow> copy_pointer (ServiceSpec_DeepCopyInto L) (mServiceSpec this);
     newInitContainers \<leftarrow> copy_slice (copy_held L) (mInitContainers this);
     newOwnedObjectsMetadata \<leftarrow> copy_pointer (MetadataSpec_DeepCopyInto L) (mOwnedObjectsMetadata this);
     newPdb \<leftarrow> copy_pointer (PdbSpec_DeepCopyInto L) (mPdb this);
     newCustomLivenessProbeConfigMap \<leftarrow> copy_pointer State_Monad.return (mCustomLivenessProbeConfigMap this);
     newCustomReadinessProbeConfigMap \<leftarrow> copy_pointer State_Monad.return (mCustomReadinessProbeConfigMap this);
     newCustomStartupProbeConfigMap \<leftarrow> copy_pointer State_Monad.return (mCustomStartupProbeConfigMap this);
     State_Monad.return (this\<lparr>
       mTolerations := newTolerations,
       mTopologySpreadConstraints := newTopologySpreadConstraints,
       mAuthentication := newAuthentication,
       mContainerSecurityContext := newContainerSecurityContext,
       mPodSecurityContext := newPodSecurityContext, mTLSSecretRef := newTLSSecretRef,
       mTiering := newTiering, mSnapshot := newSnapshot, mServiceSpec := newServiceSpec,
       mInitContainers := newInitContainers, mOwnedObjectsMetadata := newOwnedObjectsMetadata,
       mPdb := newPdb, mCustomLivenessProbeConfigMap := newCustomLivenessProbeConfigMap,
       mCustomReadinessProbeConfigMap := newCustomReadinessProbeConfigMap,
       mCustomStartupProbeConfigMap := newCustomStartupProbeConfigMap\<rparr>) }"

definition DragonflySpec_DeepCopyInto ::
  "library_copy \<Rightarrow> dragonfly_spec_mem \<Rightarrow> (nat, dragonfly_spec_mem) state" where
  "DragonflySpec_DeepCopyInto L this = do {
     out \<leftarrow> DragonflySpec_copy_first L this;
     DragonflySpec_copy_rest L out }"

definition DragonflySpec_DeepCopy ::
  "library_copy \<Rightarrow> dragonfly_spec_mem cell \<Rightarrow> (nat, dragonfly_spec_mem cell) state" where
  "DragonflySpec_DeepCopy L = copy_pointer (DragonflySpec_DeepCopyInto L)"

text \<open>A status has no references.\<close>

definition DragonflyStatus_DeepCopyInto :: "dragonfly_status \<Rightarrow> (nat, dragonfly_status) state" where
  "DragonflyStatus_DeepCopyInto this = State_Monad.return this"

definition DragonflyStatus_DeepCopy :: "dragonfly_status cell \<Rightarrow> (nat, dragonfly_status cell) state" where
  "DragonflyStatus_DeepCopy = copy_pointer DragonflyStatus_DeepCopyInto"

record type_meta =
  tmAPIVersion :: string
  tmKind :: string

text \<open>The metadata are values of the library; of the object's, what the operator reads.\<close>

record df_object_meta =
  dmName :: string
  dmNamespace :: string
  dmUID :: string
  dmDeletionTimestamp :: "time option"

record dragonfly_mem =
  mdTypeMeta :: type_meta
  mdObjectMeta :: "df_object_meta held"
  mdSpec :: dragonfly_spec_mem
  mdStatus :: dragonfly_status

record dragonfly_list_mem =
  mlTypeMeta :: type_meta
  mlListMeta :: "opaque held"
  mlItems :: "dragonfly_mem list cell"

definition Dragonfly_DeepCopyInto :: "library_copy \<Rightarrow> dragonfly_mem \<Rightarrow> (nat, dragonfly_mem) state" where
  "Dragonfly_DeepCopyInto L this = do {
     meta \<leftarrow> copy_held L (mdObjectMeta this);
     spec \<leftarrow> DragonflySpec_DeepCopyInto L (mdSpec this);
     State_Monad.return (this\<lparr>mdTypeMeta := mdTypeMeta this, mdObjectMeta := meta, mdSpec := spec,
       mdStatus := mdStatus this\<rparr>) }"

definition Dragonfly_DeepCopy :: "library_copy \<Rightarrow> dragonfly_mem cell \<Rightarrow> (nat, dragonfly_mem cell) state" where
  "Dragonfly_DeepCopy L = copy_pointer (Dragonfly_DeepCopyInto L)"

text \<open>The result as an interface: \<open>None\<close> is the nil interface, not an interface around a nil pointer.\<close>

definition Dragonfly_DeepCopyObject ::
  "library_copy \<Rightarrow> dragonfly_mem cell \<Rightarrow> (nat, dragonfly_mem cell option) state" where
  "Dragonfly_DeepCopyObject L this = do {
     c \<leftarrow> Dragonfly_DeepCopy L this;
     State_Monad.return (if c \<noteq> Null then Some c else None) }"

definition DragonflyList_DeepCopyInto ::
  "library_copy \<Rightarrow> dragonfly_list_mem \<Rightarrow> (nat, dragonfly_list_mem) state" where
  "DragonflyList_DeepCopyInto L this = do {
     meta \<leftarrow> copy_held L (mlListMeta this);
     items \<leftarrow> copy_slice (Dragonfly_DeepCopyInto L) (mlItems this);
     State_Monad.return (this\<lparr>mlTypeMeta := mlTypeMeta this, mlListMeta := meta, mlItems := items\<rparr>) }"

definition DragonflyList_DeepCopy ::
  "library_copy \<Rightarrow> dragonfly_list_mem cell \<Rightarrow> (nat, dragonfly_list_mem cell) state" where
  "DragonflyList_DeepCopy L = copy_pointer (DragonflyList_DeepCopyInto L)"

definition DragonflyList_DeepCopyObject ::
  "library_copy \<Rightarrow> dragonfly_list_mem cell \<Rightarrow> (nat, dragonfly_list_mem cell option) state" where
  "DragonflyList_DeepCopyObject L this = do {
     c \<leftarrow> DragonflyList_DeepCopy L this;
     State_Monad.return (if c \<noteq> Null then Some c else None) }"

subsection \<open>The value and the addresses of an object in memory\<close>

text \<open>
  The value is what the other theories model. The addresses are all cells that can be
  reached: two objects whose addresses are disjoint cannot see each other's changes.
\<close>

fun cell_addrs :: "('a \<Rightarrow> nat set) \<Rightarrow> 'a cell \<Rightarrow> nat set" where
  "cell_addrs f Null = {}"
| "cell_addrs f (Cell a x) = insert a (f x)"

definition list_addrs :: "('a \<Rightarrow> nat set) \<Rightarrow> 'a list \<Rightarrow> nat set" where
  "list_addrs f xs = (\<Union>x \<in> set xs. f x)"

definition held_addrs :: "'a held \<Rightarrow> nat set" where
  "held_addrs h = set (held_cells h)"

definition no_addrs :: "'a \<Rightarrow> nat set" where
  "no_addrs x = {}"

fun pointer_value :: "('a \<Rightarrow> 'v) \<Rightarrow> 'a cell \<Rightarrow> 'v option" where
  "pointer_value f Null = None"
| "pointer_value f (Cell a x) = Some (f x)"

fun slice_value :: "('a \<Rightarrow> 'v) \<Rightarrow> 'a list cell \<Rightarrow> 'v slice" where
  "slice_value f Null = Nil_slice"
| "slice_value f (Cell a xs) = Slice (map f xs)"

fun map_value :: "(string \<Rightarrow> string option) cell \<Rightarrow> string gomap" where
  "map_value Null = Nil_map"
| "map_value (Cell a m) = Go_map m"

definition MetadataSpec_addrs :: "metadata_mem \<Rightarrow> nat set" where
  "MetadataSpec_addrs this =
     cell_addrs no_addrs (mmAnnotations this) \<union> cell_addrs no_addrs (mmLabels this)"

definition MetadataSpec_value :: "metadata_mem \<Rightarrow> metadata_spec" where
  "MetadataSpec_value this = \<lparr>
     mdAnnotations = map_value (mmAnnotations this), mdLabels = map_value (mmLabels this)\<rparr>"

definition ServiceSpec_addrs :: "service_spec_mem \<Rightarrow> nat set" where
  "ServiceSpec_addrs this =
     cell_addrs no_addrs (mvAnnotations this) \<union> cell_addrs no_addrs (mvLabels this)"

definition ServiceSpec_value :: "service_spec_mem \<Rightarrow> service_spec" where
  "ServiceSpec_value this = \<lparr>
     sspType = mvType this, sspName = mvName this, sspNodePort = mvNodePort this,
     sspAnnotations = map_value (mvAnnotations this), sspLabels = map_value (mvLabels this)\<rparr>"

definition Tiering_addrs :: "tiering_mem \<Rightarrow> nat set" where
  "Tiering_addrs this =
     cell_addrs held_addrs (mtPvcSpec this)"

definition Tiering_value :: "tiering_mem \<Rightarrow> tiering" where
  "Tiering_value this = \<lparr>
     tierPvcSpec = pointer_value held_value (mtPvcSpec this)\<rparr>"

definition Snapshot_addrs :: "snapshot_mem \<Rightarrow> nat set" where
  "Snapshot_addrs this =
     cell_addrs held_addrs (msPvcSpec this)"

definition Snapshot_value :: "snapshot_mem \<Rightarrow> snapshot" where
  "Snapshot_value this = \<lparr>
     snapDir = msDir this, snapCron = msCron this,
     snapEnableOnMasterOnly = msEnableOnMasterOnly this,
     snapPvcSpec = pointer_value held_value (msPvcSpec this),
     snapExistingPvcName = msExistingPvcName this\<rparr>"

definition Authentication_addrs :: "authentication_mem \<Rightarrow> nat set" where
  "Authentication_addrs this =
     cell_addrs held_addrs (maPasswordFromSecret this) \<union>
     cell_addrs held_addrs (maClientCaCertSecret this)"

definition Authentication_value :: "authentication_mem \<Rightarrow> authentication" where
  "Authentication_value this = \<lparr>
     authPasswordFromSecret = pointer_value held_value (maPasswordFromSecret this),
     authClientCaCertSecret = pointer_value held_value (maClientCaCertSecret this)\<rparr>"

definition PdbSpec_addrs :: "pdb_spec_mem \<Rightarrow> nat set" where
  "PdbSpec_addrs this =
     cell_addrs no_addrs (mpMinAvailable this) \<union>
     cell_addrs no_addrs (mpMaxUnavailable this)"

definition PdbSpec_value :: "pdb_spec_mem \<Rightarrow> pdb_spec" where
  "PdbSpec_value this = \<lparr>
     pdbMinAvailable = pointer_value (\<lambda>x. x) (mpMinAvailable this),
     pdbMaxUnavailable = pointer_value (\<lambda>x. x) (mpMaxUnavailable this)\<rparr>"

definition DragonflySpec_addrs :: "dragonfly_spec_mem \<Rightarrow> nat set" where
  "DragonflySpec_addrs this =
     cell_addrs (list_addrs no_addrs) (mImagePullSecrets this) \<union>
     cell_addrs (list_addrs no_addrs) (mArgs this) \<union>
     cell_addrs held_addrs (mAclFromSecret this) \<union>
     cell_addrs no_addrs (mAnnotations this) \<union> cell_addrs no_addrs (mLabels this) \<union>
     cell_addrs MetadataSpec_addrs (mPodMetadata this) \<union>
     cell_addrs (list_addrs held_addrs) (mEnv this) \<union>
     cell_addrs (list_addrs held_addrs) (mAdditionalContainers this) \<union>
     cell_addrs (list_addrs held_addrs) (mAdditionalVolumes this) \<union>
     cell_addrs (list_addrs held_addrs) (mAdditionalVolumeMounts this) \<union>
     cell_addrs no_addrs (mPvcRetentionPolicy this) \<union>
     cell_addrs held_addrs (mResources this) \<union>
     cell_addrs held_addrs (mAffinity this) \<union>
     cell_addrs no_addrs (mNodeSelector this) \<union>
     cell_addrs (list_addrs held_addrs) (mTolerations this) \<union>
     cell_addrs (list_addrs held_addrs) (mTopologySpreadConstraints this) \<union>
     cell_addrs Authentication_addrs (mAuthentication this) \<union>
     cell_addrs held_addrs (mContainerSecurityContext this) \<union>
     cell_addrs held_addrs (mPodSecurityContext this) \<union>
     cell_addrs no_addrs (mTLSSecretRef this) \<union>
     cell_addrs Tiering_addrs (mTiering this) \<union>
     cell_addrs Snapshot_addrs (mSnapshot this) \<union>
     cell_addrs ServiceSpec_addrs (mServiceSpec this) \<union>
     cell_addrs (list_addrs held_addrs) (mInitContainers this) \<union>
     cell_addrs MetadataSpec_addrs (mOwnedObjectsMetadata this) \<union>
     cell_addrs PdbSpec_addrs (mPdb this) \<union>
     cell_addrs no_addrs (mCustomLivenessProbeConfigMap this) \<union>
     cell_addrs no_addrs (mCustomReadinessProbeConfigMap this) \<union>
     cell_addrs no_addrs (mCustomStartupProbeConfigMap this)"

definition DragonflySpec_value :: "dragonfly_spec_mem \<Rightarrow> dragonfly_spec" where
  "DragonflySpec_value this = \<lparr>
     specReplicas = mReplicas this, specPodManagementPolicy = mPodManagementPolicy this,
     specImage = mImage this, specImagePullPolicy = mImagePullPolicy this,
     specImagePullSecrets = slice_value (\<lambda>x. x) (mImagePullSecrets this),
     specArgs = slice_value (\<lambda>x. x) (mArgs this),
     specAclFromSecret = pointer_value held_value (mAclFromSecret this),
     specAnnotations = map_value (mAnnotations this), specLabels = map_value (mLabels this),
     specPodMetadata = pointer_value MetadataSpec_value (mPodMetadata this),
     specEnv = slice_value held_value (mEnv this),
     specAdditionalContainers = slice_value held_value (mAdditionalContainers this),
     specAdditionalVolumes = slice_value held_value (mAdditionalVolumes this),
     specAdditionalVolumeMounts = slice_value held_value (mAdditionalVolumeMounts this),
     specPvcRetentionPolicy = pointer_value (\<lambda>x. x) (mPvcRetentionPolicy this),
     specResources = pointer_value held_value (mResources this),
     specAffinity = pointer_value held_value (mAffinity this),
     specNodeSelector = map_value (mNodeSelector this), specMemcachedPort = mMemcachedPort this,
     specTolerations = slice_value held_value (mTolerations this),
     specTopologySpreadConstraints = slice_value held_value (mTopologySpreadConstraints this),
     specAuthentication = pointer_value Authentication_value (mAuthentication this),
     specContainerSecurityContext = pointer_value held_value (mContainerSecurityContext this),
     specPodSecurityContext = pointer_value held_value (mPodSecurityContext this),
     specServiceAccountName = mServiceAccountName this,
     specPriorityClassName = mPriorityClassName this,
     specTLSSecretRef = pointer_value (\<lambda>x. x) (mTLSSecretRef this),
     specTiering = pointer_value Tiering_value (mTiering this),
     specSnapshot = pointer_value Snapshot_value (mSnapshot this),
     specSkipFSGroup = mSkipFSGroup this,
     specServiceSpec = pointer_value ServiceSpec_value (mServiceSpec this),
     specInitContainers = slice_value held_value (mInitContainers this),
     specOwnedObjectsMetadata = pointer_value MetadataSpec_value (mOwnedObjectsMetadata this),
     specEnableReplicationReadinessGate = mEnableReplicationReadinessGate this,
     specPdb = pointer_value PdbSpec_value (mPdb this),
     specCustomLivenessProbeConfigMap = pointer_value (\<lambda>x. x) (mCustomLivenessProbeConfigMap this),
     specCustomReadinessProbeConfigMap = pointer_value (\<lambda>x. x) (mCustomReadinessProbeConfigMap this),
     specCustomStartupProbeConfigMap = pointer_value (\<lambda>x. x) (mCustomStartupProbeConfigMap this)\<rparr>"

definition Dragonfly_addrs :: "dragonfly_mem \<Rightarrow> nat set" where
  "Dragonfly_addrs this = held_addrs (mdObjectMeta this) \<union> DragonflySpec_addrs (mdSpec this)"

definition Dragonfly_value :: "dragonfly_mem \<Rightarrow> dragonfly" where
  "Dragonfly_value this =
     \<lparr>dfAPIVersion = tmAPIVersion (mdTypeMeta this), dfKind = tmKind (mdTypeMeta this),
      dfName = dmName (held_value (mdObjectMeta this)),
      dfNamespace = dmNamespace (held_value (mdObjectMeta this)),
      dfUID = dmUID (held_value (mdObjectMeta this)),
      dfDeletionTimestamp = dmDeletionTimestamp (held_value (mdObjectMeta this)),
      dfSpec = DragonflySpec_value (mdSpec this), dfStatus = mdStatus this\<rparr>"

definition DragonflyList_addrs :: "dragonfly_list_mem \<Rightarrow> nat set" where
  "DragonflyList_addrs this =
     held_addrs (mlListMeta this) \<union> cell_addrs (list_addrs Dragonfly_addrs) (mlItems this)"

subsection \<open>What a copier must do\<close>

text \<open>
  \<open>makes n P m\<close>: run from any counter not below \<open>n\<close>, the program \<open>m\<close> does not lower it and
  ends with \<open>P\<close>. A copier makes an object of the same value whose addresses are all allocated since.
\<close>

definition makes :: "nat \<Rightarrow> (nat \<Rightarrow> 'a \<Rightarrow> bool) \<Rightarrow> (nat, 'a) state \<Rightarrow> bool" where
  "makes n P m \<longleftrightarrow> (\<forall>k \<ge> n. k \<le> snd (run_state m k) \<and> P (snd (run_state m k)) (fst (run_state m k)))"

definition copies :: "('a \<Rightarrow> nat set) \<Rightarrow> ('a \<Rightarrow> 'v) \<Rightarrow> ('a \<Rightarrow> (nat, 'a) state) \<Rightarrow> bool" where
  "copies addrs val f \<longleftrightarrow>
     (\<forall>x n. makes n (\<lambda>k y. addrs y \<subseteq> {n..<k} \<and> val y = val x) (f x))"

lemma copiesD:
  "copies addrs val f \<Longrightarrow> run_state (f x) n = (y, k) \<Longrightarrow> n \<le> k \<and> addrs y \<subseteq> {n..<k} \<and> val y = val x"
  unfolding copies_def makes_def by (metis fst_conv order_refl snd_conv)

lemma copiesI:
  assumes "\<And>x n y k. run_state (f x) n = (y, k) \<Longrightarrow> n \<le> k \<and> addrs y \<subseteq> {n..<k} \<and> val y = val x"
  shows "copies addrs val f"
  unfolding copies_def makes_def
proof (intro allI impI)
  fix x and n k :: nat
  assume "n \<le> k"
  with assms [of x k "fst (run_state (f x) k)" "snd (run_state (f x) k)"]
  show "k \<le> snd (run_state (f x) k) \<and> addrs (fst (run_state (f x) k)) \<subseteq> {n..<snd (run_state (f x) k)} \<and>
      val (fst (run_state (f x) k)) = val x"
    by (auto simp: subset_eq)
qed

lemma makes_return: "(\<And>k. n \<le> k \<Longrightarrow> P k x) \<Longrightarrow> makes n P (State_Monad.return x)"
  by (simp add: makes_def)

lemma makes_bind:
  assumes f: "copies addrs val f"
    and k: "\<And>y. val y = val x \<Longrightarrow> makes n (\<lambda>k r. addrs y \<subseteq> {n..<k} \<longrightarrow> P k r) (g y)"
  shows "makes n P (f x \<bind> g)"
  unfolding makes_def
proof (intro allI impI)
  fix i
  assume "n \<le> i"
  obtain y j where y: "run_state (f x) i = (y, j)" by fastforce
  from copiesD [OF f y] have j: "i \<le> j" "addrs y \<subseteq> {i..<j}" "val y = val x" by simp_all
  obtain r l where r: "run_state (g y) j = (r, l)" by fastforce
  from k [OF j(3)] \<open>n \<le> i\<close> j(1) r have "j \<le> l" and "addrs y \<subseteq> {n..<l} \<longrightarrow> P l r"
    unfolding makes_def by (metis fst_conv order_trans snd_conv)+
  moreover have "addrs y \<subseteq> {n..<l}" using j(2) \<open>n \<le> i\<close> \<open>j \<le> l\<close> by force
  ultimately show "i \<le> snd (run_state (f x \<bind> g) i) \<and>
      P (snd (run_state (f x \<bind> g) i)) (fst (run_state (f x \<bind> g) i))"
    using y r j(1) by simp
qed

named_theorems copies_intro "rules that show that a copier copies"

definition library_copies :: "library_copy \<Rightarrow> bool" where
  "library_copies L \<longleftrightarrow> (\<forall>as n. case run_state (L as) n of (bs, k) \<Rightarrow> n \<le> k \<and> set bs \<subseteq> {n..<k})"

lemma copies_held [copies_intro]:
  assumes "library_copies L"
  shows "copies held_addrs held_value (copy_held L)"
proof (rule copiesI)
  fix h :: "'a held" and n y k
  assume "run_state (copy_held L h) n = (y, k)"
  with assms show "n \<le> k \<and> held_addrs y \<subseteq> {n..<k} \<and> held_value y = held_value h"
    by (cases h) (fastforce simp: library_copies_def held_addrs_def split: prod.splits)
qed

lemma copies_plain [copies_intro]: "copies no_addrs (\<lambda>x. x) State_Monad.return"
  by (rule copiesI) (simp add: no_addrs_def)

lemma copies_pointer [copies_intro]:
  assumes "copies addrs val f"
  shows "copies (cell_addrs addrs) (pointer_value val) (copy_pointer f)"
proof (rule copiesI)
  fix c n y k
  assume run: "run_state (copy_pointer f c) n = (y, k)"
  show "n \<le> k \<and> cell_addrs addrs y \<subseteq> {n..<k} \<and> pointer_value val y = pointer_value val c"
  proof (cases c)
    case (Cell a x)
    obtain z j where z: "run_state (f x) (Suc n) = (z, j)" by fastforce
    from copiesD [OF assms z] run Cell z show ?thesis
      by (fastforce simp: allocate_def subset_eq)
  qed (use run in simp)
qed

lemma copies_traverse:
  assumes "copies addrs val f"
  shows "copies (list_addrs addrs) (map val) (State_Monad.traverse_list f)"
proof (rule copiesI)
  show "n \<le> k \<and> list_addrs addrs ys \<subseteq> {n..<k} \<and> map val ys = map val xs"
    if "run_state (State_Monad.traverse_list f xs) n = (ys, k)" for xs ys n k
    using that
  proof (induction xs arbitrary: n ys k)
    case (Cons x xs)
    obtain y j where y: "run_state (f x) n = (y, j)" by fastforce
    obtain zs l where zs: "run_state (State_Monad.traverse_list f xs) j = (zs, l)" by fastforce
    from Cons.prems y zs have "ys = y # zs" and "k = l" by simp_all
    with copiesD [OF assms y] Cons.IH [OF zs] show ?case
      by (fastforce simp: list_addrs_def)
  qed (simp add: list_addrs_def)
qed

lemma copies_slice [copies_intro]:
  assumes "copies addrs val f"
  shows "copies (cell_addrs (list_addrs addrs)) (slice_value val) (copy_slice f)"
proof -
  have slice: "slice_value val c = (case pointer_value (map val) c of None \<Rightarrow> Nil_slice | Some xs \<Rightarrow> Slice xs)" for c
    by (cases c) simp_all
  from copies_pointer [OF copies_traverse [OF assms]] show ?thesis
    unfolding copies_def makes_def copy_slice_def slice by metis
qed

lemma copies_map [copies_intro]: "copies (cell_addrs no_addrs) map_value copy_map"
proof -
  have map: "map_value c = (case pointer_value (\<lambda>x. x) c of None \<Rightarrow> Nil_map | Some m \<Rightarrow> Go_map m)" for c
    by (cases c) simp_all
  from copies_pointer [OF copies_plain] show ?thesis
    unfolding copies_def makes_def copy_map_def map by metis
qed

subsection \<open>The generated copiers copy\<close>

lemma copies_MetadataSpec [copies_intro]:
  "copies MetadataSpec_addrs MetadataSpec_value (MetadataSpec_DeepCopyInto L)"
  unfolding copies_def MetadataSpec_DeepCopyInto_def
  by (rule allI makes_bind makes_return copies_intro)+
    (simp add: MetadataSpec_addrs_def MetadataSpec_value_def)

lemma copies_ServiceSpec [copies_intro]:
  "copies ServiceSpec_addrs ServiceSpec_value (ServiceSpec_DeepCopyInto L)"
  unfolding copies_def ServiceSpec_DeepCopyInto_def
  by (rule allI makes_bind makes_return copies_intro)+
    (simp add: ServiceSpec_addrs_def ServiceSpec_value_def)

lemma copies_PdbSpec [copies_intro]: "copies PdbSpec_addrs PdbSpec_value (PdbSpec_DeepCopyInto L)"
  unfolding copies_def PdbSpec_DeepCopyInto_def
  by (rule allI makes_bind makes_return copies_intro)+
    (simp add: PdbSpec_addrs_def PdbSpec_value_def)

lemma copies_Tiering [copies_intro]:
  "library_copies L \<Longrightarrow> copies Tiering_addrs Tiering_value (Tiering_DeepCopyInto L)"
  unfolding copies_def Tiering_DeepCopyInto_def
  by (rule allI makes_bind makes_return copies_intro | assumption)+
    (simp add: Tiering_addrs_def Tiering_value_def)

lemma copies_Snapshot [copies_intro]:
  "library_copies L \<Longrightarrow> copies Snapshot_addrs Snapshot_value (Snapshot_DeepCopyInto L)"
  unfolding copies_def Snapshot_DeepCopyInto_def
  by (rule allI makes_bind makes_return copies_intro | assumption)+
    (simp add: Snapshot_addrs_def Snapshot_value_def)

lemma copies_Authentication [copies_intro]:
  "library_copies L \<Longrightarrow> copies Authentication_addrs Authentication_value (Authentication_DeepCopyInto L)"
  unfolding copies_def Authentication_DeepCopyInto_def
  by (rule allI makes_bind makes_return copies_intro | assumption)+
    (simp add: Authentication_addrs_def Authentication_value_def)

lemma copies_DragonflySpec [copies_intro]:
  "library_copies L \<Longrightarrow> copies DragonflySpec_addrs DragonflySpec_value (DragonflySpec_DeepCopyInto L)"
  unfolding copies_def DragonflySpec_DeepCopyInto_def DragonflySpec_copy_first_def
    DragonflySpec_copy_rest_def bind_assoc bind_left_identity
  by (rule allI makes_bind makes_return copies_intro | assumption)+
    (simp add: DragonflySpec_addrs_def DragonflySpec_value_def)

lemma copies_Dragonfly [copies_intro]:
  "library_copies L \<Longrightarrow> copies Dragonfly_addrs Dragonfly_value (Dragonfly_DeepCopyInto L)"
  unfolding copies_def Dragonfly_DeepCopyInto_def
  by (rule allI makes_bind makes_return copies_intro | assumption)+
    (simp add: Dragonfly_addrs_def Dragonfly_value_def)

definition DragonflyList_value :: "dragonfly_list_mem \<Rightarrow> type_meta \<times> opaque \<times> dragonfly slice" where
  "DragonflyList_value this =
     (mlTypeMeta this, held_value (mlListMeta this), slice_value Dragonfly_value (mlItems this))"

lemma copies_DragonflyList [copies_intro]:
  "library_copies L \<Longrightarrow> copies DragonflyList_addrs DragonflyList_value (DragonflyList_DeepCopyInto L)"
  unfolding copies_def DragonflyList_DeepCopyInto_def
  by (rule allI makes_bind makes_return copies_intro | assumption)+
    (simp add: DragonflyList_addrs_def DragonflyList_value_def)

subsection \<open>Properties\<close>

text \<open>C17: A deep copy of a custom resource, as an object of the Kubernetes library, is there exactly
  for a non-nil resource, has the same value, and consists of newly allocated cells only: no
  pointer, slice or map can be reached from both the original and the copy, so that no later
  change of one shows in the other.\<close>

theorem deep_copy_shares_nothing:
  assumes "library_copies L" and "insert a (Dragonfly_addrs d) \<subseteq> {..<n}"
    and "run_state (Dragonfly_DeepCopyObject L (Cell a d)) n = (q, k)"
  shows "(\<exists>b e. q = Some (Cell b e) \<and> Dragonfly_value e = Dragonfly_value d \<and>
      insert b (Dragonfly_addrs e) \<subseteq> {n..<k} \<and>
      insert a (Dragonfly_addrs d) \<inter> insert b (Dragonfly_addrs e) = {}) \<and>
    run_state (Dragonfly_DeepCopyObject L Null) n = (None, n)"
proof
  obtain c where c: "run_state (Dragonfly_DeepCopy L (Cell a d)) n = (c, k)" and q: "q = (if c \<noteq> Null then Some c else None)"
    using assms(3) by (auto simp: Dragonfly_DeepCopyObject_def split: prod.splits)
  have "cell_addrs Dragonfly_addrs c \<subseteq> {n..<k} \<and>
      pointer_value Dragonfly_value c = pointer_value Dragonfly_value (Cell a d)"
    using copiesD [OF copies_pointer [OF copies_Dragonfly [OF assms(1)]] c [unfolded Dragonfly_DeepCopy_def]]
    by simp
  then show "\<exists>b e. q = Some (Cell b e) \<and> Dragonfly_value e = Dragonfly_value d \<and>
      insert b (Dragonfly_addrs e) \<subseteq> {n..<k} \<and>
      insert a (Dragonfly_addrs d) \<inter> insert b (Dragonfly_addrs e) = {}"
    using assms(2) q by (cases c) force+
qed (simp add: Dragonfly_DeepCopyObject_def Dragonfly_DeepCopy_def)

text \<open>The same for a list of custom resources.\<close>

lemma deep_copy_list_shares_nothing:
  assumes "library_copies L" and "run_state (DragonflyList_DeepCopy L (Cell a d)) n = (c, k)"
  shows "\<exists>b e. c = Cell b e \<and> DragonflyList_value e = DragonflyList_value d \<and>
    insert b (DragonflyList_addrs e) \<subseteq> {n..<k}"
  using copiesD [OF copies_pointer [OF copies_DragonflyList [OF assms(1)]]
    assms(2) [unfolded DragonflyList_DeepCopy_def]]
  by (cases c) auto

subsection \<open>Witness\<close>

definition one_cell_each :: library_copy where
  "one_cell_each = State_Monad.traverse_list (\<lambda>_. allocate)"

lemma library_copies_one_cell_each: "library_copies one_cell_each"
proof -
  have "copies (\<lambda>a. {a}) (\<lambda>_. ()) (\<lambda>_. allocate)"
    by (rule copiesI) (auto simp: allocate_def)
  from copiesD [OF copies_traverse [OF this]] show ?thesis
    by (fastforce simp: library_copies_def one_cell_each_def list_addrs_def split: prod.splits)
qed

definition sample_mem :: dragonfly_mem where
  "sample_mem =
     \<lparr>mdTypeMeta = \<lparr>tmAPIVersion = ''dragonflydb.io/v1alpha1'', tmKind = ''Dragonfly''\<rparr>,
      mdObjectMeta = Held \<lparr>dmName = ''df'', dmNamespace = ''ns'', dmUID = ''u1'', dmDeletionTimestamp = None\<rparr> [1],
      mdSpec = \<lparr>
      mReplicas = 2, mPodManagementPolicy = '''', mImage = '''', mImagePullPolicy = '''',
      mImagePullSecrets = Null, mArgs = Cell 2 [''--maxmemory=1gb''], mAclFromSecret = Null,
      mAnnotations = Cell 3 [''team'' \<mapsto> ''data''], mLabels = Null, mPodMetadata = Null,
      mEnv = Null, mAdditionalContainers = Null, mAdditionalVolumes = Null,
      mAdditionalVolumeMounts = Null, mPvcRetentionPolicy = Null, mResources = Null,
      mAffinity = Null, mNodeSelector = Null, mMemcachedPort = 0, mTolerations = Null,
      mTopologySpreadConstraints = Null, mAuthentication = Null, mContainerSecurityContext = Null,
      mPodSecurityContext = Null, mServiceAccountName = '''', mPriorityClassName = '''',
      mTLSSecretRef = Null, mTiering = Null,
      mSnapshot = Cell 4 \<lparr>msDir = '''', msCron = '''', msEnableOnMasterOnly = False,
         msPvcSpec = Cell 5 (Held \<lparr>pvcVolumeMode = None, pvcSpecOther = no_payload\<rparr> [6, 7]), msExistingPvcName = ''''\<rparr>,
      mSkipFSGroup = False, mServiceSpec = Null, mInitContainers = Null,
      mOwnedObjectsMetadata = Null, mEnableReplicationReadinessGate = False, mPdb = Null,
      mCustomLivenessProbeConfigMap = Null, mCustomReadinessProbeConfigMap = Null,
      mCustomStartupProbeConfigMap = Null\<rparr>,
      mdStatus = \<lparr>statusPhase = ''Ready'', statusIsRollingUpdate = False\<rparr>\<rparr>"

theorem deep_copy_shares_nothing_witness:
  "\<exists>b e k. run_state (Dragonfly_DeepCopyObject one_cell_each (Cell 0 sample_mem)) 8 = (Some (Cell b e), k) \<and>
     Dragonfly_value e = Dragonfly_value sample_mem \<and> Dragonfly_addrs e \<inter> {0..7} = {}"
proof -
  obtain q k where run: "run_state (Dragonfly_DeepCopyObject one_cell_each (Cell 0 sample_mem)) 8 = (q, k)"
    by fastforce
  have addrs: "insert 0 (Dragonfly_addrs sample_mem) \<subseteq> {..<8}"
    by (simp add: Dragonfly_addrs_def DragonflySpec_addrs_def Snapshot_addrs_def sample_mem_def held_addrs_def
        no_addrs_def list_addrs_def)
  from deep_copy_shares_nothing [OF library_copies_one_cell_each addrs run] run show ?thesis
    by fastforce
qed

end
