(* ===== verification/Print_Roles.thy ===== *)
theory Print_Roles
  imports Effects
begin

section \<open>The tool that prints the roles\<close>

text \<open>
  \<^verbatim>\<open>hack/print-roles.go\<close>, a command line tool beside the operator: it forwards a local port to
  the admin port of each pod of an instance and prints what the data store reports. The
  client libraries answer through the record \<open>tool\<close>. Every address and every forward is used
  once, so their answers need not depend on the calls before. The path of the kubeconfig and the first
  argument are taken as parsed.
\<close>

text \<open>What \<^verbatim>\<open>select\<close> receives first: the forward ended, with an error or nil, or it is ready.\<close>

datatype forward_event = Forward_ended "string option" | Forward_ready

record tool =
  tlBuildConfig :: "string \<Rightarrow> string + unit"
  tlNewForConfig :: "string + unit"
  tlListPods :: "string \<Rightarrow> string \<Rightarrow> string + pod list"
  tlRoundTripper :: "string + unit"
  tlNewForward :: "string \<Rightarrow> string \<Rightarrow> string list \<Rightarrow> string + unit"
  tlForwardPorts :: "string \<Rightarrow> string \<Rightarrow> string list \<Rightarrow> forward_event"
  tlInfo :: "string \<Rightarrow> string \<Rightarrow> string + string"

text \<open>\<^verbatim>\<open>errors.Wrap(err, msg)\<close> is nil for a nil error. A result \<open>None\<close> is no error.\<close>

definition errors_wrap :: "string option \<Rightarrow> string \<Rightarrow> string option" where
  "errors_wrap err msg = map_option (\<lambda>e. msg @ '': '' @ e) err"

definition forwarded_ports :: "int \<Rightarrow> string list" where
  "forwarded_ports port = [itoa port @ '':'' @ itoa 9999]"

definition portForward :: "tool \<Rightarrow> pod \<Rightarrow> int \<Rightarrow> string option" where
  "portForward T p port =
     (case tlRoundTripper T of
        Inl err \<Rightarrow> Some err
      | Inr _ \<Rightarrow>
          (case tlNewForward T (podNamespace p) (podName p) (forwarded_ports port) of
             Inl err \<Rightarrow> Some err
           | Inr _ \<Rightarrow>
               (case tlForwardPorts T (podNamespace p) (podName p) (forwarded_ports port) of
                  Forward_ended err \<Rightarrow> errors_wrap err ''port forwarding failed''
                | Forward_ready \<Rightarrow> None)))"

definition getRole :: "tool \<Rightarrow> string \<Rightarrow> string + string" where
  "getRole T url = tlInfo T url ''replication''"

definition role_line :: "pod \<Rightarrow> string \<Rightarrow> string" where
  "role_line p role =
     podName p @ '', '' @ podIP p @ '', '' @ go_index (podLabels p) ''role'' @ '': '' @ role @ [newline]"

text \<open>The lines printed, and the panic that ended the loop, if one did.\<close>

fun print_pods :: "tool \<Rightarrow> int \<Rightarrow> pod list \<Rightarrow> string list \<times> string option" where
  "print_pods T port [] = ([], None)"
| "print_pods T port (p # ps) =
     (case portForward T p port of
        Some err \<Rightarrow> ([], Some err)
      | None \<Rightarrow>
          (case getRole T (''localhost:'' @ itoa port) of
             Inl err \<Rightarrow> ([], Some err)
           | Inr role \<Rightarrow>
               (let (printed, ended) = print_pods T (port + 1) ps in (role_line p role # printed, ended))))"

definition startPort :: int where "startPort = 6379"

definition print_roles :: "tool \<Rightarrow> string \<Rightarrow> string \<Rightarrow> string list \<times> string option" where
  "print_roles T kubeconfig dbClient =
     (case tlBuildConfig T kubeconfig of
        Inl err \<Rightarrow> ([], Some err)
      | Inr _ \<Rightarrow>
          (case tlNewForConfig T of
             Inl err \<Rightarrow> ([], Some err)
           | Inr _ \<Rightarrow>
               if dbClient = '''' then ([], Some ''No dragonfly object specified'')
               else (case tlListPods T ''default'' (''app='' @ dbClient) of
                       Inl err \<Rightarrow> ([], Some err)
                     | Inr pods \<Rightarrow> print_pods T startPort pods)))"

subsection \<open>What it prints\<close>

text \<open>One line per pod, in the order of the list, each from the port of its position; a panic
  ends the output behind the pods that worked.\<close>

definition reported :: "tool \<Rightarrow> int \<Rightarrow> pod \<Rightarrow> string \<Rightarrow> bool" where
  "reported T port p l \<longleftrightarrow> portForward T p port = None \<and>
     (\<exists>role. getRole T (''localhost:'' @ itoa port) = Inr role \<and> l = role_line p role)"

lemma print_pods_lines:
  assumes "print_pods T port ps = (ls, ended)"
  shows "length ls \<le> length ps \<and> (ended = None \<longleftrightarrow> length ls = length ps) \<and>
    (\<forall>i < length ls. reported T (port + int i) (ps ! i) (ls ! i))"
  using assms
proof (induction T port ps arbitrary: ls ended rule: print_pods.induct)
  case (2 T port p ps)
  show ?case
  proof (cases "portForward T p port")
    case None
    show ?thesis
    proof (cases "getRole T (''localhost:'' @ itoa port)")
      case (Inr role)
      obtain ms en where rest: "print_pods T (port + 1) ps = (ms, en)" by fastforce
      with 2 None Inr have ls: "ls = role_line p role # ms" "ended = en" by simp_all
      from 2(1) [OF None Inr rest] None Inr show ?thesis
        by (auto simp: ls reported_def nth_Cons algebra_simps split: nat.split)
    qed (use 2 None in auto)
  next
    case (Some err)
    with 2(2) have "ls = []" and "ended = Some err" by simp_all
    then show ?thesis by simp
  qed
qed simp

lemma print_roles_complete:
  assumes "print_roles T kubeconfig dbClient = (ls, None)"
  shows "\<exists>pods. tlListPods T ''default'' (''app='' @ dbClient) = Inr pods \<and> length ls = length pods \<and>
    (\<forall>i < length ls. reported T (startPort + int i) (pods ! i) (ls ! i))"
  using assms print_pods_lines [of T startPort]
  by (fastforce simp: print_roles_def split: sum.splits if_splits)

text \<open>The ports do not collide.\<close>

lemma forwarded_ports_inj:
  assumes "forwarded_ports a = forwarded_ports b"
    and "0 \<le> a" "a < 2 ^ 63" "0 \<le> b" "b < 2 ^ 63"
  shows "a = b"
proof -
  from assms(1) have "itoa a = itoa b"
    unfolding forwarded_ports_def list.inject append_same_eq by blast
  moreover have "parse_int64 (itoa a) = Some a" and "parse_int64 (itoa b) = Some b"
    by (rule parse_int64_itoa; use assms(2-5) in linarith)+
  ultimately show ?thesis by (metis option.inject)
qed

end
