(* ===== verification/Spec2Isabelle.thy ===== *)
theory Spec2Isabelle
  imports Net_IP Election Redis_Info Rollout_Completion Joining_Liveness Operator_Overlap Operator_Composition
    Deep_Copy Print_Roles
begin

section \<open>A verification development for the Dragonfly operator\<close>

text \<open>
  \<^bold>\<open>The program.\<close> The operator runs Dragonfly, an in-memory data store, on Kubernetes. A user
  writes a custom resource \<^verbatim>\<open>Dragonfly\<close>; two reconcilers bring the cluster to it.

  \<^item> \<^verbatim>\<open>DragonflyReconciler\<close> (\<^verbatim>\<open>dragonfly_controller.go\<close>) generates a StatefulSet, a Service, a
    ConfigMap where wanted and a PodDisruptionBudget, creates or patches them, and, when the
    StatefulSet has a new revision, rolls the pods: first the replicas, one per call of
    \<^verbatim>\<open>Reconcile\<close>, then the master, after handing its role to an updated replica.
  \<^item> \<^verbatim>\<open>DfPodLifeCycleReconciler\<close> (\<^verbatim>\<open>dragonfly_pod_lifecycle_controller.go\<close>) watches the pods. It
    elects a master when there is none, makes the other pods its replicas, and keeps the
    \<^verbatim>\<open>role\<close> label of every pod, the readiness condition and the phase in the status.

  Both drive the same \<^verbatim>\<open>DragonflyInstance\<close> (\<^verbatim>\<open>dragonfly_instance.go\<close>). They never call each
  other: they meet in the labels of the pods, in the phase of the status and in the data store.

  \<^bold>\<open>How effects are modelled\<close> (\<^verbatim>\<open>Effects\<close>). The API server, the cache in front of it and the
  data store are not code of the repository: they are one parameter, an \<open>env\<close>, which answers
  every call as a function of all calls made so far. A theorem over all environments holds
  whatever other actors do and wherever an error strikes. A method is a \<open>'a prog\<close>, from a state
  (the calls made, the custom resource in memory, the cached Redis clients) to an outcome
  (a value, an error return, a panic) and the next state; loops with early exits are
  \<open>for_each\<close> and \<open>for_until\<close>. What a method did is the part of the history it added, so that
  safety is a statement on that part and ordering is the order of the list.

  \<^bold>\<open>Theories and code.\<close> Paths are under \<^verbatim>\<open>internal/controller\<close> unless another is given.

  \<^item> \<^verbatim>\<open>Prelude\<close>, \<^verbatim>\<open>GoLib\<close>, \<^verbatim>\<open>Net_IP\<close>: rule collections, and what the code uses of the
    Go library (strings, nil and empty maps, \<^verbatim>\<open>strconv\<close>, \<^verbatim>\<open>net.ParseIP\<close>).
  \<^item> \<^verbatim>\<open>Const\<close>, \<^verbatim>\<open>Api_Types\<close>: \<^verbatim>\<open>internal/resources/const.go\<close>, \<^verbatim>\<open>version.go\<close>, the custom resource of
    \<^verbatim>\<open>api/v1alpha1/dragonfly_types.go\<close> and the Kubernetes objects the operator reads or writes,
    with the fields it uses. Values it only copies (affinities, resource lists, ...) are opaque.
  \<^item> \<^verbatim>\<open>Pod_Util\<close>, \<^verbatim>\<open>Election\<close>: \<^verbatim>\<open>util.go\<close>, the predicates on pods and the election of a master.
  \<^item> \<^verbatim>\<open>Redis_Info\<close>: the parsers of \<^verbatim>\<open>INFO\<close> replies in \<^verbatim>\<open>dragonfly_instance.go\<close>.
  \<^item> \<^verbatim>\<open>Instance_Query\<close>, \<^verbatim>\<open>Replication\<close>, \<^verbatim>\<open>Rollout\<close>: the methods of \<^verbatim>\<open>DragonflyInstance\<close>, in this
    order those that only read (plus the status patch and the client cache), those that
    change roles, and those of the rolling update.
  \<^item> \<^verbatim>\<open>Pod_Lifecycle\<close>, \<^verbatim>\<open>Dragonfly_Controller\<close>: the two \<^verbatim>\<open>Reconcile\<close> methods and what they watch.
  \<^item> \<^verbatim>\<open>Resources\<close>: \<^verbatim>\<open>internal/resources/resources.go\<close> and \<^verbatim>\<open>scripts.go\<close>, every stage that adds to
    the generated objects; \<^verbatim>\<open>Reconcile_Resources\<close>: \<^verbatim>\<open>reconcileResources\<close>, which creates and patches them.
  \<^item> \<^verbatim>\<open>Manager_Config\<close>: \<^verbatim>\<open>cmd/main.go\<close> and \<^verbatim>\<open>api/v1alpha1/groupversion_info.go\<close>, the scheme, the flags,
    the watched namespaces, the cache options and the steps to the running manager.
  \<^item> \<^verbatim>\<open>Deep_Copy\<close>: \<^verbatim>\<open>api/v1alpha1/zz_generated.deepcopy.go\<close>, over references with addresses, since the
    other theories take the custom resource as a value.
  \<^item> \<^verbatim>\<open>Print_Roles\<close>: \<^verbatim>\<open>hack/print-roles.go\<close>, the tool that prints the role of each pod.
  \<^item> \<^verbatim>\<open>Sample_Cluster\<close>: a concrete instance with its environment, on which the witnesses run.

  \<^bold>\<open>Interfaces and lemmas.\<close>

  \<^item> \<^verbatim>\<open>Contracts\<close>, \<^verbatim>\<open>Query_Contracts\<close>, \<^verbatim>\<open>Operator_Contracts\<close>: locales. A relation between the states
    before and after that the elementary calls keep is kept by the queries, by the role
    changes, by a rolling update, by both reconcilers. The code's methods are traversed once,
    inside the locales; each safety property is an interpretation with its own relation.
  \<^item> \<^verbatim>\<open>Operator_Safety\<close>, \<^verbatim>\<open>Rollout_Safety\<close>, \<^verbatim>\<open>Phase_Safety\<close>: these interpretations. A role label
    follows an accepted role change in the data store; only outdated pods are deleted, one per
    round, the old master only behind an accepted takeover; \<^verbatim>\<open>Ready\<close> is reported behind a
    promotion; no patch touches an immutable field; the Redis clients are released.
  \<^item> \<^verbatim>\<open>Status_Machine\<close>, \<^verbatim>\<open>Operator_Life\<close>: the six places that patch the status are one inductive
    step relation, and each reconciliation makes lawful steps only. \<open>operates\<close> is any sequence of
    reconciliations of both controllers; what a contract gives for one of them holds over
    the sequence, and the stored statuses move along the machine.
  \<^item> \<^verbatim>\<open>Operator_Overlap\<close>: the manager runs the two controllers at once. A justification by some
    earlier call survives any interleaving of reconciliations, each with answers of its own; one by
    the latest earlier call does not, and the theorem states what is left of it.
  \<^item> \<^verbatim>\<open>Replication_Facts\<close>: the functional behaviour of the single methods, among them the
    refinement of the master's specification by \<^verbatim>\<open>getMaster\<close> and the branches that panic.
  \<^item> \<^verbatim>\<open>Cooperation\<close>: rules of total correctness (\<open>achieves\<close>: the method returns a value, and what
    holds then), and what the queries and the role changes achieve in a cluster that accepts
    commands and patches. \<^verbatim>\<open>Election_Liveness\<close>: there an election succeeds, in one
    reconciliation. \<^verbatim>\<open>Joining_Liveness\<close>: a pod without a role is attached to the master, in one.
  \<^item> \<^verbatim>\<open>Rollout_Progress\<close>, \<^verbatim>\<open>Rollout_Round\<close>, \<^verbatim>\<open>Rollout_Completion\<close>: a rolling update ends: its
    single steps, a round of it, and whole reconciliations from the detection on. What happens
    between two of them (a deleted pod comes back on the new revision and is attached, as
    \<^verbatim>\<open>Joining_Liveness\<close> has it, a patched role is listed) is a hypothesis. The fuel is one
    reconciliation more than there are outdated pods: each that asks to run again has deleted
    one of them, and the last finds none.
  \<^item> \<^verbatim>\<open>Operator_Composition\<close>: labels across components; the generated Service reaches the
    pod that the role changes marked master, and no watch or cache hides a generated pod.
  \<^item> In the component theories: the election against a reference definition, and its
    independence of the listing order; the round trips of \<^verbatim>\<open>INFO\<close> fields, pod ordinals and namespace
    lists; when generation is refused; ownership and selectors of the generated objects;
    that a second reconciliation of a settled object sends nothing.

  \<^bold>\<open>Conventions.\<close> A nil and an empty Go map are told apart where the code could (a write to nil
  panics). A \<^verbatim>\<open>range\<close> variable that is a copy is a value here too, and a patch's answer
  replaces the object the code passed by pointer. Go leaves the order of a map's iteration open:
  the model iterates where the result does not depend on it. \<^verbatim>\<open>sort.Slice\<close> is applied to
  distinct names. \<^verbatim>\<open>strings.TrimSpace\<close> is modelled for ASCII. \<^verbatim>\<open>SetControllerReference\<close> is
  an answer of the environment. Machine integers are \<open>int\<close>: the code only compares them,
  adds one or prints them, and where it parses one (\<^verbatim>\<open>strconv.ParseInt\<close>) the 64-bit range is
  checked. There is no unbounded loop in the code, so no method needs fuel.

  \<^bold>\<open>Not modelled.\<close> Log lines and the options of the logger (and \<^verbatim>\<open>getGVK\<close>, which only serves
  them); what the libraries do inside a step of \<^verbatim>\<open>main\<close> or of \<^verbatim>\<open>SetupWithManager\<close> beyond the
  types, kinds and labels the code gives them; the end to end tests; charts and manifests.
\<close>

end
